theory Spec2Isabelle
  imports Main "HOL-Library.Word"
begin

section \<open>Node status and the interpreter's condition node\<close>

text \<open>
  \<open>BT::NodeStatus\<close> and \<open>BT::NodeType\<close> of the behaviour-tree library, as used by
  \<open>interpreter_utils.cpp\<close> and \<open>sidepanel_interpreter.cpp\<close>.
\<close>

datatype NodeStatus = IDLE | RUNNING | SUCCESS | FAILURE

datatype NodeType = UNDEFINED | ACTION | CONDITION | CONTROL | DECORATOR | SUBTREE

text \<open>
  A node of the execution tree (\<open>BT::TreeNode\<close>) as this code sees it: its type, its name (\<open>name()\<close>)
  and the status that \<open>setStatus\<close> writes and \<open>status()\<close> reads. The nodes that this code
  registers are \<open>Interpreter::InterpreterConditionNode\<close> for the type \<open>CONDITION\<close> and
  \<open>Interpreter::InterpreterNode\<close> otherwise; \<open>return_status\<close> is the member
  \<open>return_status_\<close> of the former and is not used in the other nodes.
\<close>

record TreeNode =
  node_type :: NodeType
  tnode_name :: string
  status :: NodeStatus
  return_status :: NodeStatus

text \<open>The exception \<open>Interpreter::ConditionEvaluation\<close>.\<close>

datatype cond_exn = ConditionEvaluation

definition setStatus :: "NodeStatus \<Rightarrow> TreeNode \<Rightarrow> TreeNode" where
  "setStatus s n = n\<lparr>status := s\<rparr>"

text \<open>\<open>InterpreterConditionNode::tick\<close>.\<close>

definition tick :: "TreeNode \<Rightarrow> NodeStatus" where
  "tick n = return_status n"

text \<open>
  \<open>InterpreterConditionNode::executeTick\<close>: the result is the thrown exception (\<open>Inl\<close>)
  or the returned status (\<open>Inr\<close>), together with the node after the call.
\<close>

definition executeTick :: "TreeNode \<Rightarrow> (cond_exn + NodeStatus) \<times> TreeNode" where
  "executeTick n =
     (let st = tick n in
      if st = IDLE then (Inl ConditionEvaluation, setStatus RUNNING n)
      else (Inr st, setStatus st (n\<lparr>return_status := IDLE\<rparr>)))"

text \<open>\<open>InterpreterConditionNode::set_status\<close> and \<open>InterpreterNode::set_status\<close>.\<close>

definition set_status :: "NodeStatus \<Rightarrow> TreeNode \<Rightarrow> TreeNode" where
  "set_status s n = setStatus s (n\<lparr>return_status := s\<rparr>)"

definition set_status_node :: "NodeStatus \<Rightarrow> TreeNode \<Rightarrow> TreeNode" where
  "set_status_node s n = setStatus s n"

text \<open>A condition node for examples.\<close>

definition condition_node :: "NodeStatus \<Rightarrow> NodeStatus \<Rightarrow> TreeNode" where
  "condition_node stored st =
     \<lparr>node_type = CONDITION, tnode_name = ''check'', status = st, return_status = stored\<rparr>"

section \<open>JSON values and ports\<close>

text \<open>
  A \<open>double\<close> and a \<open>float\<close> are their bit patterns. This code only passes them on; the
  conversions between numbers that C++ and the libraries perform are parameters.
\<close>

type_synonym float64 = "64 word"
type_synonym float32 = "32 word"

text \<open>
  A rapidjson value. A number that is stored as an integer carries its value; the
  library's \<open>IsInt\<close>, \<open>IsUint\<close>, \<open>IsInt64\<close> and \<open>IsUint64\<close> depend on the range the
  value lies in. An object is the list of its members in insertion order.
\<close>

datatype json =
    JNull
  | JBool bool
  | JNum int
  | JDouble float64
  | JString string
  | JArray "json list"
  | JObject "(string \<times> json) list"

text \<open>
  The failures of this code. \<open>InvalidPortType\<close> is the \<open>std::runtime_error\<close> thrown at
  the end of \<open>getInputValue\<close> and \<open>setOutputValue\<close>, with its message; \<open>InputError\<close> is
  the \<open>std::runtime_error\<close> thrown with the message of a failed \<open>getInput\<close>;
  \<open>OutOfRange\<close> is the \<open>std::out_of_range\<close> of \<open>vector::at\<close>; \<open>BadLexicalCast\<close> is the
  exception of \<open>boost::lexical_cast\<close>; \<open>JsonAssert\<close> is a failed assertion of rapidjson;
  \<open>PortNotFound\<close> stands for dereferencing the end iterator of \<open>ports.find\<close>;
  \<open>LibraryException\<close> is an exception of the behaviour-tree library, which derives from
  \<open>std::exception\<close>.
\<close>

datatype error =
    InvalidPortType string
  | InputError string
  | OutOfRange
  | BadLexicalCast
  | JsonAssert
  | PortNotFound
  | LibraryException string

definition IsBool :: "json \<Rightarrow> bool" where
  "IsBool j = (case j of JBool _ \<Rightarrow> True | _ \<Rightarrow> False)"

definition IsInt :: "json \<Rightarrow> bool" where
  "IsInt j = (case j of JNum i \<Rightarrow> - (2 ^ 31) \<le> i \<and> i < 2 ^ 31 | _ \<Rightarrow> False)"

definition IsUint :: "json \<Rightarrow> bool" where
  "IsUint j = (case j of JNum i \<Rightarrow> 0 \<le> i \<and> i < 2 ^ 32 | _ \<Rightarrow> False)"

definition IsInt64 :: "json \<Rightarrow> bool" where
  "IsInt64 j = (case j of JNum i \<Rightarrow> - (2 ^ 63) \<le> i \<and> i < 2 ^ 63 | _ \<Rightarrow> False)"

definition IsUint64 :: "json \<Rightarrow> bool" where
  "IsUint64 j = (case j of JNum i \<Rightarrow> 0 \<le> i \<and> i < 2 ^ 64 | _ \<Rightarrow> False)"

definition IsNumber :: "json \<Rightarrow> bool" where
  "IsNumber j = (case j of JNum _ \<Rightarrow> True | JDouble _ \<Rightarrow> True | _ \<Rightarrow> False)"

definition IsString :: "json \<Rightarrow> bool" where
  "IsString j = (case j of JString _ \<Rightarrow> True | _ \<Rightarrow> False)"

text \<open>
  The getters of rapidjson assert the kind of the value; a failed assertion is the
  error \<open>JsonAssert\<close>.
\<close>

definition GetBool :: "json \<Rightarrow> error + bool" where
  "GetBool j = (case j of JBool b \<Rightarrow> Inr b | _ \<Rightarrow> Inl JsonAssert)"

definition GetInt :: "json \<Rightarrow> error + int" where
  "GetInt j = (case j of JNum i \<Rightarrow> if IsInt j then Inr i else Inl JsonAssert | _ \<Rightarrow> Inl JsonAssert)"

definition GetUint :: "json \<Rightarrow> error + int" where
  "GetUint j = (case j of JNum i \<Rightarrow> if IsUint j then Inr i else Inl JsonAssert | _ \<Rightarrow> Inl JsonAssert)"

definition GetInt64 :: "json \<Rightarrow> error + int" where
  "GetInt64 j = (case j of JNum i \<Rightarrow> if IsInt64 j then Inr i else Inl JsonAssert | _ \<Rightarrow> Inl JsonAssert)"

definition GetUint64 :: "json \<Rightarrow> error + int" where
  "GetUint64 j = (case j of JNum i \<Rightarrow> if IsUint64 j then Inr i else Inl JsonAssert | _ \<Rightarrow> Inl JsonAssert)"

text \<open>\<open>GetDouble\<close> accepts every number; an integer is converted (by \<open>conv\<close>).\<close>

definition GetDouble :: "(int \<Rightarrow> float64) \<Rightarrow> json \<Rightarrow> error + float64" where
  "GetDouble conv j =
     (case j of JDouble d \<Rightarrow> Inr d | JNum i \<Rightarrow> Inr (conv i) | _ \<Rightarrow> Inl JsonAssert)"

definition GetString :: "json \<Rightarrow> error + string" where
  "GetString j = (case j of JString s \<Rightarrow> Inr s | _ \<Rightarrow> Inl JsonAssert)"

text \<open>\<open>HasMember\<close> and \<open>operator[]\<close> on an object: the first member of that name.\<close>

definition HasMember :: "json \<Rightarrow> string \<Rightarrow> bool" where
  "HasMember j k = (case j of JObject ms \<Rightarrow> map_of ms k \<noteq> None | _ \<Rightarrow> False)"

definition member :: "json \<Rightarrow> string \<Rightarrow> error + json" where
  "member j k =
     (case j of
        JObject ms \<Rightarrow> (case map_of ms k of Some v \<Rightarrow> Inr v | None \<Rightarrow> Inl JsonAssert)
      | _ \<Rightarrow> Inl JsonAssert)"

text \<open>\<open>AddMember\<close> appends; it does not look for an earlier member of the same name.\<close>

definition AddMember :: "string \<Rightarrow> json \<Rightarrow> (string \<times> json) list \<Rightarrow> (string \<times> json) list" where
  "AddMember k v ms = ms @ [(k, v)]"

datatype PortDirection = INPUT | OUTPUT | INOUT

record PortModel =
  type_name :: string
  direction :: PortDirection
  default_value :: string

text \<open>
  An \<open>AbstractTreeNode\<close> of the editor, with what this code reads of it: the type of
  its model, the ports of its model (\<open>node.model.ports\<close>, a \<open>std::map\<close>, in key order), the
  current port mapping of its graphic node (\<open>getCurrentPortMapping\<close>, in key order),
  whether its graphic node is selected, and, when its data model is a
  \<open>SubtreeNodeModel\<close>, the \<open>expanded\<close> flag together with the number of nodes that
  \<open>getSubtreeNodesRecursively\<close> returns for the expanded subtree besides the subtree's
  root.
\<close>

record AbstractTreeNode =
  model_type :: NodeType
  model_ports :: "(string \<times> PortModel) list"
  port_mapping :: "(string \<times> string) list"
  selected :: bool
  subtree :: "(bool \<times> nat) option"

section \<open>Port variables (\<open>interpreter_utils.cpp\<close>)\<close>

text \<open>
  What \<open>getInputValue\<close> and \<open>setOutputValue\<close> use of a \<open>BT::TreeNode\<close>: its two names and
  the typed \<open>getInput\<close> of the library, which gives an error message or a value of the
  requested C++ type.
\<close>

record TreeNodePorts =
  registrationName :: string
  node_name :: string
  getInput_doc :: "string \<Rightarrow> string + json"
  getInput_bool :: "string \<Rightarrow> string + bool"
  getInput_int :: "string \<Rightarrow> string + 32 word"
  getInput_uint :: "string \<Rightarrow> string + 32 word"
  getInput_int64 :: "string \<Rightarrow> string + 64 word"
  getInput_uint64 :: "string \<Rightarrow> string + 64 word"
  getInput_double :: "string \<Rightarrow> string + float64"
  getInput_string :: "string \<Rightarrow> string + string"

definition invalid_port_type :: "string \<Rightarrow> string \<Rightarrow> TreeNodePorts \<Rightarrow> string" where
  "invalid_port_type type name tn =
     ''Invalid port type: '' @ type @ '' for '' @ name @ '' at '' @
     registrationName tn @ ''('' @ node_name tn @ '')''"

definition read_port :: "(string + 'a) \<Rightarrow> ('a \<Rightarrow> json) \<Rightarrow> error + json" where
  "read_port res mk = (case res of Inl e \<Rightarrow> Inl (InputError e) | Inr v \<Rightarrow> Inr (mk v))"

definition getInputValue :: "TreeNodePorts \<Rightarrow> string \<Rightarrow> string \<Rightarrow> error + json" where
  "getInputValue tn name type =
     (if CHR ''/'' \<in> set type then read_port (getInput_doc tn name) (\<lambda>v. v)
      else if type = ''bool'' then read_port (getInput_bool tn name) JBool
      else if type = ''int8'' \<or> type = ''int16'' \<or> type = ''int32''
        then read_port (getInput_int tn name) (\<lambda>w. JNum (sint w))
      else if type = ''uint8'' \<or> type = ''uint16'' \<or> type = ''uint32''
        then read_port (getInput_uint tn name) (\<lambda>w. JNum (uint w))
      else if type = ''int64'' then read_port (getInput_int64 tn name) (\<lambda>w. JNum (sint w))
      else if type = ''uint64'' then read_port (getInput_uint64 tn name) (\<lambda>w. JNum (uint w))
      else if type = ''float32'' \<or> type = ''float64''
        then read_port (getInput_double tn name) JDouble
      else if type = ''string'' then read_port (getInput_string tn name) JString
      else Inl (InvalidPortType (invalid_port_type type name tn)))"

text \<open>
  The value \<open>setOutput<T>\<close> is called with, after the conversion of the argument to \<open>T\<close>.
\<close>

datatype port_value =
    VDoc json
  | VUInt8 "8 word"
  | VInt8 "8 word"
  | VInt16 "16 word"
  | VInt32 "32 word"
  | VInt64 "64 word"
  | VUInt16 "16 word"
  | VUInt32 "32 word"
  | VUInt64 "64 word"
  | VFloat float32
  | VDouble float64
  | VString string

definition write_port :: "string \<Rightarrow> (error + 'a) \<Rightarrow> ('a \<Rightarrow> port_value) \<Rightarrow> error + string \<times> port_value" where
  "write_port name got mk = (case got of Inl e \<Rightarrow> Inl e | Inr v \<Rightarrow> Inr (name, mk v))"

text \<open>
  \<open>setOutputValue\<close> returns the one \<open>setOutput\<close> call it makes (port name and value);
  \<open>conv\<close> is the conversion of an integer to a double inside \<open>GetDouble\<close> and \<open>narrow\<close> the
  conversion of a double to \<open>float\<close>.
\<close>

definition setOutputValue ::
  "(int \<Rightarrow> float64) \<Rightarrow> (float64 \<Rightarrow> float32) \<Rightarrow> TreeNodePorts \<Rightarrow> string \<Rightarrow> string \<Rightarrow> json
     \<Rightarrow> error + string \<times> port_value" where
  "setOutputValue conv narrow tn name type document =
     (if CHR ''/'' \<in> set type then Inr (name, VDoc document)
      else if type = ''bool''
        then write_port name (GetBool document) (\<lambda>b. VUInt8 (if b then 1 else 0))
      else if type = ''int8'' then write_port name (GetInt document) (\<lambda>i. VInt8 (word_of_int i))
      else if type = ''int16'' then write_port name (GetInt document) (\<lambda>i. VInt16 (word_of_int i))
      else if type = ''int32'' then write_port name (GetInt document) (\<lambda>i. VInt32 (word_of_int i))
      else if type = ''int64'' then write_port name (GetInt64 document) (\<lambda>i. VInt64 (word_of_int i))
      else if type = ''uint8'' then write_port name (GetUint document) (\<lambda>i. VUInt8 (word_of_int i))
      else if type = ''uint16'' then write_port name (GetUint document) (\<lambda>i. VUInt16 (word_of_int i))
      else if type = ''uint32'' then write_port name (GetUint document) (\<lambda>i. VUInt32 (word_of_int i))
      else if type = ''uint64'' then write_port name (GetUint64 document) (\<lambda>i. VUInt64 (word_of_int i))
      else if type = ''float32''
        then write_port name (GetDouble conv document) (\<lambda>d. VFloat (narrow d))
      else if type = ''float64'' then write_port name (GetDouble conv document) VDouble
      else if type = ''string'' then write_port name (GetString document) VString
      else Inl (InvalidPortType (invalid_port_type type name tn)))"

text \<open>
  \<open>Interpreter::getRequestFromPorts\<close>: the loop over the port mapping of the node, with
  the goal built so far. \<open>find(...)->second\<close> on a port that the model does not have is
  the error \<open>PortNotFound\<close>.
\<close>

fun request_loop ::
  "AbstractTreeNode \<Rightarrow> TreeNodePorts \<Rightarrow> (string \<times> string) list \<Rightarrow> (string \<times> json) list
     \<Rightarrow> error + (string \<times> json) list" where
  "request_loop node tn [] goal = Inr goal"
| "request_loop node tn (port_it # rest) goal =
     (case map_of (model_ports node) (fst port_it) of
        None \<Rightarrow> Inl PortNotFound
      | Some port_model \<Rightarrow>
          if direction port_model = OUTPUT then request_loop node tn rest goal
          else (case getInputValue tn (fst port_it) (type_name port_model) of
                  Inl e \<Rightarrow> Inl e
                | Inr jval \<Rightarrow> request_loop node tn rest (AddMember (fst port_it) jval goal)))"

definition getRequestFromPorts :: "AbstractTreeNode \<Rightarrow> TreeNodePorts \<Rightarrow> error + json" where
  "getRequestFromPorts node tn =
     (case request_loop node tn (port_mapping node) [] of
        Inl e \<Rightarrow> Inl e
      | Inr goal \<Rightarrow> Inr (JObject goal))"

text \<open>
  The vocabulary of the statement about port types: the primitive types of ROS messages,
  a recognised type (a primitive one, or one with a \<open>/\<close>, read as a ROS message), a port
  whose value the library can give in the C++ type that the port type asks for, and the
  kind of JSON value that belongs to a port type.
\<close>

definition ros_primitive_types :: "string list" where
  "ros_primitive_types =
     [''bool'', ''int8'', ''int16'', ''int32'', ''int64'', ''uint8'', ''uint16'', ''uint32'',
      ''uint64'', ''float32'', ''float64'', ''string'']"

definition recognised_type :: "string \<Rightarrow> bool" where
  "recognised_type type \<longleftrightarrow> CHR ''/'' \<in> set type \<or> type \<in> set ros_primitive_types"

definition input_available :: "TreeNodePorts \<Rightarrow> string \<Rightarrow> string \<Rightarrow> bool" where
  "input_available tn name type =
     (if CHR ''/'' \<in> set type then \<not> isl (getInput_doc tn name)
      else if type = ''bool'' then \<not> isl (getInput_bool tn name)
      else if type \<in> {''int8'', ''int16'', ''int32''} then \<not> isl (getInput_int tn name)
      else if type \<in> {''uint8'', ''uint16'', ''uint32''} then \<not> isl (getInput_uint tn name)
      else if type = ''int64'' then \<not> isl (getInput_int64 tn name)
      else if type = ''uint64'' then \<not> isl (getInput_uint64 tn name)
      else if type \<in> {''float32'', ''float64''} then \<not> isl (getInput_double tn name)
      else if type = ''string'' then \<not> isl (getInput_string tn name)
      else False)"

definition produced_kind :: "string \<Rightarrow> json \<Rightarrow> bool" where
  "produced_kind type j =
     (if CHR ''/'' \<in> set type then True
      else if type = ''bool'' then IsBool j
      else if type \<in> {''int8'', ''int16'', ''int32''} then IsInt j
      else if type \<in> {''uint8'', ''uint16'', ''uint32''} then IsUint j
      else if type = ''int64'' then IsInt64 j
      else if type = ''uint64'' then IsUint64 j
      else if type \<in> {''float32'', ''float64''} then (case j of JDouble _ \<Rightarrow> True | _ \<Rightarrow> False)
      else if type = ''string'' then IsString j
      else False)"

definition consumed_kind :: "string \<Rightarrow> json \<Rightarrow> bool" where
  "consumed_kind type j =
     (if CHR ''/'' \<in> set type then True
      else if type = ''bool'' then IsBool j
      else if type \<in> {''int8'', ''int16'', ''int32''} then IsInt j
      else if type \<in> {''uint8'', ''uint16'', ''uint32''} then IsUint j
      else if type = ''int64'' then IsInt64 j
      else if type = ''uint64'' then IsUint64 j
      else if type \<in> {''float32'', ''float64''} then IsNumber j
      else if type = ''string'' then IsString j
      else False)"

text \<open>
  A result is a thrown \<open>std::runtime_error\<close> whose message contains the name of the port.
  Both \<open>InvalidPortType\<close> and \<open>InputError\<close> are \<open>std::runtime_error\<close>.
\<close>

definition names_port :: "string \<Rightarrow> string \<Rightarrow> bool" where
  "names_port msg name \<longleftrightarrow> (\<exists>pre post. msg = pre @ name @ post)"

definition throws_runtime_error_naming :: "error + 'a \<Rightarrow> string \<Rightarrow> bool" where
  "throws_runtime_error_naming r name =
     (case r of
        Inl (InvalidPortType msg) \<Rightarrow> names_port msg name
      | Inl (InputError msg) \<Rightarrow> names_port msg name
      | _ \<Rightarrow> False)"

text \<open>A tree node whose boolean ports all hold \<open>true\<close> and that has no other port.\<close>

definition bool_ports :: TreeNodePorts where
  "bool_ports =
     \<lparr>registrationName = ''CheckFlag'', node_name = ''check'',
      getInput_doc = (\<lambda>_. Inl ''no document''),
      getInput_bool = (\<lambda>_. Inr True),
      getInput_int = (\<lambda>_. Inl ''no int''),
      getInput_uint = (\<lambda>_. Inl ''no unsigned int''),
      getInput_int64 = (\<lambda>_. Inl ''no int64''),
      getInput_uint64 = (\<lambda>_. Inl ''no uint64''),
      getInput_double = (\<lambda>_. Inl ''no double''),
      getInput_string = (\<lambda>_. Inl ''no string'')\<rparr>"

text \<open>
  A tree node without input ports: every \<open>getInput\<close> fails, with the message of the
  library for a key that is not among the input ports.
\<close>

definition missing_key :: "string \<Rightarrow> string" where
  "missing_key key =
     ''getInput() failed because NodeConfiguration::input_ports does not contain the key: [''
     @ key @ '']''"

definition no_ports :: TreeNodePorts where
  "no_ports =
     \<lparr>registrationName = ''MoveBase'', node_name = ''move'',
      getInput_doc = (\<lambda>key. Inl (missing_key key)),
      getInput_bool = (\<lambda>key. Inl (missing_key key)),
      getInput_int = (\<lambda>key. Inl (missing_key key)),
      getInput_uint = (\<lambda>key. Inl (missing_key key)),
      getInput_int64 = (\<lambda>key. Inl (missing_key key)),
      getInput_uint64 = (\<lambda>key. Inl (missing_key key)),
      getInput_double = (\<lambda>key. Inl (missing_key key)),
      getInput_string = (\<lambda>key. Inl (missing_key key))\<rparr>"

section \<open>Index translation (\<open>sidepanel_interpreter.cpp\<close>)\<close>

text \<open>
  The vector \<open>node_status\<close> of \<open>std::pair<int, NodeStatus>\<close>. Node indices are far from
  the limits of \<open>int\<close>; they are integers here.
\<close>

type_synonym node_status = "(int \<times> NodeStatus) list"

text \<open>
  The lambda \<open>check_range\<close>. It captures \<open>node_status\<close> by value, so it is given the
  vector as it was when \<open>translateNodeIndex\<close> was entered.
\<close>

definition check_range :: "node_status \<Rightarrow> int \<Rightarrow> int \<Rightarrow> bool" where
  "check_range captured mn sz = list_ex (\<lambda>it. mn < fst it \<and> mn + sz \<ge> fst it) captured"

text \<open>The lambda \<open>update_range\<close>, which works on the vector itself.\<close>

definition update_entry :: "bool \<Rightarrow> int \<Rightarrow> int \<Rightarrow> int \<times> NodeStatus \<Rightarrow> int \<times> NodeStatus" where
  "update_entry tree_index mn sz it =
     (let it1 = (if tree_index \<and> mn + sz < fst it then (fst it - sz, snd it) else it)
      in if \<not> tree_index \<and> mn < fst it1 then (fst it1 + sz, snd it1) else it1)"

definition update_range :: "bool \<Rightarrow> int \<Rightarrow> int \<Rightarrow> node_status \<Rightarrow> node_status" where
  "update_range tree_index mn sz ns = map (update_entry tree_index mn sz) ns"

text \<open>
  \<open>std::max_element(...)->first\<close>: pairs are compared lexicographically, so this is the
  largest index of the (non-empty) vector.
\<close>

definition max_element_first :: "node_status \<Rightarrow> int" where
  "max_element_first ns = fold max (map fst (tl ns)) (fst (hd ns))"

text \<open>
  The loop of \<open>translateNodeIndex\<close>. The nodes are those of the member \<open>_abstract_tree\<close>,
  which only \<open>updateTree\<close> assigns: the loop reads the same vector throughout, while the
  \<open>expanded\<close> flag is read from the graphic node and so follows what
  \<open>onRequestSubTreeExpand\<close> did to it. \<open>onRequestSubTreeExpand\<close> toggles the flag; a
  subtree that is folded back has the flag it had, a subtree that is left open has the
  flag set. \<open>at(i)\<close> beyond the end of the vector throws. The result is the exception, if
  one was thrown, with the nodes and the vector as they then are.
\<close>

function translate_loop ::
  "bool \<Rightarrow> node_status \<Rightarrow> nat \<Rightarrow> int \<Rightarrow> int \<Rightarrow> AbstractTreeNode list \<Rightarrow> node_status
     \<Rightarrow> error option \<times> AbstractTreeNode list \<times> node_status" where
  "translate_loop tree_index captured i offset last_change_index nodes ns =
     (if int i < last_change_index then
        (if length nodes \<le> i then (Some OutOfRange, nodes, ns)
         else
           (case subtree (nodes ! i) of
              Some (False, hidden) \<Rightarrow>
                (let subtree_size = int hidden in
                 if \<not> tree_index \<or> \<not> check_range captured (int i) subtree_size
                 then translate_loop tree_index captured (Suc i)
                        (if tree_index then offset else offset + subtree_size)
                        (if tree_index then last_change_index - subtree_size
                         else last_change_index)
                        nodes
                        (update_range tree_index (int i + offset) subtree_size ns)
                 else translate_loop tree_index captured (Suc i) offset last_change_index
                        (nodes[i := (nodes ! i)\<lparr>subtree := Some (True, hidden)\<rparr>]) ns)
            | _ \<Rightarrow> translate_loop tree_index captured (Suc i) offset last_change_index nodes ns))
      else (None, nodes, ns))"
  by pat_completeness auto
termination
  by (relation "measure (\<lambda>(t, c, i, off, l, nodes, ns). nat (l - int i))") auto

declare translate_loop.simps [simp del]

definition translateNodeIndex ::
  "AbstractTreeNode list \<Rightarrow> node_status \<Rightarrow> bool
     \<Rightarrow> error option \<times> AbstractTreeNode list \<times> node_status" where
  "translateNodeIndex nodes node_status tree_index =
     (if node_status = [] then (None, nodes, node_status)
      else translate_loop tree_index node_status 0 0 (max_element_first node_status)
             nodes node_status)"

text \<open>Nodes for examples: a node that is no subtree, and a folded subtree.\<close>

definition plain :: AbstractTreeNode where
  "plain = \<lparr>model_type = ACTION, model_ports = [], port_mapping = [], selected = False,
            subtree = None\<rparr>"

definition folded :: "nat \<Rightarrow> AbstractTreeNode" where
  "folded hidden = \<lparr>model_type = SUBTREE, model_ports = [], port_mapping = [], selected = False,
                     subtree = Some (False, hidden)\<rparr>"

definition unfolded :: "nat \<Rightarrow> AbstractTreeNode" where
  "unfolded hidden = \<lparr>model_type = SUBTREE, model_ports = [], port_mapping = [], selected = False,
                     subtree = Some (True, hidden)\<rparr>"

section \<open>Requests from ports (\<open>sidepanel_interpreter.cpp\<close>)\<close>

text \<open>
  \<open>value.front() == c\<close> and \<open>value.back() == c\<close>. On an empty \<open>std::string\<close>, \<open>front()\<close>
  reads the terminating null character, which is none of the characters compared
  with; \<open>back()\<close> is only evaluated after \<open>front()\<close> matched.
\<close>

definition front_is :: "char \<Rightarrow> string \<Rightarrow> bool" where
  "front_is c v \<longleftrightarrow> v \<noteq> [] \<and> hd v = c"

definition back_is :: "char \<Rightarrow> string \<Rightarrow> bool" where
  "back_is c v \<longleftrightarrow> v \<noteq> [] \<and> last v = c"

text \<open>\<open>getPortValue(port_model, mapping_value)\<close>: the value and whether it is a reference.\<close>

definition getPortValue :: "PortModel \<Rightarrow> string \<Rightarrow> string \<times> bool" where
  "getPortValue port_model mapping_value =
     (let v0 = (if mapping_value \<noteq> [] then mapping_value else default_value port_model);
          (v1, r1) = (if front_is CHR ''$'' v0 then (tl v0, True) else (v0, False))
      in if front_is CHR ''{'' v1 \<and> back_is CHR ''}'' v1 then (butlast (tl v1), True)
         else (v1, r1))"

text \<open>
  \<open>getPortValue(node, port_mapping, port_name)\<close>; \<open>port_mapping[port_name]\<close> is the empty
  string for a name that the mapping does not have.
\<close>

definition getPortValue_of ::
  "AbstractTreeNode \<Rightarrow> (string \<times> string) list \<Rightarrow> string \<Rightarrow> error + string \<times> bool" where
  "getPortValue_of node mapping port_name =
     (case map_of (model_ports node) port_name of
        None \<Rightarrow> Inl PortNotFound
      | Some port_model \<Rightarrow>
          Inr (getPortValue port_model
                 (case map_of mapping port_name of None \<Rightarrow> [] | Some v \<Rightarrow> v)))"

text \<open>
  \<open>boost::lexical_cast\<close> to the C++ types this code asks for: the value, or \<open>None\<close> for
  \<open>bad_lexical_cast\<close>.
\<close>

record LexicalCast =
  cast_bool :: "string \<Rightarrow> bool option"
  cast_int :: "string \<Rightarrow> 32 word option"
  cast_uint32 :: "string \<Rightarrow> 32 word option"
  cast_int64 :: "string \<Rightarrow> 64 word option"
  cast_uint64 :: "string \<Rightarrow> 64 word option"
  cast_double :: "string \<Rightarrow> float64 option"

text \<open>One of the \<open>if (type == ...) jval.Set...(lexical_cast<...>(value))\<close> statements.\<close>

definition set_if ::
  "bool \<Rightarrow> 'a option \<Rightarrow> ('a \<Rightarrow> json) \<Rightarrow> error + json \<Rightarrow> error + json" where
  "set_if cond casted mk acc =
     (case acc of
        Inl e \<Rightarrow> Inl e
      | Inr jval \<Rightarrow>
          if cond then (case casted of None \<Rightarrow> Inl BadLexicalCast | Some v \<Rightarrow> Inr (mk v))
          else Inr jval)"

text \<open>The value of a port that is no reference: the chain of \<open>if\<close> statements on \<open>jval\<close>.\<close>

definition literal_value :: "LexicalCast \<Rightarrow> string \<Rightarrow> string \<Rightarrow> error + json" where
  "literal_value lc type v =
     (set_if (type = ''string'') (Some v) JString
     (set_if (type = ''float32'' \<or> type = ''float64'') (cast_double lc v) JDouble
     (set_if (type = ''uint64'') (cast_uint64 lc v) (\<lambda>w. JNum (uint w))
     (set_if (type = ''int64'') (cast_int64 lc v) (\<lambda>w. JNum (sint w))
     (set_if (type = ''uint8'' \<or> type = ''uint16'' \<or> type = ''uint32'') (cast_uint32 lc v)
        (\<lambda>w. JNum (uint w))
     (set_if (type = ''int8'' \<or> type = ''int16'' \<or> type = ''int32'') (cast_int lc v)
        (\<lambda>w. JNum (sint w))
     (set_if (type = ''bool'') (cast_bool lc v) JBool
     (Inr JNull))))))))"

text \<open>
  The member \<open>_blackboard\<close>, a map from names to documents. \<open>_blackboard[key]\<close> inserts a
  null document for a key that is not there.
\<close>

type_synonym blackboard = "string \<Rightarrow> json option"

definition blackboard_at :: "blackboard \<Rightarrow> string \<Rightarrow> json \<times> blackboard" where
  "blackboard_at bb key =
     (case bb key of None \<Rightarrow> (JNull, bb(key \<mapsto> JNull)) | Some v \<Rightarrow> (v, bb))"

text \<open>
  \<open>SidepanelInterpreter::getRequestFromPorts\<close>: the loop over the port mapping, with the
  goal built so far and the blackboard. The \<open>return goal\<close> inside the loop ends it.
\<close>

fun panel_request_loop ::
  "LexicalCast \<Rightarrow> AbstractTreeNode \<Rightarrow> (string \<times> string) list \<Rightarrow> (string \<times> json) list
     \<Rightarrow> blackboard \<Rightarrow> error + (string \<times> json) list \<times> blackboard" where
  "panel_request_loop lc node [] goal bb = Inr (goal, bb)"
| "panel_request_loop lc node (port_it # rest) goal bb =
     (case map_of (model_ports node) (fst port_it) of
        None \<Rightarrow> Inl PortNotFound
      | Some port_model \<Rightarrow>
          if direction port_model = OUTPUT then panel_request_loop lc node rest goal bb
          else
            (let value_pair = getPortValue port_model (snd port_it) in
             if snd value_pair
             then (let (jval, bb') = blackboard_at bb (fst value_pair)
                   in Inr (AddMember (fst port_it) jval goal, bb'))
             else (case literal_value lc (type_name port_model) (fst value_pair) of
                     Inl e \<Rightarrow> Inl e
                   | Inr jval \<Rightarrow>
                       panel_request_loop lc node rest (AddMember (fst port_it) jval goal) bb)))"

definition panel_getRequestFromPorts ::
  "LexicalCast \<Rightarrow> AbstractTreeNode \<Rightarrow> (string \<times> string) list \<Rightarrow> blackboard
     \<Rightarrow> error + json \<times> blackboard" where
  "panel_getRequestFromPorts lc node mapping bb =
     (case panel_request_loop lc node mapping [] bb of
        Inl e \<Rightarrow> Inl e
      | Inr (goal, bb') \<Rightarrow> Inr (JObject goal, bb'))"

text \<open>
  The vocabulary of the statement about requests: the entries of a port mapping whose
  port is not an \<open>OUTPUT\<close> port, the entries whose value is a reference to the blackboard,
  and the entries up to and including the first one with a certain property.
\<close>

definition is_request_port :: "AbstractTreeNode \<Rightarrow> string \<times> string \<Rightarrow> bool" where
  "is_request_port node p =
     (case map_of (model_ports node) (fst p) of
        None \<Rightarrow> False
      | Some port_model \<Rightarrow> direction port_model \<noteq> OUTPUT)"

text \<open>
  The value of a port in a mapping is the text of its entry or, when that is empty, the
  default value of the port. It is a reference to the blackboard when it begins with \<open>$\<close>,
  or begins with \<open>{\<close> and ends with \<open>}\<close>.
\<close>

definition port_text :: "PortModel \<Rightarrow> string \<Rightarrow> string" where
  "port_text port_model mapping_value =
     (if mapping_value = [] then default_value port_model else mapping_value)"

fun dollar_prefixed :: "string \<Rightarrow> bool" where
  "dollar_prefixed [] = False"
| "dollar_prefixed (c # rest) = (c = CHR ''$'')"

definition brace_wrapped :: "string \<Rightarrow> bool" where
  "brace_wrapped v \<longleftrightarrow> 2 \<le> length v \<and> hd v = CHR ''{'' \<and> last v = CHR ''}''"

definition is_reference :: "AbstractTreeNode \<Rightarrow> string \<times> string \<Rightarrow> bool" where
  "is_reference node p =
     (case map_of (model_ports node) (fst p) of
        None \<Rightarrow> False
      | Some port_model \<Rightarrow>
          dollar_prefixed (port_text port_model (snd p)) \<or>
          brace_wrapped (port_text port_model (snd p)))"

definition request_ports :: "AbstractTreeNode \<Rightarrow> (string \<times> string) list \<Rightarrow> (string \<times> string) list" where
  "request_ports node mapping = filter (is_request_port node) mapping"

definition through_first :: "('a \<Rightarrow> bool) \<Rightarrow> 'a list \<Rightarrow> 'a list" where
  "through_first P xs = takeWhile (\<lambda>x. \<not> P x) xs @ take 1 (dropWhile (\<lambda>x. \<not> P x) xs)"

text \<open>
  Every entry of the mapping names a port of the model, and the value of every port that
  goes into the request can be converted: by \<open>lexical_cast\<close> for the side panel, by
  \<open>getInput\<close> for the execution thread.
\<close>

definition literals_convertible :: "LexicalCast \<Rightarrow> AbstractTreeNode \<Rightarrow> (string \<times> string) list \<Rightarrow> bool" where
  "literals_convertible lc node mapping =
     list_all (\<lambda>p. case map_of (model_ports node) (fst p) of
                     None \<Rightarrow> False
                   | Some port_model \<Rightarrow>
                       direction port_model = OUTPUT \<or>
                       \<not> isl (literal_value lc (type_name port_model)
                                (fst (getPortValue port_model (snd p))))) mapping"

definition inputs_available :: "TreeNodePorts \<Rightarrow> AbstractTreeNode \<Rightarrow> (string \<times> string) list \<Rightarrow> bool" where
  "inputs_available tn node mapping =
     list_all (\<lambda>p. case map_of (model_ports node) (fst p) of
                     None \<Rightarrow> False
                   | Some port_model \<Rightarrow>
                       direction port_model = OUTPUT \<or>
                       input_available tn (fst p) (type_name port_model)) mapping"

text \<open>
  An action node for examples, with two input ports and an output port, and port
  mappings of it: one without a reference in an input port, one with a reference in the
  last input port only, and two with a reference in the first input port. A \<open>lexical_cast\<close> that accepts nothing, and a tree node whose string
  ports hold \<open>kitchen\<close>.
\<close>

definition greet_node :: AbstractTreeNode where
  "greet_node =
     \<lparr>model_type = ACTION,
      model_ports =
        [(''name'', \<lparr>type_name = ''string'', direction = INPUT, default_value = ''world''\<rparr>),
         (''reply'', \<lparr>type_name = ''string'', direction = OUTPUT, default_value = ''''\<rparr>),
         (''target'', \<lparr>type_name = ''string'', direction = INPUT, default_value = ''''\<rparr>)],
      port_mapping = [(''name'', ''''), (''reply'', ''{out}''), (''target'', ''kitchen'')],
      selected = False, subtree = None\<rparr>"

definition literal_mapping :: "(string \<times> string) list" where
  "literal_mapping = [(''name'', ''''), (''reply'', ''{out}''), (''target'', ''kitchen'')]"

definition last_reference_mapping :: "(string \<times> string) list" where
  "last_reference_mapping = [(''name'', ''''), (''reply'', ''{out}''), (''target'', ''{goal}'')]"

definition brace_reference_mapping :: "(string \<times> string) list" where
  "brace_reference_mapping =
     [(''name'', ''{who}''), (''reply'', ''{out}''), (''target'', ''kitchen'')]"

definition reference_mapping :: "(string \<times> string) list" where
  "reference_mapping = [(''name'', ''$who''), (''reply'', ''{out}''), (''target'', ''kitchen'')]"

definition no_cast :: LexicalCast where
  "no_cast = \<lparr>cast_bool = (\<lambda>_. None), cast_int = (\<lambda>_. None), cast_uint32 = (\<lambda>_. None),
              cast_int64 = (\<lambda>_. None), cast_uint64 = (\<lambda>_. None), cast_double = (\<lambda>_. None)\<rparr>"

definition string_ports :: TreeNodePorts where
  "string_ports =
     \<lparr>registrationName = ''Greet'', node_name = ''greet'',
      getInput_doc = (\<lambda>_. Inl ''no document''),
      getInput_bool = (\<lambda>_. Inl ''no bool''),
      getInput_int = (\<lambda>_. Inl ''no int''),
      getInput_uint = (\<lambda>_. Inl ''no unsigned int''),
      getInput_int64 = (\<lambda>_. Inl ''no int64''),
      getInput_uint64 = (\<lambda>_. Inl ''no uint64''),
      getInput_double = (\<lambda>_. Inl ''no double''),
      getInput_string = (\<lambda>_. Inr ''kitchen'')\<rparr>"

section \<open>The side panel and its surroundings\<close>

text \<open>
  A request that this code sends through rosbridge: a service call
  (\<open>RosbridgeServiceClient::call\<close>) or the goal of an action
  (\<open>RosbridgeActionClient::sendGoal\<close>), with the host, the port and the name the client
  was made with.
\<close>

datatype rosbridge_call =
    ServiceCall string int string json
  | ActionGoal string int string string json

text \<open>
  What the side panel and the execution thread do to the world outside them, in order:
  a request through rosbridge, the signals \<open>changeNodeStyle\<close>, \<open>connectionUpdate\<close> and
  \<open>actionReportResult\<close>, a \<open>setOutput\<close> on a port of a tree node, and a critical message box with its title and
  text.
\<close>

datatype effect =
    Rosbridge rosbridge_call
  | ChangeNodeStyle string node_status bool
  | ConnectionUpdate bool
  | ActionReportResult int string
  | SetOutput string port_value
  | MessageBox string string

text \<open>The outcome of \<open>_tree.tickRoot()\<close>.\<close>

datatype tick_outcome =
    Returned NodeStatus
  | ThrewConditionEvaluation
  | Threw error

text \<open>
  The surroundings of the side panel, which are not part of this code: what rosbridge
  answers to a request (the feedback messages of an action, parsed, and the result
  document), \<open>QString::toInt\<close>, \<open>boost::lexical_cast\<close>, the conversions of numbers, the
  library's tick of the execution tree, which gives the outcome and the nodes after it,
  and the text \<open>what()\<close> of an exception.
\<close>

record Env =
  rosbridge :: "rosbridge_call \<Rightarrow> json list \<times> json"
  toInt :: "string \<Rightarrow> int"
  lexical_cast :: LexicalCast
  int_to_double :: "int \<Rightarrow> float64"
  double_to_float :: "float64 \<Rightarrow> float32"
  tree_tickRoot :: "TreeNode list \<Rightarrow> tick_outcome \<times> TreeNode list"
  what :: "error \<Rightarrow> string"

text \<open>The \<open>RosBridgeConnectionThread\<close> behind \<open>_rbc_thread\<close>.\<close>

record ConnectionThread =
  thread_hostname :: string
  thread_port :: string
  thread_running :: bool
  slots_connected :: bool

text \<open>
  The members of \<open>SidepanelInterpreter\<close> and the widgets of its form that this code
  reads or writes, and the effects so far. \<open>tree_nodes\<close> is \<open>_tree.nodes\<close>.
\<close>

record Sidepanel =
  root_status :: NodeStatus
  tree_name :: string
  autorun :: bool
  updated :: bool
  connected :: bool
  rbc_thread :: "ConnectionThread option"
  timer_active :: bool
  timer_interval :: nat
  abstract_tree :: "AbstractTreeNode list"
  tree_nodes :: "TreeNode list"
  blackboard :: blackboard
  lineEdit_text :: string
  lineEdit_placeholder :: string
  lineEdit_port_text :: string
  lineEdit_port_placeholder :: string
  lineEdit_disabled :: bool
  lineEdit_port_disabled :: bool
  buttonExecSelection_enabled :: bool
  buttonExecRunning_enabled :: bool
  buttonDisableAutoExecution_enabled :: bool
  buttonEnableAutoExecution_enabled :: bool
  buttonRunTree_enabled :: bool
  effects :: "effect list"

definition emit :: "effect \<Rightarrow> Sidepanel \<Rightarrow> Sidepanel" where
  "emit e s = s\<lparr>effects := effects s @ [e]\<rparr>"

section \<open>Executing nodes through rosbridge\<close>

text \<open>Sequencing of computations that may fail.\<close>

definition and_then :: "error + 'a \<Rightarrow> ('a \<Rightarrow> error + 'b) \<Rightarrow> error + 'b" where
  "and_then r f = (case r of Inl e \<Rightarrow> Inl e | Inr v \<Rightarrow> f v)"

text \<open>
  The test \<open>result.HasMember("success") && result["success"].IsBool() &&
  result["success"].GetBool()\<close>. \<open>HasMember\<close> asserts that the result is an object.
\<close>

definition reports_success :: "json \<Rightarrow> error + bool" where
  "reports_success result =
     (case result of
        JObject ms \<Rightarrow>
          Inr (HasMember result ''success'' \<and>
               (case member result ''success'' of
                  Inr v \<Rightarrow> IsBool v \<and> GetBool v = Inr True
                | Inl _ \<Rightarrow> False))
      | _ \<Rightarrow> Inl JsonAssert)"

definition result_status :: "json \<Rightarrow> error + NodeStatus" where
  "result_status result =
     and_then (reports_success result) (\<lambda>ok. Inr (if ok then SUCCESS else FAILURE))"

text \<open>
  \<open>getActionType\<close>: the service call to \<open>/rosapi/topic_type\<close> and the type it gives.
  \<open>substr(size() - 4)\<close> throws on a string of fewer than four characters.
\<close>

definition topic_type_call :: "Sidepanel \<Rightarrow> Env \<Rightarrow> string \<Rightarrow> rosbridge_call" where
  "topic_type_call s env server_name =
     ServiceCall (lineEdit_text s) (toInt env (lineEdit_port_text s)) ''/rosapi/topic_type''
       (JObject (AddMember ''topic'' (JString (server_name @ ''/goal'')) []))"

definition strip_goal :: "string \<Rightarrow> error + string" where
  "strip_goal topic_type =
     (if length topic_type < 4 then Inl OutOfRange
      else if drop (length topic_type - 4) topic_type = ''Goal''
        then Inr (take (length topic_type - 4) topic_type)
      else Inr topic_type)"

definition getActionType :: "Env \<Rightarrow> string \<Rightarrow> Sidepanel \<Rightarrow> (error + string) \<times> Sidepanel" where
  "getActionType env server_name s =
     (let call = topic_type_call s env server_name;
          result = snd (rosbridge env call);
          s1 = emit (Rosbridge call) s
      in case result of
           JObject ms \<Rightarrow>
             (case map_of ms ''type'' of
                Some (JString topic_type) \<Rightarrow> (strip_goal topic_type, s1)
              | _ \<Rightarrow> (Inr [], s1))
         | _ \<Rightarrow> (Inl JsonAssert, s1))"

text \<open>
  The feedback callback of \<open>executeActionNode\<close>, on a parsed message: it stores the
  updated field in the blackboard, under the value of the port of that name.
\<close>

definition feedback_to_blackboard ::
  "AbstractTreeNode \<Rightarrow> (string \<times> string) list \<Rightarrow> blackboard \<Rightarrow> json \<Rightarrow> error + blackboard" where
  "feedback_to_blackboard node mapping bb message =
     and_then (member message ''msg'') (\<lambda>msg.
     and_then (member msg ''feedback'') (\<lambda>document.
     and_then (member document ''update_field_name'') (\<lambda>f.
     and_then (GetString f) (\<lambda>field_name.
     and_then (getPortValue_of node mapping field_name) (\<lambda>key.
     and_then (member document field_name) (\<lambda>v.
     Inr (bb(fst key \<mapsto> v))))))))"

fun feedbacks_to_blackboard ::
  "AbstractTreeNode \<Rightarrow> (string \<times> string) list \<Rightarrow> blackboard \<Rightarrow> json list \<Rightarrow> error + blackboard" where
  "feedbacks_to_blackboard node mapping bb [] = Inr bb"
| "feedbacks_to_blackboard node mapping bb (m # ms) =
     and_then (feedback_to_blackboard node mapping bb m)
       (\<lambda>bb'. feedbacks_to_blackboard node mapping bb' ms)"

definition service_call_of :: "Sidepanel \<Rightarrow> Env \<Rightarrow> string \<Rightarrow> json \<Rightarrow> rosbridge_call" where
  "service_call_of s env service request =
     ServiceCall (lineEdit_text s) (toInt env (lineEdit_port_text s)) service request"

definition action_goal_of :: "Sidepanel \<Rightarrow> Env \<Rightarrow> string \<Rightarrow> string \<Rightarrow> json \<Rightarrow> rosbridge_call" where
  "action_goal_of s env server_name topic_type goal =
     ActionGoal (lineEdit_text s) (toInt env (lineEdit_port_text s)) server_name topic_type goal"

text \<open>
  \<open>executeConditionNode\<close> and \<open>executeActionNode\<close>: the status returned or the failure,
  and the side panel afterwards.
\<close>

definition executeConditionNode ::
  "Env \<Rightarrow> AbstractTreeNode \<Rightarrow> Sidepanel \<Rightarrow> (error + NodeStatus) \<times> Sidepanel" where
  "executeConditionNode env node s =
     (case map_of (model_ports node) ''service_name'' of
        None \<Rightarrow> (Inl PortNotFound, s)
      | Some service_port \<Rightarrow>
          (case panel_getRequestFromPorts (lexical_cast env) node (port_mapping node)
                  (blackboard s) of
             Inl e \<Rightarrow> (Inl e, s)
           | Inr (request, bb) \<Rightarrow>
               (let call = service_call_of s env (default_value service_port) request;
                    result = snd (rosbridge env call)
                in (result_status result, emit (Rosbridge call) (s\<lparr>blackboard := bb\<rparr>)))))"

definition executeActionNode ::
  "Env \<Rightarrow> AbstractTreeNode \<Rightarrow> Sidepanel \<Rightarrow> (error + NodeStatus) \<times> Sidepanel" where
  "executeActionNode env node s =
     (case map_of (model_ports node) ''server_name'' of
        None \<Rightarrow> (Inl PortNotFound, s)
      | Some server_name_port \<Rightarrow>
          (let server_name = default_value server_name_port in
           case getActionType env server_name s of
             (Inl e, s1) \<Rightarrow> (Inl e, s1)
           | (Inr topic_type, s1) \<Rightarrow>
               (case panel_getRequestFromPorts (lexical_cast env) node (port_mapping node)
                       (blackboard s1) of
                  Inl e \<Rightarrow> (Inl e, s1)
                | Inr (goal, bb) \<Rightarrow>
                    (let call = action_goal_of s1 env server_name topic_type goal;
                         reply = rosbridge env call;
                         s2 = emit (Rosbridge call) (s1\<lparr>blackboard := bb\<rparr>)
                     in case feedbacks_to_blackboard node (port_mapping node) bb (fst reply) of
                          Inl e \<Rightarrow> (Inl e, s2)
                        | Inr bb' \<Rightarrow> (result_status (snd reply), s2\<lparr>blackboard := bb'\<rparr>)))))"

text \<open>\<open>changeTreeNodeStatus\<close>.\<close>

definition changeTreeNodeStatus :: "TreeNode \<Rightarrow> NodeStatus \<Rightarrow> TreeNode" where
  "changeTreeNodeStatus node st =
     (if node_type node = CONDITION then set_status st node else set_status_node st node)"

text \<open>
  The loop \<open>for (auto it: node_status)\<close> that sets the status of the tree node
  \<open>_tree.nodes.at(it.first - 1)\<close>.
\<close>

fun change_tree_nodes :: "node_status \<Rightarrow> TreeNode list \<Rightarrow> error option \<times> TreeNode list" where
  "change_tree_nodes [] nodes = (None, nodes)"
| "change_tree_nodes (it # rest) nodes =
     (if fst it - 1 < 0 \<or> int (length nodes) \<le> fst it - 1 then (Some OutOfRange, nodes)
      else change_tree_nodes rest
             (nodes[nat (fst it - 1) := changeTreeNodeStatus (nodes ! nat (fst it - 1)) (snd it)]))"

text \<open>
  \<open>executeNode\<close>: the exception, if one leaves it, and the side panel afterwards.
  \<open>_abstract_tree.node(node_id)\<close> is the node at that index.
\<close>

definition apply_status :: "int \<Rightarrow> NodeStatus \<Rightarrow> Sidepanel \<Rightarrow> error option \<times> Sidepanel" where
  "apply_status node_id st s =
     (let node_status = [(node_id, st)];
          s1 = emit (ChangeNodeStyle (tree_name s) node_status True) s
      in case translateNodeIndex (abstract_tree s1) node_status False of
           (Some e, nodes, ns) \<Rightarrow> (Some e, s1\<lparr>abstract_tree := nodes\<rparr>)
         | (None, nodes, ns) \<Rightarrow>
             (case change_tree_nodes ns (tree_nodes s1) of
                (r, tnodes) \<Rightarrow> (r, s1\<lparr>abstract_tree := nodes, tree_nodes := tnodes\<rparr>)))"

definition executeNode :: "Env \<Rightarrow> int \<Rightarrow> Sidepanel \<Rightarrow> error option \<times> Sidepanel" where
  "executeNode env node_id s =
     (if node_id < 0 \<or> int (length (abstract_tree s)) \<le> node_id then (Some OutOfRange, s)
      else
        (let node = abstract_tree s ! nat node_id in
         if model_type node = CONDITION then
           (case executeConditionNode env node s of
              (Inl e, s1) \<Rightarrow> (Some e, s1)
            | (Inr st, s1) \<Rightarrow> apply_status node_id st s1)
         else if model_type node = ACTION then
           (case executeActionNode env node s of
              (Inl e, s1) \<Rightarrow> (Some e, s1)
            | (Inr st, s1) \<Rightarrow> apply_status node_id st s1)
         else (None, s)))"

section \<open>The execution thread (\<open>interpreter_utils.cpp\<close>)\<close>

record ExecuteActionThread =
  action_hostname :: string
  action_port :: int
  action_server_name :: string
  action_type :: string
  thread_node :: AbstractTreeNode
  thread_tree_node :: TreeNodePorts
  thread_tree_node_id :: int

text \<open>
  The feedback callback of \<open>ExecuteActionThread::run\<close>, on a parsed message: the
  \<open>setOutput\<close> it makes.
\<close>

definition feedback_to_port ::
  "Env \<Rightarrow> ExecuteActionThread \<Rightarrow> json \<Rightarrow> error + string \<times> port_value" where
  "feedback_to_port env th message =
     and_then (member message ''msg'') (\<lambda>msg.
     and_then (member msg ''feedback'') (\<lambda>document.
     and_then (member document ''update_field_name'') (\<lambda>f.
     and_then (GetString f) (\<lambda>name.
     (case map_of (model_ports (thread_node th)) name of
        None \<Rightarrow> Inl PortNotFound
      | Some port_model \<Rightarrow>
          and_then (member document name) (\<lambda>v.
          setOutputValue (int_to_double env) (double_to_float env) (thread_tree_node th)
            name (type_name port_model) v))))))"

fun feedbacks_to_ports ::
  "Env \<Rightarrow> ExecuteActionThread \<Rightarrow> json list \<Rightarrow> effect list \<Rightarrow> error option \<times> effect list" where
  "feedbacks_to_ports env th [] done = (None, done)"
| "feedbacks_to_ports env th (m # ms) done =
     (case feedback_to_port env th m of
        Inl e \<Rightarrow> (Some e, done)
      | Inr out \<Rightarrow> feedbacks_to_ports env th ms (done @ [SetOutput (fst out) (snd out)]))"

text \<open>
  \<open>ExecuteActionThread::run\<close>: the exception, if one leaves it, and what the thread did.
\<close>

definition thread_run :: "Env \<Rightarrow> ExecuteActionThread \<Rightarrow> error option \<times> effect list" where
  "thread_run env th =
     (case getRequestFromPorts (thread_node th) (thread_tree_node th) of
        Inl e \<Rightarrow> (Some e, [])
      | Inr goal \<Rightarrow>
          (let call = ActionGoal (action_hostname th) (action_port th) (action_server_name th)
                        (action_type th) goal;
               reply = rosbridge env call
           in case feedbacks_to_ports env th (fst reply) [Rosbridge call] of
                (Some e, done) \<Rightarrow> (Some e, done)
              | (None, done) \<Rightarrow>
                  (case reports_success (snd reply) of
                     Inl e \<Rightarrow> (Some e, done)
                   | Inr ok \<Rightarrow>
                       (None,
                        done @ [ActionReportResult (thread_tree_node_id th)
                                  (if ok then ''SUCCESS'' else ''FAILURE'')]))))"

text \<open>
  The vocabulary of the statement about results: the result document has a member
  \<open>success\<close> that is the boolean \<open>true\<close>.
\<close>

definition success_is_true :: "(string \<times> json) list \<Rightarrow> bool" where
  "success_is_true members \<longleftrightarrow> map_of members ''success'' = Some (JBool True)"

text \<open>
  Rosbridge answers every request with a result that is an object, in which a member
  \<open>type\<close> that is a string has at least four characters, and sends no feedback that the
  callbacks cannot read.
\<close>

definition answers_objects :: "Env \<Rightarrow> bool" where
  "answers_objects env \<longleftrightarrow>
     (\<forall>call. \<exists>ms. snd (rosbridge env call) = JObject ms \<and>
                   (\<forall>t. map_of ms ''type'' = Some (JString t) \<longrightarrow> 4 \<le> length t))"

definition feedback_readable :: "Env \<Rightarrow> AbstractTreeNode \<Rightarrow> bool" where
  "feedback_readable env node \<longleftrightarrow>
     (\<forall>call bb. \<not> isl (feedbacks_to_blackboard node (port_mapping node) bb
                         (fst (rosbridge env call))))"

definition feedback_writable :: "Env \<Rightarrow> ExecuteActionThread \<Rightarrow> bool" where
  "feedback_writable env th \<longleftrightarrow>
     (\<forall>call done. fst (feedbacks_to_ports env th (fst (rosbridge env call)) done) = None)"

section \<open>Ticking the tree\<close>

text \<open>The exceptions that \<open>catch (std::exception&)\<close> catches.\<close>

definition is_std_exception :: "error \<Rightarrow> bool" where
  "is_std_exception e = (case e of JsonAssert \<Rightarrow> False | PortNotFound \<Rightarrow> False | _ \<Rightarrow> True)"

text \<open>
  \<open>expandAndChangeNodeStyle\<close>: the exception, if one leaves it, and the side panel
  afterwards.
\<close>

definition expandAndChangeNodeStyle ::
  "node_status \<Rightarrow> bool \<Rightarrow> Sidepanel \<Rightarrow> error option \<times> Sidepanel" where
  "expandAndChangeNodeStyle node_status reset_before_update s =
     (if node_status = [] then (None, s)
      else
        (case translateNodeIndex (abstract_tree s) node_status True of
           (Some e, nodes, ns) \<Rightarrow> (Some e, s\<lparr>abstract_tree := nodes\<rparr>)
         | (None, nodes, ns) \<Rightarrow>
             (None, emit (ChangeNodeStyle (tree_name s) ns reset_before_update)
                      (s\<lparr>abstract_tree := nodes\<rparr>))))"

text \<open>
  The vector \<open>prev_node_status\<close> of \<open>tickRoot\<close>: the root status at index 0 and the status
  of \<open>_tree.nodes[i - 1]\<close> at index \<open>i\<close>.
\<close>

definition previous_status :: "Sidepanel \<Rightarrow> node_status" where
  "previous_status s =
     (0, root_status s) #
     map (\<lambda>(i, node). (int i, status node)) (enumerate 1 (tree_nodes s))"

text \<open>
  The second loop of \<open>tickRoot\<close>, over the nodes from index \<open>i\<close> on, with the vector
  \<open>node_status\<close> built so far.
\<close>

fun changed_loop ::
  "bool \<Rightarrow> node_status \<Rightarrow> nat \<Rightarrow> TreeNode list \<Rightarrow> node_status \<Rightarrow> error + node_status" where
  "changed_loop conditionRunning prev i [] node_status = Inr node_status"
| "changed_loop conditionRunning prev i (node # rest) node_status =
     (if length prev \<le> i then Inl OutOfRange
      else
        (let new_status = status node;
             prev_status = snd (prev ! i)
         in changed_loop conditionRunning prev (Suc i) rest
              (if new_status \<noteq> prev_status
               then (if new_status = IDLE then node_status @ [(int i, prev_status)]
                     else node_status) @ [(int i, status node)]
               else if new_status = RUNNING \<and> node_type node \<noteq> CONDITION
               then (node_status @ [(int i, status node)]) @
                    (if conditionRunning then [(int i, IDLE)] else [])
               else node_status)))"

definition changed_status ::
  "bool \<Rightarrow> node_status \<Rightarrow> NodeStatus \<Rightarrow> TreeNode list \<Rightarrow> error + node_status" where
  "changed_status conditionRunning prev root nodes =
     changed_loop conditionRunning prev 1 nodes
       (if root \<noteq> snd (prev ! 0) then [(0, root)] else [])"

text \<open>
  The \<open>try\<close> block of \<open>tickRoot\<close> with its \<open>catch\<close>: the library ticks the tree; the result
  is \<open>conditionRunning\<close>, or the exception that is not caught.
\<close>

definition try_tick :: "Env \<Rightarrow> Sidepanel \<Rightarrow> (error + bool) \<times> Sidepanel" where
  "try_tick env s =
     (case tree_tickRoot env (tree_nodes s) of
        (Returned st, nodes) \<Rightarrow> (Inr False, s\<lparr>tree_nodes := nodes, root_status := st\<rparr>)
      | (ThrewConditionEvaluation, nodes) \<Rightarrow> (Inr True, s\<lparr>tree_nodes := nodes\<rparr>)
      | (Threw e, nodes) \<Rightarrow> (Inl e, s\<lparr>tree_nodes := nodes\<rparr>))"

text \<open>
  \<open>tickRoot\<close>: the exception, if one leaves it, and the side panel afterwards.
\<close>

definition stop_unless_running :: "Sidepanel \<Rightarrow> Sidepanel" where
  "stop_unless_running s = (if root_status s \<noteq> RUNNING then s\<lparr>updated := False\<rparr> else s)"

definition tickRoot :: "Env \<Rightarrow> Sidepanel \<Rightarrow> error option \<times> Sidepanel" where
  "tickRoot env s =
     (if length (tree_nodes s) \<le> 1 then (None, s)
      else
        (let prev_node_status = previous_status s
         in case try_tick env s of
              (Inl e, s1) \<Rightarrow> (Some e, s1)
            | (Inr conditionRunning, s1) \<Rightarrow>
                (let s2 = stop_unless_running s1
                 in if length (tree_nodes s2) = 1 \<and> tnode_name (hd (tree_nodes s2)) = ''Root''
                    then (None, s2)
                    else
                      (case changed_status conditionRunning prev_node_status (root_status s2)
                              (tree_nodes s2) of
                         Inl e \<Rightarrow> (Some e, s2)
                       | Inr node_status \<Rightarrow> expandAndChangeNodeStyle node_status False s2))))"

section \<open>The slots of the side panel\<close>

definition toggleButtonAutoExecution :: "Sidepanel \<Rightarrow> Sidepanel" where
  "toggleButtonAutoExecution s =
     s\<lparr>buttonDisableAutoExecution_enabled := autorun s,
       buttonEnableAutoExecution_enabled := \<not> autorun s,
       buttonRunTree_enabled := \<not> autorun s\<rparr>"

definition toggleButtonConnect :: "Sidepanel \<Rightarrow> Sidepanel" where
  "toggleButtonConnect s =
     (emit (ConnectionUpdate (connected s)) s)
       \<lparr>lineEdit_disabled := connected s,
        lineEdit_port_disabled := connected s,
        buttonExecSelection_enabled := connected s,
        buttonExecRunning_enabled := connected s\<rparr>"

text \<open>
  The constructor, for a form whose line edits have the given placeholder texts and no
  text. The timer is made and not started.
\<close>

definition SidepanelInterpreter :: "string \<Rightarrow> string \<Rightarrow> Sidepanel" where
  "SidepanelInterpreter host_placeholder port_placeholder =
     toggleButtonConnect (toggleButtonAutoExecution
       \<lparr>root_status = IDLE, tree_name = ''BehaviorTree'', autorun = True, updated = True,
        connected = False, rbc_thread = None, timer_active = False, timer_interval = 0,
        abstract_tree = [], tree_nodes = [], blackboard = Map.empty,
        lineEdit_text = [], lineEdit_placeholder = host_placeholder,
        lineEdit_port_text = [], lineEdit_port_placeholder = port_placeholder,
        lineEdit_disabled = False, lineEdit_port_disabled = False,
        buttonExecSelection_enabled = True, buttonExecRunning_enabled = True,
        buttonDisableAutoExecution_enabled = True, buttonEnableAutoExecution_enabled = True,
        buttonRunTree_enabled = True, effects = []\<rparr>)"

definition on_Connect :: "Sidepanel \<Rightarrow> Sidepanel" where
  "on_Connect s =
     (if \<not> connected s then
        (if (case rbc_thread s of None \<Rightarrow> False | Some t \<Rightarrow> thread_running t) then s
         else
           (let s1 = (if lineEdit_text s = [] then s\<lparr>lineEdit_text := lineEdit_placeholder s\<rparr>
                      else s);
                s2 = (if lineEdit_port_text s1 = []
                      then s1\<lparr>lineEdit_port_text := lineEdit_port_placeholder s1\<rparr> else s1)
            in s2\<lparr>rbc_thread :=
                    Some \<lparr>thread_hostname = lineEdit_text s2, thread_port = lineEdit_port_text s2,
                          thread_running = True, slots_connected = True\<rparr>\<rparr>))
      else
        toggleButtonConnect
          ((case rbc_thread s of
              None \<Rightarrow> s
            | Some t \<Rightarrow> s\<lparr>rbc_thread := Some (t\<lparr>slots_connected := False,
                                                 thread_running := False\<rparr>)\<rparr>)
           \<lparr>connected := False\<rparr>))"

definition on_connectionCreated :: "Sidepanel \<Rightarrow> Sidepanel" where
  "on_connectionCreated s = toggleButtonConnect (s\<lparr>connected := True\<rparr>)"

definition on_connectionError :: "string \<Rightarrow> Sidepanel \<Rightarrow> Sidepanel" where
  "on_connectionError message s =
     emit (MessageBox ''Connection Error'' message)
       (toggleButtonConnect (s\<lparr>connected := False\<rparr>))"

definition on_buttonEnableAutoExecution_clicked :: "Sidepanel \<Rightarrow> Sidepanel" where
  "on_buttonEnableAutoExecution_clicked s =
     (toggleButtonAutoExecution (s\<lparr>autorun := True, updated := True\<rparr>))
       \<lparr>timer_active := True, timer_interval := 20\<rparr>"

definition on_buttonDisableAutoExecution_clicked :: "Sidepanel \<Rightarrow> Sidepanel" where
  "on_buttonDisableAutoExecution_clicked s =
     (toggleButtonAutoExecution (s\<lparr>autorun := False\<rparr>))\<lparr>timer_active := False\<rparr>"

text \<open>
  \<open>runStep\<close>, the slot of the timer. An exception that is no \<open>std::exception\<close> leaves it.
\<close>

definition runStep :: "Env \<Rightarrow> Sidepanel \<Rightarrow> error option \<times> Sidepanel" where
  "runStep env s =
     (if updated s \<and> autorun s then
        (case tickRoot env s of
           (None, s1) \<Rightarrow> (None, s1\<lparr>updated := False\<rparr>)
         | (Some e, s1) \<Rightarrow>
             if is_std_exception e then (None, on_buttonDisableAutoExecution_clicked s1)
             else (Some e, s1))
      else (None, s))"

definition on_buttonRunTree_clicked :: "Env \<Rightarrow> Sidepanel \<Rightarrow> error option \<times> Sidepanel" where
  "on_buttonRunTree_clicked env s =
     (case tickRoot env s of
        (None, s1) \<Rightarrow> (None, s1)
      | (Some e, s1) \<Rightarrow>
          if is_std_exception e
          then (None, emit (MessageBox ''Error Running Tree'' (what env e)) s1)
          else (Some e, s1))"

text \<open>
  \<open>changeSelectedStyle\<close> and \<open>changeRunningStyle\<close>, behind the buttons that set a status.
\<close>

definition selected_indices :: "AbstractTreeNode list \<Rightarrow> int list" where
  "selected_indices nodes =
     map (\<lambda>(i, node). int i) (filter (\<lambda>(i, node). selected node) (enumerate 0 nodes))"

definition selected_status :: "NodeStatus \<Rightarrow> AbstractTreeNode list \<Rightarrow> node_status" where
  "selected_status st nodes = map (\<lambda>i. (i, st)) (selected_indices nodes)"

definition changeSelectedStyle :: "NodeStatus \<Rightarrow> Sidepanel \<Rightarrow> error option \<times> Sidepanel" where
  "changeSelectedStyle st s =
     (if length (tree_nodes s) \<le> 1 then (None, s)
      else
        (let node_status = selected_status st (abstract_tree s);
             s1 = emit (ChangeNodeStyle (tree_name s) node_status True) s
         in case translateNodeIndex (abstract_tree s1) node_status False of
              (Some e, nodes, ns) \<Rightarrow> (Some e, s1\<lparr>abstract_tree := nodes\<rparr>)
            | (None, nodes, ns) \<Rightarrow>
                (case change_tree_nodes ns (tree_nodes s1) of
                   (Some e, tnodes) \<Rightarrow>
                     (Some e, s1\<lparr>abstract_tree := nodes, tree_nodes := tnodes\<rparr>)
                 | (None, tnodes) \<Rightarrow>
                     (None, s1\<lparr>abstract_tree := nodes, tree_nodes := tnodes,
                               updated := True\<rparr>))))"

text \<open>
  The loop of \<open>changeRunningStyle\<close> over \<open>_tree.nodes\<close>, from index \<open>i\<close> on: the nodes after
  it and the vector \<open>node_status\<close>.
\<close>

fun change_running ::
  "NodeStatus \<Rightarrow> nat \<Rightarrow> TreeNode list \<Rightarrow> TreeNode list \<times> node_status" where
  "change_running st i [] = ([], [])"
| "change_running st i (tree_node # rest) =
     (let (nodes, ns) = change_running st (Suc i) rest
      in if status tree_node = RUNNING
         then (changeTreeNodeStatus tree_node st # nodes, (int i, st) # ns)
         else (tree_node # nodes, ns))"

definition changeRunningStyle :: "NodeStatus \<Rightarrow> Sidepanel \<Rightarrow> error option \<times> Sidepanel" where
  "changeRunningStyle st s =
     (if length (tree_nodes s) \<le> 1 then (None, s)
      else
        (let (tnodes, node_status) = change_running st 1 (tree_nodes s)
         in case expandAndChangeNodeStyle node_status True (s\<lparr>tree_nodes := tnodes\<rparr>) of
              (Some e, s1) \<Rightarrow> (Some e, s1)
            | (None, s1) \<Rightarrow> (None, s1\<lparr>updated := True\<rparr>)))"

text \<open>
  The loops of \<open>on_buttonExecSelection_clicked\<close> and \<open>on_buttonExecRunning_clicked\<close>, which
  call \<open>executeNode\<close> for one index after the other.
\<close>

fun execute_nodes :: "Env \<Rightarrow> int list \<Rightarrow> Sidepanel \<Rightarrow> error option \<times> Sidepanel" where
  "execute_nodes env [] s = (None, s)"
| "execute_nodes env (i # rest) s =
     (case executeNode env i s of
        (Some e, s1) \<Rightarrow> (Some e, s1)
      | (None, s1) \<Rightarrow> execute_nodes env rest s1)"

definition on_buttonExecSelection_clicked :: "Env \<Rightarrow> Sidepanel \<Rightarrow> error option \<times> Sidepanel" where
  "on_buttonExecSelection_clicked env s =
     (if length (tree_nodes s) \<le> 1 then (None, s)
      else
        (case execute_nodes env (selected_indices (abstract_tree s)) s of
           (Some e, s1) \<Rightarrow> (Some e, s1)
         | (None, s1) \<Rightarrow> (None, s1\<lparr>updated := True\<rparr>)))"

definition running_status :: "TreeNode list \<Rightarrow> node_status" where
  "running_status nodes =
     map (\<lambda>(i, node). (int i, RUNNING))
       (filter (\<lambda>(i, node). status node = RUNNING) (enumerate 1 nodes))"

definition on_buttonExecRunning_clicked :: "Env \<Rightarrow> Sidepanel \<Rightarrow> error option \<times> Sidepanel" where
  "on_buttonExecRunning_clicked env s =
     (if length (tree_nodes s) \<le> 1 then (None, s)
      else
        (case translateNodeIndex (abstract_tree s) (running_status (tree_nodes s)) True of
           (Some e, nodes, ns) \<Rightarrow> (Some e, s\<lparr>abstract_tree := nodes\<rparr>)
         | (None, nodes, ns) \<Rightarrow>
             (case execute_nodes env (map fst ns) (s\<lparr>abstract_tree := nodes\<rparr>) of
                (Some e, s1) \<Rightarrow> (Some e, s1)
              | (None, s1) \<Rightarrow> (None, s1\<lparr>updated := True\<rparr>))))"

text \<open>
  \<open>setTree\<close> and \<open>on_buttonResetTree_clicked\<close>. The abstract tree that \<open>updateTree\<close> builds
  from the scene and the execution tree that the factory creates are given; an abstract
  tree without nodes has no root node.
\<close>

definition setTree :: "AbstractTreeNode list \<Rightarrow> TreeNode list \<Rightarrow> Sidepanel \<Rightarrow> Sidepanel" where
  "setTree scene_tree created s =
     (let s1 = s\<lparr>abstract_tree := scene_tree\<rparr>
      in if scene_tree = [] then s1
         else
           (let s2 = s1\<lparr>tree_nodes := created, updated := True\<rparr>
            in if autorun s2 then s2\<lparr>timer_active := True, timer_interval := 20\<rparr> else s2))"

definition on_buttonResetTree_clicked ::
  "AbstractTreeNode list \<Rightarrow> TreeNode list \<Rightarrow> Sidepanel \<Rightarrow> Sidepanel" where
  "on_buttonResetTree_clicked scene_tree created s = (setTree scene_tree created s)\<lparr>updated := True\<rparr>"

text \<open>
  What can happen to the side panel: a click on one of its buttons, a signal of the
  connection thread, or a timeout of the timer, which only an active timer sends.
\<close>

datatype event =
    Connect
  | ConnectionCreated
  | ConnectionError string
  | Timeout
  | ResetTree "AbstractTreeNode list" "TreeNode list"
  | SetSuccess
  | SetFailure
  | SetIdle
  | SetRunningSuccess
  | SetRunningFailure
  | EnableAutoExecution
  | DisableAutoExecution
  | RunTree
  | ExecSelection
  | ExecRunning

definition handle :: "Env \<Rightarrow> event \<Rightarrow> Sidepanel \<Rightarrow> error option \<times> Sidepanel" where
  "handle env ev s =
     (case ev of
        Connect \<Rightarrow> (None, on_Connect s)
      | ConnectionCreated \<Rightarrow> (None, on_connectionCreated s)
      | ConnectionError message \<Rightarrow> (None, on_connectionError message s)
      | Timeout \<Rightarrow> (if timer_active s then runStep env s else (None, s))
      | ResetTree scene_tree created \<Rightarrow> (None, on_buttonResetTree_clicked scene_tree created s)
      | SetSuccess \<Rightarrow> changeSelectedStyle SUCCESS s
      | SetFailure \<Rightarrow> changeSelectedStyle FAILURE s
      | SetIdle \<Rightarrow> changeSelectedStyle IDLE s
      | SetRunningSuccess \<Rightarrow> changeRunningStyle SUCCESS s
      | SetRunningFailure \<Rightarrow> changeRunningStyle FAILURE s
      | EnableAutoExecution \<Rightarrow> (None, on_buttonEnableAutoExecution_clicked s)
      | DisableAutoExecution \<Rightarrow> (None, on_buttonDisableAutoExecution_clicked s)
      | RunTree \<Rightarrow> on_buttonRunTree_clicked env s
      | ExecSelection \<Rightarrow> on_buttonExecSelection_clicked env s
      | ExecRunning \<Rightarrow> on_buttonExecRunning_clicked env s)"

text \<open>
  A run of events; an exception that leaves a slot ends it.
\<close>

fun run :: "Env \<Rightarrow> event list \<Rightarrow> Sidepanel \<Rightarrow> error option \<times> Sidepanel" where
  "run env [] s = (None, s)"
| "run env (ev # evs) s =
     (case handle env ev s of
        (Some e, s1) \<Rightarrow> (Some e, s1)
      | (None, s1) \<Rightarrow> run env evs s1)"

text \<open>
  Examples: surroundings in which rosbridge answers every request with \<open>success: true\<close>
  and sends no feedback, a condition node and an action node with the ports that name
  their service and their server, a side panel that holds them, and an execution thread
  for the action node.
\<close>

definition succeeding :: Env where
  "succeeding =
     \<lparr>rosbridge = (\<lambda>_. ([], JObject [(''success'', JBool True)])),
      toInt = (\<lambda>_. 9090), lexical_cast = no_cast, int_to_double = (\<lambda>_. 0),
      double_to_float = (\<lambda>_. 0), tree_tickRoot = (\<lambda>nodes. (Returned RUNNING, nodes)),
      what = (\<lambda>_. ''error'')\<rparr>"

definition check_node :: AbstractTreeNode where
  "check_node =
     \<lparr>model_type = CONDITION,
      model_ports =
        [(''service_name'',
          \<lparr>type_name = ''string'', direction = INPUT, default_value = ''/check''\<rparr>)],
      port_mapping = [], selected = False, subtree = None\<rparr>"

definition move_node :: AbstractTreeNode where
  "move_node =
     \<lparr>model_type = ACTION,
      model_ports =
        [(''server_name'',
          \<lparr>type_name = ''string'', direction = INPUT, default_value = ''/move''\<rparr>)],
      port_mapping = [], selected = False, subtree = None\<rparr>"

definition sequence_node :: AbstractTreeNode where
  "sequence_node =
     \<lparr>model_type = CONTROL, model_ports = [], port_mapping = [], selected = False,
      subtree = None\<rparr>"

definition tree_node_of :: "NodeType \<Rightarrow> NodeStatus \<Rightarrow> TreeNode" where
  "tree_node_of t st = \<lparr>node_type = t, tnode_name = ''node'', status = st, return_status = IDLE\<rparr>"

definition small_panel :: Sidepanel where
  "small_panel =
     (SidepanelInterpreter ''localhost'' ''9090'')
       \<lparr>abstract_tree := [plain, sequence_node, check_node, move_node],
        tree_nodes := [tree_node_of CONTROL IDLE, tree_node_of CONDITION IDLE,
                       tree_node_of ACTION IDLE]\<rparr>"

definition move_thread :: ExecuteActionThread where
  "move_thread =
     \<lparr>action_hostname = ''localhost'', action_port = 9090, action_server_name = ''/move'',
      action_type = ''Move'', thread_node = move_node, thread_tree_node = string_ports,
      thread_tree_node_id = 3\<rparr>"


text \<open>
  The vocabulary of the statements about the slots: two side panels agree on the
  connection, on auto-execution, on the timer and on what is enabled; and the widgets of
  the connection follow the connection flag.
\<close>

definition same_controls :: "Sidepanel \<Rightarrow> Sidepanel \<Rightarrow> bool" where
  "same_controls s s' \<longleftrightarrow>
     connected s' = connected s \<and> rbc_thread s' = rbc_thread s \<and>
     autorun s' = autorun s \<and>
     timer_active s' = timer_active s \<and> timer_interval s' = timer_interval s \<and>
     lineEdit_disabled s' = lineEdit_disabled s \<and>
     lineEdit_port_disabled s' = lineEdit_port_disabled s \<and>
     buttonExecSelection_enabled s' = buttonExecSelection_enabled s \<and>
     buttonExecRunning_enabled s' = buttonExecRunning_enabled s \<and>
     buttonDisableAutoExecution_enabled s' = buttonDisableAutoExecution_enabled s \<and>
     buttonEnableAutoExecution_enabled s' = buttonEnableAutoExecution_enabled s \<and>
     buttonRunTree_enabled s' = buttonRunTree_enabled s"

definition connect_widgets_follow :: "Sidepanel \<Rightarrow> bool" where
  "connect_widgets_follow s \<longleftrightarrow>
     buttonExecSelection_enabled s = connected s \<and>
     buttonExecRunning_enabled s = connected s \<and>
     lineEdit_disabled s = connected s \<and>
     lineEdit_port_disabled s = connected s"

definition same_connection :: "Sidepanel \<Rightarrow> Sidepanel \<Rightarrow> bool" where
  "same_connection s s' \<longleftrightarrow>
     connected s' = connected s \<and>
     lineEdit_disabled s' = lineEdit_disabled s \<and>
     lineEdit_port_disabled s' = lineEdit_port_disabled s \<and>
     buttonExecSelection_enabled s' = buttonExecSelection_enabled s \<and>
     buttonExecRunning_enabled s' = buttonExecRunning_enabled s"

definition same_timer :: "Sidepanel \<Rightarrow> Sidepanel \<Rightarrow> bool" where
  "same_timer s s' \<longleftrightarrow>
     autorun s' = autorun s \<and> timer_active s' = timer_active s \<and>
     timer_interval s' = timer_interval s"



text \<open>
  The vocabulary of the statement about \<open>tickRoot\<close>: the entries that the vector built by
  \<open>tickRoot\<close> has for the node of index \<open>i\<close>, given the status of the node before the tick
  and whether the evaluation of a condition is pending; and an abstract tree without a
  folded subtree, for which the indices of the editor are those of the execution tree.
\<close>

definition node_entries :: "bool \<Rightarrow> int \<Rightarrow> NodeStatus \<Rightarrow> TreeNode \<Rightarrow> node_status" where
  "node_entries pending i before node =
     (if status node \<noteq> before
      then (if status node = IDLE then [(i, before), (i, IDLE)] else [(i, status node)])
      else if status node = RUNNING \<and> node_type node \<noteq> CONDITION
      then (if pending then [(i, RUNNING), (i, IDLE)] else [(i, RUNNING)])
      else [])"

definition nothing_folded :: "AbstractTreeNode list \<Rightarrow> bool" where
  "nothing_folded nodes =
     list_all (\<lambda>node. case subtree node of Some (False, hidden) \<Rightarrow> False | _ \<Rightarrow> True) nodes"

text \<open>
  Examples: surroundings in which the tick sets the third node of the tree to \<open>RUNNING\<close>
  and returns \<open>RUNNING\<close>, and a side panel whose second node is a folded subtree with
  one hidden node, so that the third node of the execution tree is the node of index 2
  in the editor.
\<close>

definition running_tick :: Env where
  "running_tick =
     succeeding\<lparr>tree_tickRoot :=
       (\<lambda>nodes. (Returned RUNNING, nodes[2 := setStatus RUNNING (nodes ! 2)]))\<rparr>"

definition folded_panel :: Sidepanel where
  "folded_panel = small_panel\<lparr>abstract_tree := [plain, folded 1, plain]\<rparr>"

text \<open>
  The vocabulary of the statements about \<open>translateNodeIndex\<close>. The number of nodes that a
  folded subtree hides; the index in the execution tree of the node that the editor
  shows at an index: the index, increased by the size of every folded subtree whose root
  comes strictly before it; and the index in the editor of a node of the execution
  tree: the index, decreased by the size of every folded subtree that it lies strictly
  after. The lists are walked from the position of their first node.
\<close>

definition hidden_of :: "AbstractTreeNode \<Rightarrow> int" where
  "hidden_of node = (case subtree node of Some (False, hidden) \<Rightarrow> int hidden | _ \<Rightarrow> 0)"

fun hidden_before_root :: "AbstractTreeNode list \<Rightarrow> int \<Rightarrow> int \<Rightarrow> int" where
  "hidden_before_root [] position g = 0"
| "hidden_before_root (node # nodes) position g =
     (if position < g then hidden_of node else 0) + hidden_before_root nodes (position + 1) g"

definition to_tree_index :: "AbstractTreeNode list \<Rightarrow> int \<Rightarrow> int" where
  "to_tree_index nodes g = g + hidden_before_root nodes 0 g"

fun hidden_before_index :: "AbstractTreeNode list \<Rightarrow> int \<Rightarrow> int \<Rightarrow> int" where
  "hidden_before_index [] position t = 0"
| "hidden_before_index (node # nodes) position t =
     (if position + hidden_of node < t then hidden_of node else 0) +
     hidden_before_index nodes (position + 1 + hidden_of node) t"

definition to_gui_index :: "AbstractTreeNode list \<Rightarrow> int \<Rightarrow> int" where
  "to_gui_index nodes t = t - hidden_before_index nodes 0 t"

text \<open>
  An index of the execution tree falls inside the hidden range of a folded subtree: it
  lies after the root of the subtree and not after its last hidden node.
\<close>

fun in_hidden_range :: "AbstractTreeNode list \<Rightarrow> int \<Rightarrow> int \<Rightarrow> bool" where
  "in_hidden_range [] position t = False"
| "in_hidden_range (node # nodes) position t =
     ((position < t \<and> t \<le> position + hidden_of node) \<or>
      in_hidden_range nodes (position + 1 + hidden_of node) t)"

text \<open>The number of nodes of the execution tree that the nodes of the editor stand for.\<close>

definition tree_size :: "AbstractTreeNode list \<Rightarrow> int" where
  "tree_size nodes = int (length nodes) + sum_list (map hidden_of nodes)"

text \<open>
  An index of the execution tree that belongs to a node that the editor shows.
\<close>

definition shown :: "AbstractTreeNode list \<Rightarrow> int \<Rightarrow> bool" where
  "shown nodes t \<longleftrightarrow> 0 \<le> t \<and> t < tree_size nodes \<and> \<not> in_hidden_range nodes 0 t"

text \<open>
  The test of \<open>check_range\<close> finds no index of the vector for any node that comes before
  the node of the largest index: no index lies after the position of the node in the
  editor and not after that position plus the number of nodes that the node hides.
\<close>

definition no_range_hit :: "AbstractTreeNode list \<Rightarrow> node_status \<Rightarrow> bool" where
  "no_range_hit nodes ns =
     list_all (\<lambda>i. \<not> check_range ns (int i) (hidden_of (nodes ! i)))
       [0..<nat (to_gui_index nodes (max_element_first ns))]"

text \<open>
  Trees for examples: one with a folded subtree of two nodes, one with two folded
  subtrees, and one with three folded subtrees of one node each.
\<close>

definition one_subtree :: "AbstractTreeNode list" where
  "one_subtree = [plain, folded 2, plain, plain, plain]"

definition two_subtrees :: "AbstractTreeNode list" where
  "two_subtrees = [plain, folded 2, plain, folded 1, plain]"


section \<open>Properties of the condition node\<close>

text \<open>
  C8. \<open>InterpreterConditionNode::executeTick\<close> throws \<open>ConditionEvaluation\<close> exactly
  when the stored return status is \<open>IDLE\<close>; the node's status is then \<open>RUNNING\<close> and
  the stored status stays \<open>IDLE\<close>. Otherwise it returns the stored status, sets the node's
  status to it and resets the stored status to \<open>IDLE\<close>. Hence two consecutive calls,
  with no \<open>set_status\<close> between them, never both return a status other than \<open>IDLE\<close>.
\<close>

theorem executeTick_contract:
  "(fst (executeTick n) = Inl ConditionEvaluation \<longleftrightarrow> return_status n = IDLE) \<and>
   (return_status n = IDLE \<longrightarrow>
      status (snd (executeTick n)) = RUNNING \<and> return_status (snd (executeTick n)) = IDLE) \<and>
   (return_status n \<noteq> IDLE \<longrightarrow>
      fst (executeTick n) = Inr (return_status n) \<and>
      status (snd (executeTick n)) = return_status n \<and>
      return_status (snd (executeTick n)) = IDLE) \<and>
   \<not> (\<exists>s1 s2. s1 \<noteq> IDLE \<and> s2 \<noteq> IDLE \<and>
          fst (executeTick n) = Inr s1 \<and>
          fst (executeTick (snd (executeTick n))) = Inr s2)"
  by (auto simp: executeTick_def tick_def setStatus_def Let_def)

theorem executeTick_contract_witness:
  "return_status (condition_node SUCCESS RUNNING) \<noteq> IDLE \<and>
   fst (executeTick (condition_node SUCCESS RUNNING)) = Inr SUCCESS \<and>
   status (snd (executeTick (condition_node SUCCESS RUNNING))) = SUCCESS \<and>
   return_status (snd (executeTick (condition_node SUCCESS RUNNING))) = IDLE \<and>
   return_status (condition_node IDLE SUCCESS) = IDLE \<and>
   fst (executeTick (condition_node IDLE SUCCESS)) = Inl ConditionEvaluation \<and>
   status (snd (executeTick (condition_node IDLE SUCCESS))) = RUNNING"
  using executeTick_contract [of "condition_node SUCCESS RUNNING"]
        executeTick_contract [of "condition_node IDLE SUCCESS"]
  by (simp add: condition_node_def)

section \<open>Properties of the port variables\<close>

lemma IsInt_sint: "IsInt (JNum (sint (w :: 32 word)))"
  using sint_ge [of w] sint_lt [of w] by (simp add: IsInt_def)

lemma IsUint_uint: "IsUint (JNum (uint (w :: 32 word)))"
  using uint_lt2p [of w] by (simp add: IsUint_def)

lemma IsInt64_sint: "IsInt64 (JNum (sint (w :: 64 word)))"
  using sint_ge [of w] sint_lt [of w] by (simp add: IsInt64_def)

lemma IsUint64_uint: "IsUint64 (JNum (uint (w :: 64 word)))"
  using uint_lt2p [of w] by (simp add: IsUint64_def)

lemmas json_getters =
  GetBool_def GetInt_def GetUint_def GetInt64_def GetUint64_def GetDouble_def GetString_def

lemma primitive_type_cases:
  assumes "type \<in> set ros_primitive_types"
  obtains "type = ''bool''" | "type = ''int8''" | "type = ''int16''" | "type = ''int32''"
    | "type = ''int64''" | "type = ''uint8''" | "type = ''uint16''" | "type = ''uint32''"
    | "type = ''uint64''" | "type = ''float32''" | "type = ''float64''" | "type = ''string''"
  using assms unfolding ros_primitive_types_def
  apply (simp only: list.set insert_iff empty_iff)
  apply (elim disjE)
  apply (assumption | erule FalseE)+
  done

lemma primitive_no_slash: "type \<in> set ros_primitive_types \<Longrightarrow> CHR ''/'' \<notin> set type"
  by (erule primitive_type_cases) simp_all


lemma getters_succeed:
  "IsBool j \<Longrightarrow> \<exists>v. GetBool j = Inr v"
  "IsInt j \<Longrightarrow> \<exists>v. GetInt j = Inr v"
  "IsUint j \<Longrightarrow> \<exists>v. GetUint j = Inr v"
  "IsInt64 j \<Longrightarrow> \<exists>v. GetInt64 j = Inr v"
  "IsUint64 j \<Longrightarrow> \<exists>v. GetUint64 j = Inr v"
  "IsString j \<Longrightarrow> \<exists>v. GetString j = Inr v"
  by (cases j; simp add: json_getters IsBool_def IsInt_def IsUint_def IsInt64_def IsUint64_def
        IsNumber_def IsString_def)+

lemma GetDouble_succeeds: "IsNumber j \<Longrightarrow> \<exists>v. GetDouble conv j = Inr v"
  by (cases j; simp add: GetDouble_def IsNumber_def)

lemma setOutputValue_consumes:
  assumes "recognised_type type" and k: "consumed_kind type doc"
  shows "\<exists>v. setOutputValue conv narrow tn name type doc = Inr (name, v)"
proof (cases "CHR ''/'' \<in> set type")
  case True
  then show ?thesis by (simp add: setOutputValue_def)
next
  case False
  with assms(1) have "type \<in> set ros_primitive_types" by (simp add: recognised_type_def)
  then show ?thesis
    by (rule primitive_type_cases)
       (use k in \<open>auto simp: setOutputValue_def consumed_kind_def write_port_def
          dest!: getters_succeed GetDouble_succeeds [where conv = conv]\<close>)
qed

lemma getInputValue_available:
  assumes a: "input_available tn name type"
  shows "\<exists>j. getInputValue tn name type = Inr j \<and> produced_kind type j"
proof (cases "CHR ''/'' \<in> set type")
  case True
  then show ?thesis using a
    by (simp add: getInputValue_def input_available_def produced_kind_def read_port_def isl_def
          split: sum.splits)
next
  case False
  have "type \<in> set ros_primitive_types"
  proof (rule ccontr)
    assume "type \<notin> set ros_primitive_types"
    then have "\<not> input_available tn name type" using False
      by (simp add: input_available_def ros_primitive_types_def)
    with a show False by simp
  qed
  then show ?thesis
    by (rule primitive_type_cases)
       (use a in \<open>auto simp: getInputValue_def input_available_def produced_kind_def read_port_def
          isl_def IsInt_sint IsUint_uint IsInt64_sint IsUint64_uint IsBool_def IsString_def
          split: sum.splits\<close>)
qed

lemma getInputValue_invalid_iff:
  "(\<exists>msg. getInputValue tn name type = Inl (InvalidPortType msg)) \<longleftrightarrow> \<not> recognised_type type"
proof (cases "recognised_type type")
  case False
  then show ?thesis
    by (simp add: getInputValue_def recognised_type_def ros_primitive_types_def)
next
  case True
  have "getInputValue tn name type \<noteq> Inl (InvalidPortType msg)" for msg
  proof (cases "CHR ''/'' \<in> set type")
    case True
    then show ?thesis by (simp add: getInputValue_def read_port_def split: sum.splits)
  next
    case False
    with \<open>recognised_type type\<close> have "type \<in> set ros_primitive_types"
      by (simp add: recognised_type_def)
    then show ?thesis
      by (rule primitive_type_cases)
         (simp_all add: getInputValue_def read_port_def split: sum.splits)
  qed
  with True show ?thesis by simp
qed

lemma getInputValue_invalid_msg:
  "getInputValue tn name type = Inl (InvalidPortType msg) \<Longrightarrow> msg = invalid_port_type type name tn"
  by (simp add: getInputValue_def read_port_def split: sum.splits if_splits)

lemma setOutputValue_invalid_iff:
  "(\<exists>msg. setOutputValue conv narrow tn name type doc = Inl (InvalidPortType msg))
     \<longleftrightarrow> \<not> recognised_type type"
proof (cases "recognised_type type")
  case False
  then show ?thesis
    by (simp add: setOutputValue_def recognised_type_def ros_primitive_types_def)
next
  case True
  have "setOutputValue conv narrow tn name type doc \<noteq> Inl (InvalidPortType msg)" for msg
  proof (cases "CHR ''/'' \<in> set type")
    case True
    then show ?thesis by (simp add: setOutputValue_def)
  next
    case False
    with \<open>recognised_type type\<close> have "type \<in> set ros_primitive_types"
      by (simp add: recognised_type_def)
    then show ?thesis
      by (rule primitive_type_cases)
         (simp_all add: setOutputValue_def write_port_def json_getters
            split: sum.splits json.splits)
  qed
  with True show ?thesis by simp
qed

lemma setOutputValue_invalid_msg:
  "setOutputValue conv narrow tn name type doc = Inl (InvalidPortType msg)
     \<Longrightarrow> msg = invalid_port_type type name tn"
  by (simp add: setOutputValue_def write_port_def json_getters
           split: sum.splits if_splits json.splits)


lemma invalid_port_type_names_port:
  "\<exists>pre post. invalid_port_type type name tn = pre @ name @ post"
  unfolding invalid_port_type_def by (metis append.assoc)

lemma getInputValue_unavailable:
  assumes r: "recognised_type type" and a: "\<not> input_available tn name type"
  shows "\<exists>e. getInputValue tn name type = Inl (InputError e)"
proof (cases "CHR ''/'' \<in> set type")
  case True
  then show ?thesis using a
    by (auto simp: getInputValue_def input_available_def read_port_def isl_def
          split: sum.splits)
next
  case False
  with r have "type \<in> set ros_primitive_types" by (simp add: recognised_type_def)
  then show ?thesis
    by (rule primitive_type_cases)
       (use a in \<open>auto simp: getInputValue_def input_available_def read_port_def isl_def
          split: sum.splits\<close>)
qed

lemma setOutputValue_no_input_error:
  "setOutputValue conv narrow tn name type doc \<noteq> Inl (InputError e)"
proof (cases "recognised_type type")
  case False
  then show ?thesis
    by (simp add: setOutputValue_def recognised_type_def ros_primitive_types_def)
next
  case True
  show ?thesis
  proof (cases "CHR ''/'' \<in> set type")
    case True
    then show ?thesis by (simp add: setOutputValue_def)
  next
    case False
    with \<open>recognised_type type\<close> have "type \<in> set ros_primitive_types"
      by (simp add: recognised_type_def)
    then show ?thesis
      by (rule primitive_type_cases)
         (simp_all add: setOutputValue_def write_port_def json_getters
            split: sum.splits json.splits)
  qed
qed

lemma setOutputValue_throws_iff:
  "throws_runtime_error_naming (setOutputValue conv narrow tn name type doc) name
     \<longleftrightarrow> \<not> recognised_type type"
proof (cases "setOutputValue conv narrow tn name type doc")
  case (Inr v)
  with setOutputValue_invalid_iff [of conv narrow tn name type doc] show ?thesis
    by (simp add: throws_runtime_error_naming_def)
next
  case (Inl e)
  show ?thesis
  proof (cases e)
    case (InvalidPortType msg)
    with Inl setOutputValue_invalid_msg [of conv narrow tn name type doc msg]
      setOutputValue_invalid_iff [of conv narrow tn name type doc]
      invalid_port_type_names_port [of type name tn]
    show ?thesis by (auto simp: throws_runtime_error_naming_def names_port_def)
  next
    case (InputError msg)
    with Inl setOutputValue_no_input_error show ?thesis by blast
  qed (use Inl setOutputValue_invalid_iff [of conv narrow tn name type doc] in
        \<open>simp_all add: throws_runtime_error_naming_def\<close>)
qed

lemma getInputValue_throws_unrecognised:
  assumes "\<not> recognised_type type"
  shows "throws_runtime_error_naming (getInputValue tn name type) name"
proof -
  from assms getInputValue_invalid_iff [of tn name type] obtain msg where
    m: "getInputValue tn name type = Inl (InvalidPortType msg)" by blast
  from getInputValue_invalid_msg [OF m] invalid_port_type_names_port [of type name tn]
  have "names_port msg name" by (simp add: names_port_def)
  with m show ?thesis by (simp add: throws_runtime_error_naming_def)
qed

text \<open>
  C9, as amended. \<open>getInputValue\<close> and \<open>setOutputValue\<close> reach their final
  \<open>throw std::runtime_error("Invalid port type ...")\<close> exactly when the port type has no
  \<open>/\<close> and is none of the twelve primitive types, and the message thrown there contains
  the name of the port. For \<open>setOutputValue\<close> this is the only \<open>std::runtime_error\<close>: it
  throws one that names the port exactly when the type is not recognised.
  \<open>getInputValue\<close> throws one that names the port whenever the type is not recognised;
  for a recognised type it throws the \<open>std::runtime_error\<close> with the message of the
  library when \<open>getInput\<close> fails, and otherwise, on a port whose value the library gives
  in the requested type, returns a JSON value of the kind of the type. \<open>setOutputValue\<close>
  on a recognised type and a JSON value of the kind of the type makes its \<open>setOutput\<close>
  call on the port and fails in no way.
\<close>

theorem port_type_error_iff_unrecognised:
  "((\<exists>msg. getInputValue tn name type = Inl (InvalidPortType msg))
      \<longleftrightarrow> \<not> (CHR ''/'' \<in> set type \<or> type \<in> set ros_primitive_types)) \<and>
   ((\<exists>msg. setOutputValue conv narrow tn name type doc = Inl (InvalidPortType msg))
      \<longleftrightarrow> \<not> (CHR ''/'' \<in> set type \<or> type \<in> set ros_primitive_types)) \<and>
   (\<forall>msg. getInputValue tn name type = Inl (InvalidPortType msg) \<or>
          setOutputValue conv narrow tn name type doc = Inl (InvalidPortType msg)
      \<longrightarrow> (\<exists>pre post. msg = pre @ name @ post)) \<and>
   (input_available tn name type \<longrightarrow>
      recognised_type type \<and>
      (\<exists>j. getInputValue tn name type = Inr j \<and> produced_kind type j)) \<and>
   (recognised_type type \<and> consumed_kind type doc \<longrightarrow>
      (\<exists>v. setOutputValue conv narrow tn name type doc = Inr (name, v))) \<and>
   (throws_runtime_error_naming (setOutputValue conv narrow tn name type doc) name
      \<longleftrightarrow> \<not> (CHR ''/'' \<in> set type \<or> type \<in> set ros_primitive_types)) \<and>
   (\<not> (CHR ''/'' \<in> set type \<or> type \<in> set ros_primitive_types) \<longrightarrow>
      throws_runtime_error_naming (getInputValue tn name type) name) \<and>
   (recognised_type type \<and> \<not> input_available tn name type \<longrightarrow>
      (\<exists>e. getInputValue tn name type = Inl (InputError e)))"
proof (intro conjI allI impI)
  show "(\<exists>msg. getInputValue tn name type = Inl (InvalidPortType msg))
      \<longleftrightarrow> \<not> (CHR ''/'' \<in> set type \<or> type \<in> set ros_primitive_types)"
    using getInputValue_invalid_iff [of tn name type] by (simp add: recognised_type_def)
  show "(\<exists>msg. setOutputValue conv narrow tn name type doc = Inl (InvalidPortType msg))
      \<longleftrightarrow> \<not> (CHR ''/'' \<in> set type \<or> type \<in> set ros_primitive_types)"
    using setOutputValue_invalid_iff [of conv narrow tn name type doc]
    by (simp add: recognised_type_def)
  show "throws_runtime_error_naming (setOutputValue conv narrow tn name type doc) name
      \<longleftrightarrow> \<not> (CHR ''/'' \<in> set type \<or> type \<in> set ros_primitive_types)"
    using setOutputValue_throws_iff [of conv narrow tn name type doc]
    by (simp add: recognised_type_def)
next
  fix msg
  assume "getInputValue tn name type = Inl (InvalidPortType msg) \<or>
          setOutputValue conv narrow tn name type doc = Inl (InvalidPortType msg)"
  then have "msg = invalid_port_type type name tn"
    using getInputValue_invalid_msg setOutputValue_invalid_msg by blast
  then show "\<exists>pre post. msg = pre @ name @ post"
    using invalid_port_type_names_port by simp
next
  assume a: "input_available tn name type"
  from getInputValue_available [OF a]
  show "\<exists>j. getInputValue tn name type = Inr j \<and> produced_kind type j" .
  from getInputValue_available [OF a]
  have "\<not> (\<exists>msg. getInputValue tn name type = Inl (InvalidPortType msg))"
    by auto
  then show "recognised_type type"
    using getInputValue_invalid_iff [of tn name type] by simp
next
  assume "recognised_type type \<and> consumed_kind type doc"
  then show "\<exists>v. setOutputValue conv narrow tn name type doc = Inr (name, v)"
    using setOutputValue_consumes by blast
next
  assume "\<not> (CHR ''/'' \<in> set type \<or> type \<in> set ros_primitive_types)"
  then have "\<not> recognised_type type" by (simp add: recognised_type_def)
  then show "throws_runtime_error_naming (getInputValue tn name type) name"
    by (rule getInputValue_throws_unrecognised)
next
  assume "recognised_type type \<and> \<not> input_available tn name type"
  then show "\<exists>e. getInputValue tn name type = Inl (InputError e)"
    using getInputValue_unavailable by blast
qed

theorem port_type_error_iff_unrecognised_witness:
  "input_available bool_ports ''flag'' ''bool'' \<and>
   (recognised_type ''bool'' \<and>
    (\<exists>j. getInputValue bool_ports ''flag'' ''bool'' = Inr j \<and> produced_kind ''bool'' j)) \<and>
   consumed_kind ''bool'' (JBool True) \<and>
   (\<exists>v. setOutputValue (\<lambda>_. 0) (\<lambda>_. 0) bool_ports ''flag'' ''bool'' (JBool True)
          = Inr (''flag'', v)) \<and>
   \<not> (CHR ''/'' \<in> set ''matrix'' \<or> ''matrix'' \<in> set ros_primitive_types) \<and>
   (\<exists>msg. getInputValue bool_ports ''m'' ''matrix'' = Inl (InvalidPortType msg)) \<and>
   throws_runtime_error_naming (getInputValue bool_ports ''m'' ''matrix'') ''m'' \<and>
   throws_runtime_error_naming
     (setOutputValue (\<lambda>_. 0) (\<lambda>_. 0) bool_ports ''m'' ''matrix'' (JBool True)) ''m'' \<and>
   recognised_type ''int32'' \<and> \<not> input_available no_ports ''x'' ''int32'' \<and>
   (\<exists>e. getInputValue no_ports ''x'' ''int32'' = Inl (InputError e))"
proof -
  have a: "input_available bool_ports ''flag'' ''bool''"
    by (simp add: input_available_def bool_ports_def)
  have b: "consumed_kind ''bool'' (JBool True)"
    by (simp add: consumed_kind_def IsBool_def)
  have c: "\<not> (CHR ''/'' \<in> set ''matrix'' \<or> ''matrix'' \<in> set ros_primitive_types)"
    by (simp add: ros_primitive_types_def)
  have r: "recognised_type ''int32''"
    by (simp add: recognised_type_def ros_primitive_types_def)
  have u: "\<not> input_available no_ports ''x'' ''int32''"
    by (simp add: input_available_def no_ports_def)
  note t1 = port_type_error_iff_unrecognised
          [of bool_ports "''flag''" "''bool''" "\<lambda>_. 0" "\<lambda>_. 0" "JBool True"]
  note t2 = port_type_error_iff_unrecognised
          [of bool_ports "''m''" "''matrix''" "\<lambda>_. 0" "\<lambda>_. 0" "JBool True"]
  note t3 = port_type_error_iff_unrecognised
          [of no_ports "''x''" "''int32''" "\<lambda>_. 0" "\<lambda>_. 0" "JBool True"]
  note d = t1 [THEN conjunct2, THEN conjunct2, THEN conjunct2, THEN conjunct1, THEN mp, OF a]
  note f = t1 [THEN conjunct2, THEN conjunct2, THEN conjunct2, THEN conjunct2, THEN conjunct1,
               THEN mp, OF conjI [OF d [THEN conjunct1] b]]
  note g = t2 [THEN conjunct1, THEN iffD2, OF c]
  note h = t2 [THEN conjunct2, THEN conjunct2, THEN conjunct2, THEN conjunct2, THEN conjunct2,
               THEN conjunct1, THEN iffD2, OF c]
  note i = t2 [THEN conjunct2, THEN conjunct2, THEN conjunct2, THEN conjunct2, THEN conjunct2,
               THEN conjunct2, THEN conjunct1, THEN mp, OF c]
  note j = t3 [THEN conjunct2, THEN conjunct2, THEN conjunct2, THEN conjunct2, THEN conjunct2,
               THEN conjunct2, THEN conjunct2, THEN mp, OF conjI [OF r u]]
  show ?thesis
    by (intro conjI a b c f g h i j r u d [THEN conjunct1] d [THEN conjunct2])
qed

text \<open>
  The claim as it was stated fails for \<open>getInputValue\<close>: on a port of the recognised type
  \<open>int32\<close> that the node does not have, it throws the \<open>std::runtime_error\<close> of the failed
  \<open>getInput\<close>, whose message names the port.
\<close>

theorem recognised_type_runtime_error_counterexample:
  "\<not> (throws_runtime_error_naming (getInputValue no_ports ''x'' ''int32'') ''x''
        \<longleftrightarrow> \<not> (CHR ''/'' \<in> set ''int32'' \<or> ''int32'' \<in> set ros_primitive_types))"
proof -
  have "getInputValue no_ports ''x'' ''int32'' = Inl (InputError (missing_key ''x''))"
    by (simp add: getInputValue_def no_ports_def read_port_def)
  moreover have "names_port (missing_key ''x'') ''x''"
    unfolding names_port_def missing_key_def by blast
  moreover have "''int32'' \<in> set ros_primitive_types"
    by (simp add: ros_primitive_types_def)
  ultimately show ?thesis by (simp add: throws_runtime_error_naming_def)
qed

section \<open>Properties of the requests\<close>

lemma through_first_Cons:
  "through_first P (x # xs) = (if P x then [x] else x # through_first P xs)"
  by (simp add: through_first_def)

lemma through_first_none: "\<forall>x\<in>set xs. \<not> P x \<Longrightarrow> through_first P xs = xs"
  by (induction xs) (simp_all add: through_first_def)

lemma through_first_split:
  "\<forall>x\<in>set before. \<not> P x \<Longrightarrow> P r \<Longrightarrow> through_first P (before @ r # after) = before @ [r]"
  by (induction before) (simp_all add: through_first_Cons)

lemma getPortValue_reference:
  "snd (getPortValue port_model mapping_value) \<longleftrightarrow>
     dollar_prefixed (port_text port_model mapping_value) \<or>
     brace_wrapped (port_text port_model mapping_value)"
proof -
  define v :: string where "v = port_text port_model mapping_value"
  have v: "(if mapping_value \<noteq> [] then mapping_value else default_value port_model) = v"
    by (simp add: v_def port_text_def)
  have b: "front_is CHR ''{'' v \<and> back_is CHR ''}'' v \<longleftrightarrow> brace_wrapped v"
  proof (cases v)
    case Nil
    then show ?thesis by (simp add: front_is_def back_is_def brace_wrapped_def)
  next
    case (Cons c rest)
    then show ?thesis
      by (cases rest) (auto simp: front_is_def back_is_def brace_wrapped_def)
  qed
  have d: "front_is CHR ''$'' v \<longleftrightarrow> dollar_prefixed v"
    by (cases v) (simp_all add: front_is_def)
  show ?thesis
    unfolding getPortValue_def v v_def [symmetric] Let_def
    using b d by (simp split: if_splits)
qed

lemma is_reference_flag:
  "is_reference node p =
     (case map_of (model_ports node) (fst p) of
        None \<Rightarrow> False
      | Some port_model \<Rightarrow> snd (getPortValue port_model (snd p)))"
  by (simp add: is_reference_def getPortValue_reference split: option.splits)

lemma panel_request_loop_names:
  "panel_request_loop lc node m goal bb = Inr (g, bb') \<Longrightarrow>
     map fst g = map fst goal @ map fst (through_first (is_reference node) (request_ports node m))"
proof (induction m arbitrary: goal bb)
  case Nil
  then show ?case by (simp add: request_ports_def through_first_def)
next
  case (Cons p m)
  then show ?case
    by (auto simp: request_ports_def through_first_Cons is_request_port_def is_reference_flag
          AddMember_def Let_def
          split: option.splits if_splits sum.splits prod.splits)
qed

lemma panel_request_loop_returns:
  "literals_convertible lc node m \<Longrightarrow> \<exists>g bb'. panel_request_loop lc node m goal bb = Inr (g, bb')"
proof (induction m arbitrary: goal bb)
  case Nil
  then show ?case by simp
next
  case (Cons p m)
  then show ?case
    by (auto simp: literals_convertible_def Let_def isl_def
          split: option.splits if_splits sum.splits prod.splits)
qed

lemma request_loop_names:
  "request_loop node tn m goal = Inr g \<Longrightarrow>
     map fst g = map fst goal @ map fst (request_ports node m)"
proof (induction m arbitrary: goal)
  case Nil
  then show ?case by (simp add: request_ports_def)
next
  case (Cons p m)
  then show ?case
    by (auto simp: request_ports_def is_request_port_def AddMember_def
          split: option.splits if_splits sum.splits)
qed

lemma request_loop_returns:
  "inputs_available tn node m \<Longrightarrow> \<exists>g. request_loop node tn m goal = Inr g"
proof (induction m arbitrary: goal)
  case Nil
  then show ?case by simp
next
  case (Cons p m)
  then show ?case
    by (auto simp: inputs_available_def dest!: getInputValue_available
          split: option.splits if_splits sum.splits)
qed

lemma map_fst_prefix_all:
  "map fst before @ [fst r] = map fst (before @ r # after) \<longleftrightarrow> after = []"
proof
  assume "map fst before @ [fst r] = map fst (before @ r # after)"
  then have "length (map fst before @ [fst r]) = length (map fst (before @ r # after))"
    by (rule arg_cong)
  then show "after = []" by simp
qed simp

text \<open>
  C10, as amended. When \<open>SidepanelInterpreter::getRequestFromPorts\<close> returns, the members
  of the goal are, in order: one for every port of the mapping that is not an \<open>OUTPUT\<close>
  port, if none of these has a reference as its value (a value that begins with \<open>$\<close>, or
  begins with \<open>{\<close> and ends with \<open>}\<close>); otherwise one for every such port up to and
  including the first whose value is a reference, and none for the ports after it, so
  that the goal has a member for every such port exactly when no such port comes after
  the first reference. It does return when every entry of the mapping names a port of
  the model and every literal can be converted. \<open>Interpreter::getRequestFromPorts\<close>, when
  it returns, has a member for every port of the mapping that is not an \<open>OUTPUT\<close> port,
  and it returns when every such port can be read.
\<close>

theorem panel_request_stops_at_first_reference:
  "(panel_getRequestFromPorts lc node mapping bb = Inr (JObject goal, bb') \<longrightarrow>
      ((\<forall>p \<in> set (request_ports node mapping). \<not> is_reference node p) \<longrightarrow>
         map fst goal = map fst (request_ports node mapping)) \<and>
      (\<forall>before r after.
         request_ports node mapping = before @ r # after \<and>
         (\<forall>p \<in> set before. \<not> is_reference node p) \<and> is_reference node r \<longrightarrow>
         map fst goal = map fst before @ [fst r] \<and>
         (map fst goal = map fst (request_ports node mapping) \<longleftrightarrow> after = []))) \<and>
   (literals_convertible lc node mapping \<longrightarrow>
      (\<exists>goal bb'. panel_getRequestFromPorts lc node mapping bb = Inr (JObject goal, bb'))) \<and>
   (getRequestFromPorts node tn = Inr (JObject goal2) \<longrightarrow>
      map fst goal2 = map fst (request_ports node (port_mapping node))) \<and>
   (inputs_available tn node (port_mapping node) \<longrightarrow>
      (\<exists>goal. getRequestFromPorts node tn = Inr (JObject goal))) \<and>
   (\<forall>port_model mapping_value.
      snd (getPortValue port_model mapping_value) \<longleftrightarrow>
        dollar_prefixed (port_text port_model mapping_value) \<or>
        brace_wrapped (port_text port_model mapping_value))"
proof (intro conjI impI allI)
  assume r: "panel_getRequestFromPorts lc node mapping bb = Inr (JObject goal, bb')"
  then have l: "panel_request_loop lc node mapping [] bb = Inr (goal, bb')"
    by (simp add: panel_getRequestFromPorts_def split: sum.splits prod.splits)
  note n = panel_request_loop_names [OF l]
  {
    assume "\<forall>p \<in> set (request_ports node mapping). \<not> is_reference node p"
    then show "map fst goal = map fst (request_ports node mapping)"
      using n by (simp add: through_first_none)
  }
  {
    fix before r after
    assume a: "request_ports node mapping = before @ r # after \<and>
         (\<forall>p \<in> set before. \<not> is_reference node p) \<and> is_reference node r"
    then show g: "map fst goal = map fst before @ [fst r]"
      using n by (simp add: through_first_split)
    show "map fst goal = map fst (request_ports node mapping) \<longleftrightarrow> after = []"
      using a g map_fst_prefix_all [of before r after] by simp
  }
next
  assume "literals_convertible lc node mapping"
  from panel_request_loop_returns [OF this, of "[]" bb]
  show "\<exists>goal bb'. panel_getRequestFromPorts lc node mapping bb = Inr (JObject goal, bb')"
    by (auto simp: panel_getRequestFromPorts_def)
next
  assume "getRequestFromPorts node tn = Inr (JObject goal2)"
  then have "request_loop node tn (port_mapping node) [] = Inr goal2"
    by (simp add: getRequestFromPorts_def split: sum.splits)
  from request_loop_names [OF this]
  show "map fst goal2 = map fst (request_ports node (port_mapping node))" by simp
next
  assume "inputs_available tn node (port_mapping node)"
  from request_loop_returns [OF this, of "[]"]
  show "\<exists>goal. getRequestFromPorts node tn = Inr (JObject goal)"
    by (auto simp: getRequestFromPorts_def)
next
  fix port_model mapping_value
  show "snd (getPortValue port_model mapping_value) \<longleftrightarrow>
        dollar_prefixed (port_text port_model mapping_value) \<or>
        brace_wrapped (port_text port_model mapping_value)"
    by (rule getPortValue_reference)
qed

lemmas example_defs = greet_node_def literal_mapping_def reference_mapping_def no_cast_def
  string_ports_def last_reference_mapping_def brace_reference_mapping_def

lemmas reference_defs = is_reference_def port_text_def brace_wrapped_def

theorem panel_request_stops_at_first_reference_witness:
  "panel_getRequestFromPorts no_cast greet_node literal_mapping Map.empty =
     Inr (JObject [(''name'', JString ''world''), (''target'', JString ''kitchen'')], Map.empty) \<and>
   \<not> list_ex (is_reference greet_node) (request_ports greet_node literal_mapping) \<and>
   map fst [(''name'', JString ''world''), (''target'', JString ''kitchen'')] =
     map fst (request_ports greet_node literal_mapping) \<and>
   panel_getRequestFromPorts no_cast greet_node reference_mapping Map.empty =
     Inr (JObject [(''name'', JNull)], Map.empty(''who'' \<mapsto> JNull)) \<and>
   request_ports greet_node reference_mapping =
     [] @ (''name'', ''$who'') # [(''target'', ''kitchen'')] \<and>
   is_reference greet_node (''name'', ''$who'') \<and>
   map fst [(''name'', JNull)] =
     map fst ([] :: (string \<times> string) list) @ [fst (''name'', ''$who'')] \<and>
   panel_getRequestFromPorts no_cast greet_node brace_reference_mapping Map.empty =
     Inr (JObject [(''name'', JNull)], Map.empty(''who'' \<mapsto> JNull)) \<and>
   request_ports greet_node brace_reference_mapping =
     [] @ (''name'', ''{who}'') # [(''target'', ''kitchen'')] \<and>
   is_reference greet_node (''name'', ''{who}'') \<and>
   map fst [(''name'', JNull)] =
     map fst ([] :: (string \<times> string) list) @ [fst (''name'', ''{who}'')] \<and>
   map fst [(''name'', JNull)] \<noteq> map fst (request_ports greet_node brace_reference_mapping) \<and>
   literals_convertible no_cast greet_node literal_mapping \<and>
   inputs_available string_ports greet_node (port_mapping greet_node) \<and>
   getRequestFromPorts greet_node string_ports =
     Inr (JObject [(''name'', JString ''kitchen''), (''target'', JString ''kitchen'')]) \<and>
   map fst [(''name'', JString ''kitchen''), (''target'', JString ''kitchen'')] =
     map fst (request_ports greet_node (port_mapping greet_node))"
proof -
  have a: "panel_getRequestFromPorts no_cast greet_node literal_mapping Map.empty =
      Inr (JObject [(''name'', JString ''world''), (''target'', JString ''kitchen'')], Map.empty)"
    by (simp add: example_defs panel_getRequestFromPorts_def getPortValue_def front_is_def
          back_is_def literal_value_def set_if_def AddMember_def)
  have b: "panel_getRequestFromPorts no_cast greet_node reference_mapping Map.empty =
      Inr (JObject [(''name'', JNull)], Map.empty(''who'' \<mapsto> JNull))"
    by (simp add: example_defs panel_getRequestFromPorts_def getPortValue_def front_is_def
          back_is_def literal_value_def set_if_def AddMember_def blackboard_at_def)
  have b2: "panel_getRequestFromPorts no_cast greet_node brace_reference_mapping Map.empty =
      Inr (JObject [(''name'', JNull)], Map.empty(''who'' \<mapsto> JNull))"
    by (simp add: example_defs panel_getRequestFromPorts_def getPortValue_def front_is_def
          back_is_def literal_value_def set_if_def AddMember_def blackboard_at_def)
  have c: "request_ports greet_node reference_mapping =
      [] @ (''name'', ''$who'') # [(''target'', ''kitchen'')]"
    by (simp add: example_defs request_ports_def is_request_port_def)
  have c2: "request_ports greet_node brace_reference_mapping =
      [] @ (''name'', ''{who}'') # [(''target'', ''kitchen'')]"
    by (simp add: example_defs request_ports_def is_request_port_def)
  have d: "is_reference greet_node (''name'', ''$who'')"
    by (simp add: example_defs reference_defs)
  have d2: "is_reference greet_node (''name'', ''{who}'')"
    by (simp add: example_defs reference_defs)
  have e: "\<forall>p \<in> set (request_ports greet_node literal_mapping). \<not> is_reference greet_node p"
    by (simp add: example_defs request_ports_def is_request_port_def reference_defs)
  have f: "literals_convertible no_cast greet_node literal_mapping"
    by (simp add: example_defs literals_convertible_def getPortValue_def front_is_def back_is_def
          literal_value_def set_if_def)
  have g: "inputs_available string_ports greet_node (port_mapping greet_node)"
    by (simp add: example_defs inputs_available_def input_available_def)
  have h: "getRequestFromPorts greet_node string_ports =
      Inr (JObject [(''name'', JString ''kitchen''), (''target'', JString ''kitchen'')])"
    by (simp add: example_defs getRequestFromPorts_def getInputValue_def read_port_def
          AddMember_def)
  have n: "\<forall>p \<in> set ([] :: (string \<times> string) list). \<not> is_reference greet_node p"
    by simp
  have ne: "[(''target'', ''kitchen'')] \<noteq> ([] :: (string \<times> string) list)" by simp
  note t1 = panel_request_stops_at_first_reference
    [of no_cast greet_node literal_mapping Map.empty
        "[(''name'', JString ''world''), (''target'', JString ''kitchen'')]" Map.empty
        string_ports "[(''name'', JString ''kitchen''), (''target'', JString ''kitchen'')]"]
  note t2 = panel_request_stops_at_first_reference
    [of no_cast greet_node reference_mapping Map.empty
        "[(''name'', JNull)]" "Map.empty(''who'' \<mapsto> JNull)"
        string_ports "[(''name'', JString ''kitchen''), (''target'', JString ''kitchen'')]"]
  note t3 = panel_request_stops_at_first_reference
    [of no_cast greet_node brace_reference_mapping Map.empty
        "[(''name'', JNull)]" "Map.empty(''who'' \<mapsto> JNull)"
        string_ports "[(''name'', JString ''kitchen''), (''target'', JString ''kitchen'')]"]
  note r1 = t1 [THEN conjunct1, THEN mp, OF a, THEN conjunct1, THEN mp, OF e]
  note r2 = t2 [THEN conjunct1, THEN mp, OF b, THEN conjunct2, THEN spec, THEN spec, THEN spec,
                THEN mp, OF conjI [OF c conjI [OF n d]], THEN conjunct1]
  note r3 = t1 [THEN conjunct2, THEN conjunct2, THEN conjunct1, THEN mp, OF h]
  note r4 = t3 [THEN conjunct1, THEN mp, OF b2, THEN conjunct2, THEN spec, THEN spec, THEN spec,
                THEN mp, OF conjI [OF c2 conjI [OF n d2]]]
  from r4 [THEN conjunct2] ne
  have r5: "map fst [(''name'', JNull)] \<noteq>
              map fst (request_ports greet_node brace_reference_mapping)"
    by (rule_tac notI) (drule (1) iffD1, erule notE, assumption)
  from e have e': "\<not> list_ex (is_reference greet_node) (request_ports greet_node literal_mapping)"
    by (simp add: list_ex_iff)
  show ?thesis
    by (intro conjI a b b2 c c2 d d2 e' f g h r1 r2 r3 r4 [THEN conjunct1] r5)
qed

text \<open>
  The claim as it was stated fails where the only reference is the value of the last
  port that is not an \<open>OUTPUT\<close> port: the goal then has a member for every such port
  although the value of one of them is a reference.
\<close>

theorem reference_in_last_port_counterexample:
  "panel_getRequestFromPorts no_cast greet_node last_reference_mapping Map.empty =
     Inr (JObject [(''name'', JString ''world''), (''target'', JNull)],
          Map.empty(''goal'' \<mapsto> JNull)) \<and>
   map fst [(''name'', JString ''world''), (''target'', JNull)] =
     map fst (request_ports greet_node last_reference_mapping) \<and>
   (''target'', ''{goal}'') \<in> set (request_ports greet_node last_reference_mapping) \<and>
   brace_wrapped (snd (''target'', ''{goal}'')) \<and>
   is_reference greet_node (''target'', ''{goal}'')"
  by (simp add: example_defs panel_getRequestFromPorts_def getPortValue_def front_is_def
        back_is_def literal_value_def set_if_def AddMember_def blackboard_at_def
        request_ports_def is_request_port_def reference_defs)

lemma panel_getRequestFromPorts_returns:
  "literals_convertible lc node m \<Longrightarrow>
     \<exists>goal bb'. panel_getRequestFromPorts lc node m bb = Inr (JObject goal, bb')"
  using panel_request_loop_returns [of lc node m "[]" bb]
  by (auto simp: panel_getRequestFromPorts_def)

lemma getRequestFromPorts_returns:
  "inputs_available tn node (port_mapping node) \<Longrightarrow>
     \<exists>goal. getRequestFromPorts node tn = Inr (JObject goal)"
  using request_loop_returns [of tn node "port_mapping node" "[]"]
  by (auto simp: getRequestFromPorts_def)

section \<open>Properties of node execution\<close>

lemma reports_success_object: "reports_success (JObject ms) = Inr (success_is_true ms)"
  by (auto simp: reports_success_def success_is_true_def HasMember_def member_def IsBool_def
        GetBool_def split: option.splits json.splits)

lemma reports_success_Inr: "reports_success j = Inr ok \<Longrightarrow> \<exists>ms. j = JObject ms \<and> ok = success_is_true ms"
  by (cases j) (simp_all add: reports_success_object, simp_all add: reports_success_def)

lemma result_status_object:
  "result_status (JObject ms) = Inr (if success_is_true ms then SUCCESS else FAILURE)"
  by (simp add: result_status_def and_then_def reports_success_object)

lemma result_status_Inr:
  "result_status j = Inr st \<Longrightarrow>
     \<exists>ms. j = JObject ms \<and> st = (if success_is_true ms then SUCCESS else FAILURE)"
  by (auto simp: result_status_def and_then_def split: sum.splits dest!: reports_success_Inr)

lemma executeConditionNode_returns:
  assumes "executeConditionNode env node s = (Inr st, s')"
  shows "\<exists>service request ms.
           effects s' = effects s @ [Rosbridge (service_call_of s env service request)] \<and>
           snd (rosbridge env (service_call_of s env service request)) = JObject ms \<and>
           st = (if success_is_true ms then SUCCESS else FAILURE)"
proof -
  from assms obtain p :: PortModel and request where
    st: "result_status (snd (rosbridge env (service_call_of s env (default_value p) request)))
           = Inr st" and
    s': "effects s' = effects s @ [Rosbridge (service_call_of s env (default_value p) request)]"
    by (auto simp: executeConditionNode_def Let_def emit_def
          split: option.splits sum.splits prod.splits)
  from result_status_Inr [OF st] obtain ms where
    "snd (rosbridge env (service_call_of s env (default_value p) request)) = JObject ms"
    "st = (if success_is_true ms then SUCCESS else FAILURE)"
    by blast
  with s' show ?thesis by blast
qed

lemma getActionType_effects:
  "getActionType env server_name s = (r, s1) \<Longrightarrow>
     s1 = emit (Rosbridge (topic_type_call s env server_name)) s"
  by (auto simp: getActionType_def Let_def split: json.splits option.splits)

lemma executeActionNode_returns:
  assumes "executeActionNode env node s = (Inr st, s')"
  shows "\<exists>server_name topic_type goal ms.
           effects s' = effects s @ [Rosbridge (topic_type_call s env server_name),
                                    Rosbridge (action_goal_of s env server_name topic_type goal)] \<and>
           snd (rosbridge env (action_goal_of s env server_name topic_type goal)) = JObject ms \<and>
           st = (if success_is_true ms then SUCCESS else FAILURE)"
proof -
  from assms obtain p s1 topic_type goal bb bb' where
    p: "map_of (model_ports node) ''server_name'' = Some p" and
    g: "getActionType env (default_value p) s = (Inr topic_type, s1)" and
    r: "panel_getRequestFromPorts (lexical_cast env) node (port_mapping node) (blackboard s1)
          = Inr (goal, bb)" and
    f: "feedbacks_to_blackboard node (port_mapping node) bb
          (fst (rosbridge env (action_goal_of s1 env (default_value p) topic_type goal))) = Inr bb'" and
    st: "result_status (snd (rosbridge env (action_goal_of s1 env (default_value p) topic_type goal)))
          = Inr st" and
    s': "s' = (emit (Rosbridge (action_goal_of s1 env (default_value p) topic_type goal))
                (s1\<lparr>blackboard := bb\<rparr>))\<lparr>blackboard := bb'\<rparr>"
    by (auto simp: executeActionNode_def Let_def split: option.splits sum.splits prod.splits)
  from getActionType_effects [OF g]
  have s1: "s1 = emit (Rosbridge (topic_type_call s env (default_value p))) s" .
  have a: "action_goal_of s1 env (default_value p) topic_type goal
             = action_goal_of s env (default_value p) topic_type goal"
    by (simp add: s1 action_goal_of_def emit_def)
  from result_status_Inr [OF st] obtain ms where
    ms: "snd (rosbridge env (action_goal_of s1 env (default_value p) topic_type goal)) = JObject ms"
        "st = (if success_is_true ms then SUCCESS else FAILURE)"
    by blast
  have "effects s' = effects s @ [Rosbridge (topic_type_call s env (default_value p)),
          Rosbridge (action_goal_of s env (default_value p) topic_type goal)]"
    by (simp add: s' a) (simp add: s1 emit_def)
  with ms a show ?thesis by auto
qed

lemma feedbacks_to_ports_prefix:
  "feedbacks_to_ports env th ms done = (r, done') \<Longrightarrow> \<exists>outs. done' = done @ outs"
proof (induction ms arbitrary: "done")
  case Nil
  then show ?case by simp
next
  case (Cons m ms)
  then show ?case by (fastforce split: sum.splits)
qed

lemma thread_run_returns:
  assumes "thread_run env th = (None, done)"
  shows "\<exists>goal outs ms.
           done = Rosbridge (ActionGoal (action_hostname th) (action_port th)
                    (action_server_name th) (action_type th) goal) # outs @
                  [ActionReportResult (thread_tree_node_id th)
                     (if success_is_true ms then ''SUCCESS'' else ''FAILURE'')] \<and>
           snd (rosbridge env (ActionGoal (action_hostname th) (action_port th)
                  (action_server_name th) (action_type th) goal)) = JObject ms"
proof -
  define call where "call goal = ActionGoal (action_hostname th) (action_port th)
                    (action_server_name th) (action_type th) goal" for goal
  from assms obtain goal done' ok where
    f: "feedbacks_to_ports env th (fst (rosbridge env (call goal))) [Rosbridge (call goal)]
          = (None, done')" and
    ok: "reports_success (snd (rosbridge env (call goal))) = Inr ok" and
    d: "done = done' @ [ActionReportResult (thread_tree_node_id th)
                  (if ok then ''SUCCESS'' else ''FAILURE'')]"
    by (auto simp: thread_run_def Let_def call_def
          split: sum.splits prod.splits option.splits)
  from feedbacks_to_ports_prefix [OF f] obtain outs where
    "done' = [Rosbridge (call goal)] @ outs" by blast
  moreover from reports_success_Inr [OF ok] obtain ms where
    "snd (rosbridge env (call goal)) = JObject ms" "ok = success_is_true ms" by blast
  ultimately show ?thesis using d unfolding call_def by auto
qed

lemma apply_status_effects:
  "effects (snd (apply_status node_id st s)) =
     effects s @ [ChangeNodeStyle (tree_name s) [(node_id, st)] True]"
  by (simp add: apply_status_def emit_def Let_def split: prod.splits option.splits)

lemma executeConditionNode_exists:
  assumes "map_of (model_ports node) ''service_name'' \<noteq> None"
    and "literals_convertible (lexical_cast env) node (port_mapping node)"
    and "answers_objects env"
  shows "\<exists>st s'. executeConditionNode env node s = (Inr st, s')"
proof -
  from assms(1) obtain p where p: "map_of (model_ports node) ''service_name'' = Some p" by auto
  from panel_getRequestFromPorts_returns [OF assms(2)] obtain goal bb where
    g: "panel_getRequestFromPorts (lexical_cast env) node (port_mapping node) (blackboard s)
          = Inr (JObject goal, bb)" by blast
  from assms(3) obtain ms where
    "snd (rosbridge env (service_call_of s env (default_value p) (JObject goal))) = JObject ms"
    unfolding answers_objects_def by blast
  with p g show ?thesis
    by (simp add: executeConditionNode_def result_status_object)
qed

lemma getActionType_exists:
  assumes "answers_objects env"
  shows "\<exists>t. getActionType env server_name s
               = (Inr t, emit (Rosbridge (topic_type_call s env server_name)) s)"
proof -
  from assms obtain ms where
    ms: "snd (rosbridge env (topic_type_call s env server_name)) = JObject ms"
        "\<forall>t. map_of ms ''type'' = Some (JString t) \<longrightarrow> 4 \<le> length t"
    unfolding answers_objects_def by blast
  then show ?thesis
    by (auto simp: getActionType_def Let_def strip_goal_def split: option.splits json.splits)
qed

lemma executeActionNode_exists:
  assumes "map_of (model_ports node) ''server_name'' \<noteq> None"
    and "literals_convertible (lexical_cast env) node (port_mapping node)"
    and "answers_objects env" and "feedback_readable env node"
  shows "\<exists>st s'. executeActionNode env node s = (Inr st, s')"
proof -
  from assms(1) obtain p where p: "map_of (model_ports node) ''server_name'' = Some p" by auto
  from getActionType_exists [OF assms(3)] obtain t s1 where
    t: "getActionType env (default_value p) s = (Inr t, s1)" by blast
  from panel_getRequestFromPorts_returns [OF assms(2)] obtain goal bb where
    g: "panel_getRequestFromPorts (lexical_cast env) node (port_mapping node) (blackboard s1)
          = Inr (JObject goal, bb)" by blast
  define call where "call = action_goal_of s1 env (default_value p) t (JObject goal)"
  from assms(3) obtain ms where ms: "snd (rosbridge env call) = JObject ms"
    unfolding answers_objects_def by blast
  from assms(4) obtain bb' where
    f: "feedbacks_to_blackboard node (port_mapping node) bb (fst (rosbridge env call)) = Inr bb'"
    unfolding feedback_readable_def by (metis isl_def sum.collapse(2))
  from p t g ms f show ?thesis
    by (simp add: executeActionNode_def Let_def call_def [symmetric] result_status_object)
qed

lemma thread_run_exists:
  assumes "inputs_available (thread_tree_node th) (thread_node th) (port_mapping (thread_node th))"
    and "answers_objects env" and "feedback_writable env th"
  shows "\<exists>done. thread_run env th = (None, done)"
proof -
  from getRequestFromPorts_returns [OF assms(1)] obtain goal where
    g: "getRequestFromPorts (thread_node th) (thread_tree_node th) = Inr (JObject goal)" by blast
  define call where "call = ActionGoal (action_hostname th) (action_port th)
     (action_server_name th) (action_type th) (JObject goal)"
  from assms(2) obtain ms where ms: "snd (rosbridge env call) = JObject ms"
    unfolding answers_objects_def by blast
  from assms(3) obtain d where
    f: "feedbacks_to_ports env th (fst (rosbridge env call)) [Rosbridge call] = (None, d)"
    unfolding feedback_writable_def by (metis prod.collapse)
  from g ms f show ?thesis
    by (simp add: thread_run_def Let_def call_def [symmetric] reports_success_object)
qed

text \<open>
  C4. When \<open>executeConditionNode\<close> returns a status it has sent one service call, and when
  \<open>executeActionNode\<close> returns a status it has asked \<open>/rosapi/topic_type\<close> for the type of
  the action and then sent the goal of the action; \<open>ExecuteActionThread::run\<close>, when it
  returns, has sent the goal first and reported a result last. In all three the result
  of rosbridge is an object, and the status (the report) is \<open>SUCCESS\<close> exactly when that
  object has a member \<open>success\<close> that is the boolean \<open>true\<close>, and \<open>FAILURE\<close> otherwise. They
  do return when the node has the port that names the service or the server, the request
  can be built, rosbridge answers with objects and the feedback can be read.
  \<open>executeNode\<close> takes the first path for a node whose model has the type \<open>CONDITION\<close> and
  the second for the type \<open>ACTION\<close>.
\<close>

theorem execution_status_from_result:
  "(\<forall>st s'. executeConditionNode env node s = (Inr st, s') \<longrightarrow>
      (\<exists>service request ms.
         effects s' = effects s @ [Rosbridge (service_call_of s env service request)] \<and>
         snd (rosbridge env (service_call_of s env service request)) = JObject ms \<and>
         (st = SUCCESS \<longleftrightarrow> success_is_true ms) \<and>
         (st = FAILURE \<longleftrightarrow> \<not> success_is_true ms))) \<and>
   (\<forall>st s'. executeActionNode env node s = (Inr st, s') \<longrightarrow>
      (\<exists>server_name topic_type goal ms.
         effects s' = effects s @
           [Rosbridge (topic_type_call s env server_name),
            Rosbridge (action_goal_of s env server_name topic_type goal)] \<and>
         snd (rosbridge env (action_goal_of s env server_name topic_type goal)) = JObject ms \<and>
         (st = SUCCESS \<longleftrightarrow> success_is_true ms) \<and>
         (st = FAILURE \<longleftrightarrow> \<not> success_is_true ms))) \<and>
   (\<forall>done. thread_run env th = (None, done) \<longrightarrow>
      (\<exists>goal outs ms report.
         done = Rosbridge (ActionGoal (action_hostname th) (action_port th)
                  (action_server_name th) (action_type th) goal) # outs @
                [ActionReportResult (thread_tree_node_id th) report] \<and>
         snd (rosbridge env (ActionGoal (action_hostname th) (action_port th)
                (action_server_name th) (action_type th) goal)) = JObject ms \<and>
         (report = ''SUCCESS'' \<longleftrightarrow> success_is_true ms) \<and>
         (report = ''FAILURE'' \<longleftrightarrow> \<not> success_is_true ms))) \<and>
   (map_of (model_ports node) ''service_name'' \<noteq> None \<and>
    literals_convertible (lexical_cast env) node (port_mapping node) \<and>
    answers_objects env \<longrightarrow>
      (\<exists>st s'. executeConditionNode env node s = (Inr st, s'))) \<and>
   (map_of (model_ports node) ''server_name'' \<noteq> None \<and>
    literals_convertible (lexical_cast env) node (port_mapping node) \<and>
    answers_objects env \<and> feedback_readable env node \<longrightarrow>
      (\<exists>st s'. executeActionNode env node s = (Inr st, s'))) \<and>
   (inputs_available (thread_tree_node th) (thread_node th) (port_mapping (thread_node th)) \<and>
    answers_objects env \<and> feedback_writable env th \<longrightarrow>
      (\<exists>done. thread_run env th = (None, done))) \<and>
   (\<forall>st s1. 0 \<le> node_id \<and> node_id < int (length (abstract_tree s)) \<and>
      model_type (abstract_tree s ! nat node_id) = CONDITION \<and>
      executeConditionNode env (abstract_tree s ! nat node_id) s = (Inr st, s1) \<longrightarrow>
      executeNode env node_id s = apply_status node_id st s1) \<and>
   (\<forall>st s1. 0 \<le> node_id \<and> node_id < int (length (abstract_tree s)) \<and>
      model_type (abstract_tree s ! nat node_id) = ACTION \<and>
      executeActionNode env (abstract_tree s ! nat node_id) s = (Inr st, s1) \<longrightarrow>
      executeNode env node_id s = apply_status node_id st s1)"
proof (intro conjI allI impI)
  fix st s'
  assume "executeConditionNode env node s = (Inr st, s')"
  from executeConditionNode_returns [OF this]
  show "\<exists>service request ms.
         effects s' = effects s @ [Rosbridge (service_call_of s env service request)] \<and>
         snd (rosbridge env (service_call_of s env service request)) = JObject ms \<and>
         (st = SUCCESS \<longleftrightarrow> success_is_true ms) \<and>
         (st = FAILURE \<longleftrightarrow> \<not> success_is_true ms)"
    by (elim exE conjE, intro exI conjI) (assumption, assumption, simp_all)
next
  fix st s'
  assume "executeActionNode env node s = (Inr st, s')"
  from executeActionNode_returns [OF this]
  show "\<exists>server_name topic_type goal ms.
         effects s' = effects s @
           [Rosbridge (topic_type_call s env server_name),
            Rosbridge (action_goal_of s env server_name topic_type goal)] \<and>
         snd (rosbridge env (action_goal_of s env server_name topic_type goal)) = JObject ms \<and>
         (st = SUCCESS \<longleftrightarrow> success_is_true ms) \<and>
         (st = FAILURE \<longleftrightarrow> \<not> success_is_true ms)"
    by (elim exE conjE, intro exI conjI) (assumption, assumption, simp_all)
next
  fix d
  assume "thread_run env th = (None, d)"
  from thread_run_returns [OF this]
  show "\<exists>goal outs ms report.
         d = Rosbridge (ActionGoal (action_hostname th) (action_port th)
                  (action_server_name th) (action_type th) goal) # outs @
                [ActionReportResult (thread_tree_node_id th) report] \<and>
         snd (rosbridge env (ActionGoal (action_hostname th) (action_port th)
                (action_server_name th) (action_type th) goal)) = JObject ms \<and>
         (report = ''SUCCESS'' \<longleftrightarrow> success_is_true ms) \<and>
         (report = ''FAILURE'' \<longleftrightarrow> \<not> success_is_true ms)"
    by (elim exE conjE, intro exI conjI) (assumption, assumption, simp_all)
next
  assume "map_of (model_ports node) ''service_name'' \<noteq> None \<and>
    literals_convertible (lexical_cast env) node (port_mapping node) \<and> answers_objects env"
  then show "\<exists>st s'. executeConditionNode env node s = (Inr st, s')"
    using executeConditionNode_exists by blast
next
  assume "map_of (model_ports node) ''server_name'' \<noteq> None \<and>
    literals_convertible (lexical_cast env) node (port_mapping node) \<and>
    answers_objects env \<and> feedback_readable env node"
  then show "\<exists>st s'. executeActionNode env node s = (Inr st, s')"
    using executeActionNode_exists by blast
next
  assume "inputs_available (thread_tree_node th) (thread_node th) (port_mapping (thread_node th)) \<and>
    answers_objects env \<and> feedback_writable env th"
  then show "\<exists>done. thread_run env th = (None, done)"
    using thread_run_exists by blast
next
  fix st s1
  assume "0 \<le> node_id \<and> node_id < int (length (abstract_tree s)) \<and>
      model_type (abstract_tree s ! nat node_id) = CONDITION \<and>
      executeConditionNode env (abstract_tree s ! nat node_id) s = (Inr st, s1)"
  then show "executeNode env node_id s = apply_status node_id st s1"
    by (simp add: executeNode_def)
next
  fix st s1
  assume "0 \<le> node_id \<and> node_id < int (length (abstract_tree s)) \<and>
      model_type (abstract_tree s ! nat node_id) = ACTION \<and>
      executeActionNode env (abstract_tree s ! nat node_id) s = (Inr st, s1)"
  then show "executeNode env node_id s = apply_status node_id st s1"
    by (simp add: executeNode_def)
qed

theorem execution_status_from_result_witness:
  "map_of (model_ports check_node) ''service_name'' \<noteq> None \<and>
   literals_convertible (lexical_cast succeeding) check_node (port_mapping check_node) \<and>
   answers_objects succeeding \<and>
   (\<exists>st s'. executeConditionNode succeeding check_node small_panel = (Inr st, s')) \<and>
   fst (executeConditionNode succeeding check_node small_panel) = Inr SUCCESS \<and>
   (\<exists>service request ms.
      effects (snd (executeConditionNode succeeding check_node small_panel)) =
        effects small_panel @ [Rosbridge (service_call_of small_panel succeeding service request)] \<and>
      snd (rosbridge succeeding (service_call_of small_panel succeeding service request)) =
        JObject ms \<and>
      success_is_true ms) \<and>
   map_of (model_ports move_node) ''server_name'' \<noteq> None \<and>
   literals_convertible (lexical_cast succeeding) move_node (port_mapping move_node) \<and>
   feedback_readable succeeding move_node \<and>
   (\<exists>st s'. executeActionNode succeeding move_node small_panel = (Inr st, s')) \<and>
   fst (executeActionNode succeeding move_node small_panel) = Inr SUCCESS \<and>
   (\<exists>server_name topic_type goal ms.
      effects (snd (executeActionNode succeeding move_node small_panel)) =
        effects small_panel @
          [Rosbridge (topic_type_call small_panel succeeding server_name),
           Rosbridge (action_goal_of small_panel succeeding server_name topic_type goal)] \<and>
      snd (rosbridge succeeding
             (action_goal_of small_panel succeeding server_name topic_type goal)) = JObject ms \<and>
      success_is_true ms) \<and>
   inputs_available (thread_tree_node move_thread) (thread_node move_thread)
     (port_mapping (thread_node move_thread)) \<and>
   feedback_writable succeeding move_thread \<and>
   (\<exists>done. thread_run succeeding move_thread = (None, done)) \<and>
   model_type (abstract_tree small_panel ! nat 2) = CONDITION \<and>
   executeNode succeeding 2 small_panel =
     apply_status 2 SUCCESS (snd (executeConditionNode succeeding check_node small_panel)) \<and>
   model_type (abstract_tree small_panel ! nat 3) = ACTION \<and>
   executeNode succeeding 3 small_panel =
     apply_status 3 SUCCESS (snd (executeActionNode succeeding move_node small_panel))"
proof -
  have c1: "fst (executeConditionNode succeeding check_node small_panel) = Inr SUCCESS"
    by code_simp
  have c2: "fst (executeActionNode succeeding move_node small_panel) = Inr SUCCESS"
    by code_simp
  have h1: "map_of (model_ports check_node) ''service_name'' \<noteq> None"
    by (simp add: check_node_def)
  have h2: "literals_convertible (lexical_cast succeeding) check_node (port_mapping check_node)"
    by (simp add: check_node_def literals_convertible_def)
  have h3: "answers_objects succeeding"
    by (simp add: answers_objects_def succeeding_def)
  have h4: "feedback_readable succeeding move_node"
    by (simp add: feedback_readable_def succeeding_def)
  have h5: "feedback_writable succeeding move_thread"
    by (simp add: feedback_writable_def succeeding_def)
  have h6: "inputs_available (thread_tree_node move_thread) (thread_node move_thread)
              (port_mapping (thread_node move_thread))"
    by (simp add: move_thread_def move_node_def inputs_available_def)
  have h7: "map_of (model_ports move_node) ''server_name'' \<noteq> None"
    by (simp add: move_node_def)
  have h8: "literals_convertible (lexical_cast succeeding) move_node (port_mapping move_node)"
    by (simp add: move_node_def literals_convertible_def)
  have n2: "abstract_tree small_panel ! 2 = check_node"
    and n3: "abstract_tree small_panel ! 3 = move_node"
    and len: "length (abstract_tree small_panel) = 4"
    by (simp_all add: small_panel_def)
  have m2: "model_type (abstract_tree small_panel ! nat 2) = CONDITION"
    by (simp add: n2 check_node_def)
  have m3: "model_type (abstract_tree small_panel ! nat 3) = ACTION"
    by (simp add: n3 move_node_def)
  note t1 = execution_status_from_result
    [where env = succeeding and node = check_node and s = small_panel and th = move_thread
       and node_id = 2]
  note t2 = execution_status_from_result
    [where env = succeeding and node = move_node and s = small_panel and th = move_thread
       and node_id = 3]
  have e1: "executeConditionNode succeeding check_node small_panel =
              (Inr SUCCESS, snd (executeConditionNode succeeding check_node small_panel))"
    using c1 by (metis prod.collapse)
  have e2: "executeActionNode succeeding move_node small_panel =
              (Inr SUCCESS, snd (executeActionNode succeeding move_node small_panel))"
    using c2 by (metis prod.collapse)
  note x1 = t1 [THEN conjunct2, THEN conjunct2, THEN conjunct2, THEN conjunct1, THEN mp,
                OF conjI [OF h1 conjI [OF h2 h3]]]
  note x2 = t2 [THEN conjunct2, THEN conjunct2, THEN conjunct2, THEN conjunct2, THEN conjunct1,
                THEN mp, OF conjI [OF h7 conjI [OF h8 conjI [OF h3 h4]]]]
  note x3 = t1 [THEN conjunct2, THEN conjunct2, THEN conjunct2, THEN conjunct2, THEN conjunct2,
                THEN conjunct1, THEN mp, OF conjI [OF h6 conjI [OF h3 h5]]]
  have y1: "\<exists>service request ms.
      effects (snd (executeConditionNode succeeding check_node small_panel)) =
        effects small_panel @ [Rosbridge (service_call_of small_panel succeeding service request)] \<and>
      snd (rosbridge succeeding (service_call_of small_panel succeeding service request)) =
        JObject ms \<and>
      success_is_true ms"
    using t1 [THEN conjunct1, THEN spec, THEN spec, THEN mp, OF e1]
    by (elim exE conjE, intro exI conjI) (assumption, assumption, simp)
  have y2: "\<exists>server_name topic_type goal ms.
      effects (snd (executeActionNode succeeding move_node small_panel)) =
        effects small_panel @
          [Rosbridge (topic_type_call small_panel succeeding server_name),
           Rosbridge (action_goal_of small_panel succeeding server_name topic_type goal)] \<and>
      snd (rosbridge succeeding
             (action_goal_of small_panel succeeding server_name topic_type goal)) = JObject ms \<and>
      success_is_true ms"
    using t2 [THEN conjunct2, THEN conjunct1, THEN spec, THEN spec, THEN mp, OF e2]
    by (elim exE conjE, intro exI conjI) (assumption, assumption, simp)
  have z1: "executeNode succeeding 2 small_panel =
     apply_status 2 SUCCESS (snd (executeConditionNode succeeding check_node small_panel))"
    using t1 [THEN conjunct2, THEN conjunct2, THEN conjunct2, THEN conjunct2, THEN conjunct2,
              THEN conjunct2, THEN conjunct1, THEN spec, THEN spec, THEN mp,
              of SUCCESS "snd (executeConditionNode succeeding check_node small_panel)"]
      e1 m2 by (simp add: n2 len)
  have z2: "executeNode succeeding 3 small_panel =
     apply_status 3 SUCCESS (snd (executeActionNode succeeding move_node small_panel))"
    using t2 [THEN conjunct2, THEN conjunct2, THEN conjunct2, THEN conjunct2, THEN conjunct2,
              THEN conjunct2, THEN conjunct2, THEN spec, THEN spec, THEN mp,
              of SUCCESS "snd (executeActionNode succeeding move_node small_panel)"]
      e2 m3 by (simp add: n3 len)
  show ?thesis
    by (intro conjI h1 h2 h3 h4 h5 h6 h7 h8 c1 c2 x1 x2 x3 y1 y2 z1 z2 m2 m3)
qed

text \<open>
  C6. For a node of the abstract tree whose model has a type other than \<open>CONDITION\<close> and
  \<open>ACTION\<close> (a decorator, a control node, a subtree), \<open>executeNode\<close> returns with the side
  panel as it was: no request has gone to rosbridge, no \<open>changeNodeStyle\<close> has been
  emitted, and every node of the execution tree has the status it had.
\<close>

theorem executeNode_other_type_unchanged:
  assumes "0 \<le> node_id" and "node_id < int (length (abstract_tree s))"
    and "model_type (abstract_tree s ! nat node_id) \<noteq> CONDITION"
    and "model_type (abstract_tree s ! nat node_id) \<noteq> ACTION"
  shows "executeNode env node_id s = (None, s) \<and>
         effects (snd (executeNode env node_id s)) = effects s \<and>
         map status (tree_nodes (snd (executeNode env node_id s))) = map status (tree_nodes s)"
  using assms by (simp add: executeNode_def)

theorem executeNode_other_type_unchanged_witness:
  "(0 :: int) \<le> 1 \<and> 1 < int (length (abstract_tree small_panel)) \<and>
   model_type (abstract_tree small_panel ! nat 1) = CONTROL \<and>
   executeNode succeeding 1 small_panel = (None, small_panel) \<and>
   effects (snd (executeNode succeeding 1 small_panel)) = effects small_panel"
proof -
  have len: "length (abstract_tree small_panel) = 4"
    by (simp add: small_panel_def)
  have m: "model_type (abstract_tree small_panel ! nat 1) = CONTROL"
    by (simp add: small_panel_def sequence_node_def)
  have a: "(0 :: int) \<le> 1" and b: "1 < int (length (abstract_tree small_panel))"
    by (simp_all add: len)
  have c: "model_type (abstract_tree small_panel ! nat 1) \<noteq> CONDITION"
    and d: "model_type (abstract_tree small_panel ! nat 1) \<noteq> ACTION"
    by (simp_all only: m) simp_all
  note t = executeNode_other_type_unchanged [OF a b c d, of succeeding]
  show ?thesis
    by (intro conjI a b m t [THEN conjunct1] t [THEN conjunct2, THEN conjunct1])
qed

section \<open>What the slots leave alone\<close>

lemma same_controls_refl [simp]: "same_controls s s"
  by (simp add: same_controls_def)

lemma same_controls_trans: "same_controls s s1 \<Longrightarrow> same_controls s1 s2 \<Longrightarrow> same_controls s s2"
  by (simp add: same_controls_def)

lemma same_controls_updated: "same_controls s s1 \<Longrightarrow> same_controls s (s1\<lparr>updated := b\<rparr>)"
  by (simp add: same_controls_def)

lemma same_controls_emit: "same_controls s s1 \<Longrightarrow> same_controls s (emit e s1)"
  by (simp add: same_controls_def emit_def)

lemma apply_status_controls: "same_controls s (snd (apply_status node_id st s))"
  by (simp add: apply_status_def same_controls_def emit_def Let_def split: prod.splits option.splits)

lemma executeConditionNode_controls: "same_controls s (snd (executeConditionNode env node s))"
  by (simp add: executeConditionNode_def same_controls_def emit_def Let_def
        split: prod.splits option.splits sum.splits)

lemma getActionType_controls: "same_controls s (snd (getActionType env server_name s))"
  by (simp add: getActionType_def same_controls_def emit_def Let_def
        split: json.splits option.splits)

lemma executeActionNode_controls: "same_controls s (snd (executeActionNode env node s))"
proof (cases "map_of (model_ports node) ''server_name''")
  case None
  then show ?thesis by (simp add: executeActionNode_def)
next
  case (Some p)
  obtain r s1 where g: "getActionType env (default_value p) s = (r, s1)" by fastforce
  with getActionType_controls [of s env "default_value p"] have c: "same_controls s s1" by simp
  show ?thesis
    using Some g c
    by (auto simp: executeActionNode_def Let_def same_controls_def emit_def
          split: sum.splits prod.splits)
qed

lemma executeNode_controls: "same_controls s (snd (executeNode env node_id s))"
proof -
  have a: "same_controls s (snd (case r of (Inl e, s1) \<Rightarrow> (Some e, s1)
                                | (Inr st, s1) \<Rightarrow> apply_status node_id st s1))"
    if "same_controls s (snd r)" for r :: "(error + NodeStatus) \<times> Sidepanel"
    using that apply_status_controls [of "snd r" node_id]
    by (auto split: prod.splits sum.splits intro: same_controls_trans)
  show ?thesis
    unfolding executeNode_def Let_def
    using a [OF executeConditionNode_controls] a [OF executeActionNode_controls]
    by simp
qed

lemma execute_nodes_controls: "same_controls s (snd (execute_nodes env ids s))"
proof (induction ids arbitrary: s)
  case Nil
  then show ?case by simp
next
  case (Cons i ids)
  obtain r s1 where e: "executeNode env i s = (r, s1)" by fastforce
  with executeNode_controls [of s env i] have c: "same_controls s s1" by simp
  show ?case
  proof (cases r)
    case None
    with e c Cons.IH [of s1] show ?thesis by (auto intro: same_controls_trans)
  next
    case (Some a)
    with e c show ?thesis by simp
  qed
qed

lemma expandAndChangeNodeStyle_controls:
  "same_controls s (snd (expandAndChangeNodeStyle ns reset s))"
  by (simp add: expandAndChangeNodeStyle_def same_controls_def emit_def
        split: prod.splits option.splits)

lemma try_tick_controls: "same_controls s (snd (try_tick env s))"
  by (simp add: try_tick_def same_controls_def split: prod.splits tick_outcome.splits)

lemma stop_unless_running_controls: "same_controls s (stop_unless_running s)"
  by (simp add: stop_unless_running_def same_controls_def)

lemma tickRoot_controls: "same_controls s (snd (tickRoot env s))"
proof (cases "length (tree_nodes s) \<le> 1")
  case True
  then show ?thesis by (simp add: tickRoot_def)
next
  case False
  obtain r s1 where t: "try_tick env s = (r, s1)" by fastforce
  with try_tick_controls [of s env] have c1: "same_controls s s1" by simp
  show ?thesis
  proof (cases r)
    case (Inl e)
    with False t c1 show ?thesis by (simp add: tickRoot_def)
  next
    case (Inr cr)
    define s2 where "s2 = stop_unless_running s1"
    have c2: "same_controls s s2"
      unfolding s2_def using c1 stop_unless_running_controls by (rule same_controls_trans)
    have c3: "same_controls s (snd (expandAndChangeNodeStyle ns False s2))" for ns
      using c2 expandAndChangeNodeStyle_controls by (rule same_controls_trans)
    from False t Inr c2 c3 show ?thesis
      by (simp add: tickRoot_def Let_def s2_def [symmetric] split: sum.splits)
  qed
qed

lemma same_controls_fields [simp]:
  "same_controls s (s1\<lparr>tree_nodes := t\<rparr>) = same_controls s s1"
  "same_controls s (s1\<lparr>abstract_tree := a\<rparr>) = same_controls s s1"
  "same_controls s (s1\<lparr>updated := b\<rparr>) = same_controls s s1"
  "same_controls s (s1\<lparr>root_status := r\<rparr>) = same_controls s s1"
  "same_controls s (s1\<lparr>blackboard := bb\<rparr>) = same_controls s s1"
  "same_controls s (emit e s1) = same_controls s s1"
  by (simp_all add: same_controls_def emit_def)

lemma then_updated_controls:
  "same_controls s (snd p) \<Longrightarrow>
   same_controls s (snd (case p of (Some e, s1) \<Rightarrow> (Some e, s1)
                                 | (None, s1) \<Rightarrow> (None, s1\<lparr>updated := True\<rparr>)))"
  by (cases p; cases "fst p") auto

lemma changeSelectedStyle_controls: "same_controls s (snd (changeSelectedStyle st s))"
  by (simp add: changeSelectedStyle_def Let_def split: prod.splits option.splits)

lemma changeRunningStyle_controls: "same_controls s (snd (changeRunningStyle st s))"
proof -
  have "same_controls s (snd (expandAndChangeNodeStyle ns True (s\<lparr>tree_nodes := t\<rparr>)))" for ns t
    using same_controls_trans [OF _ expandAndChangeNodeStyle_controls, of s "s\<lparr>tree_nodes := t\<rparr>"]
    by simp
  from then_updated_controls [OF this] show ?thesis
    by (simp add: changeRunningStyle_def Let_def split: prod.splits)
qed

lemma on_buttonExecSelection_clicked_controls:
  "same_controls s (snd (on_buttonExecSelection_clicked env s))"
  using then_updated_controls [OF execute_nodes_controls]
  by (simp add: on_buttonExecSelection_clicked_def)

lemma on_buttonExecRunning_clicked_controls:
  "same_controls s (snd (on_buttonExecRunning_clicked env s))"
proof -
  have "same_controls s s1" if "execute_nodes env ids (s\<lparr>abstract_tree := t\<rparr>) = (r, s1)"
    for ids t r s1
    using same_controls_trans [OF _ execute_nodes_controls, of s "s\<lparr>abstract_tree := t\<rparr>" env ids]
      that by simp
  then show ?thesis
    by (auto simp: on_buttonExecRunning_clicked_def split: prod.splits option.splits)
qed

lemma on_buttonRunTree_clicked_controls:
  "same_controls s (snd (on_buttonRunTree_clicked env s))"
  using tickRoot_controls [of s env]
  by (auto simp: on_buttonRunTree_clicked_def split: prod.splits option.splits)

section \<open>Properties of the connection\<close>

lemma same_controls_connection: "same_controls s s' \<Longrightarrow> same_connection s s'"
  by (simp add: same_controls_def same_connection_def)

lemma same_connection_refl [simp]: "same_connection s s"
  by (simp add: same_connection_def)

lemma disable_connection: "same_connection s s1 \<Longrightarrow> same_connection s (on_buttonDisableAutoExecution_clicked s1)"
  by (simp add: same_connection_def on_buttonDisableAutoExecution_clicked_def
        toggleButtonAutoExecution_def)

lemma runStep_connection: "same_connection s (snd (runStep env s))"
proof -
  have c: "same_connection s (snd (tickRoot env s))"
    using tickRoot_controls by (rule same_controls_connection)
  then have "same_connection s (snd (tickRoot env s)\<lparr>updated := False\<rparr>)"
    by (simp add: same_connection_def)
  with c disable_connection [OF c] show ?thesis
    by (auto simp: runStep_def split: prod.splits option.splits)
qed

lemma handle_keeps_connection:
  assumes "handle env ev s = (r, s')" and "ev \<noteq> Connect" and "ev \<noteq> ConnectionCreated"
    and "\<forall>m. ev \<noteq> ConnectionError m"
  shows "same_connection s s'"
proof -
  have "same_connection s (snd (handle env ev s))"
  proof (cases ev)
    case Timeout
    then show ?thesis using runStep_connection [of s env]
      by (simp add: handle_def same_connection_def)
  next
    case (ResetTree a t)
    then show ?thesis
      by (simp add: handle_def on_buttonResetTree_clicked_def setTree_def Let_def
            same_connection_def)
  next
    case EnableAutoExecution
    then show ?thesis
      by (simp add: handle_def on_buttonEnableAutoExecution_clicked_def
            toggleButtonAutoExecution_def same_connection_def)
  next
    case DisableAutoExecution
    then show ?thesis
      by (simp add: handle_def on_buttonDisableAutoExecution_clicked_def
            toggleButtonAutoExecution_def same_connection_def)
  qed (use assms(2-4) in \<open>simp_all add: handle_def same_controls_connection
         changeSelectedStyle_controls changeRunningStyle_controls
         on_buttonRunTree_clicked_controls on_buttonExecSelection_clicked_controls
         on_buttonExecRunning_clicked_controls\<close>)
  with assms(1) show ?thesis by simp
qed

lemma toggleButtonConnect_follow: "connect_widgets_follow (toggleButtonConnect s)"
  by (simp add: connect_widgets_follow_def toggleButtonConnect_def emit_def)

lemma connection_handlers:
  "connected (on_connectionCreated s)" "connect_widgets_follow (on_connectionCreated s)"
  "\<not> connected (on_connectionError m s)" "connect_widgets_follow (on_connectionError m s)"
  "connected s \<Longrightarrow> \<not> connected (on_Connect s)"
  "connected s \<Longrightarrow> connect_widgets_follow (on_Connect s)"
  "\<not> connected s \<Longrightarrow> same_connection s (on_Connect s)"
  by (simp_all add: on_connectionCreated_def on_connectionError_def on_Connect_def
        toggleButtonConnect_def emit_def connect_widgets_follow_def same_connection_def Let_def
        split: option.splits)

lemma same_connection_follow:
  "same_connection s s' \<Longrightarrow> connect_widgets_follow s \<Longrightarrow> connect_widgets_follow s'"
  by (simp add: same_connection_def connect_widgets_follow_def)

lemma on_Connect_follow: "connect_widgets_follow s \<Longrightarrow> connect_widgets_follow (on_Connect s)"
  using connection_handlers(6,7) [where s = s] by (cases "connected s") (auto intro: same_connection_follow)

lemma handle_follow:
  assumes "handle env ev s = (r, s')" and "connect_widgets_follow s"
  shows "connect_widgets_follow s'"
proof (cases "ev = Connect \<or> ev = ConnectionCreated \<or> (\<exists>m. ev = ConnectionError m)")
  case False
  with handle_keeps_connection [OF assms(1)] assms(2) show ?thesis
    by (auto intro: same_connection_follow)
next
  case True
  then show ?thesis
    using assms on_Connect_follow [of s] connection_handlers(2,4)
    by (auto simp: handle_def)
qed

lemma run_follow:
  "run env evs s = (r, s') \<Longrightarrow> connect_widgets_follow s \<Longrightarrow> connect_widgets_follow s'"
proof (induction evs arbitrary: s)
  case Nil
  then show ?case by simp
next
  case (Cons ev evs)
  obtain r1 s1 where h: "handle env ev s = (r1, s1)" by fastforce
  from handle_follow [OF h Cons.prems(2)] have f: "connect_widgets_follow s1" .
  show ?case
  proof (cases r1)
    case None
    with h Cons.prems(1) have "run env evs s1 = (r, s')" by simp
    from Cons.IH [OF this f] show ?thesis .
  next
    case (Some e)
    with h Cons.prems(1) f show ?thesis by simp
  qed
qed

lemma constructor_follow: "connect_widgets_follow (SidepanelInterpreter h p)"
  unfolding SidepanelInterpreter_def by (rule toggleButtonConnect_follow)

text \<open>
  C7. A slot that changes the connection flag is \<open>on_connectionCreated\<close> when the flag
  becomes true, and \<open>on_connectionError\<close> or \<open>on_Connect\<close> (the disconnect) when it becomes
  false; after it the buttons that execute the selection and the running nodes are
  enabled exactly when the flag is set, and the line edits of the host name and the port
  are disabled exactly when it is set. \<open>on_connectionCreated\<close> sets the flag,
  \<open>on_connectionError\<close> and \<open>on_Connect\<close> on a connected side panel clear it, and the widgets
  follow the flag after each of them, as they do after every run of events from the
  constructor on.
\<close>

theorem connection_flag_and_widgets:
  "(handle env ev s = (r, s') \<and> connected s' \<noteq> connected s \<longrightarrow>
      (connected s' \<longrightarrow> ev = ConnectionCreated) \<and>
      (\<not> connected s' \<longrightarrow> ev = Connect \<or> (\<exists>m. ev = ConnectionError m)) \<and>
      connect_widgets_follow s') \<and>
   connected (on_connectionCreated s) \<and> connect_widgets_follow (on_connectionCreated s) \<and>
   \<not> connected (on_connectionError m s) \<and> connect_widgets_follow (on_connectionError m s) \<and>
   (connected s \<longrightarrow> \<not> connected (on_Connect s) \<and> connect_widgets_follow (on_Connect s)) \<and>
   (run env evs (SidepanelInterpreter host port) = (r', s'') \<longrightarrow> connect_widgets_follow s'')"
proof (intro conjI impI)
  assume a: "handle env ev s = (r, s') \<and> connected s' \<noteq> connected s"
  then have h: "handle env ev s = (r, s')" and c: "connected s' \<noteq> connected s" by simp_all
  have ev: "ev = Connect \<or> ev = ConnectionCreated \<or> (\<exists>m. ev = ConnectionError m)"
  proof (rule ccontr)
    assume "\<not> ?thesis"
    with handle_keeps_connection [OF h] have "same_connection s s'" by blast
    with c show False by (simp add: same_connection_def)
  qed
  {
    assume "connected s'"
    with ev h c show "ev = ConnectionCreated"
      using connection_handlers(3,5,7) [where s = s]
      by (cases "connected s") (auto simp: handle_def same_connection_def)
  }
  {
    assume "\<not> connected s'"
    with ev h show "ev = Connect \<or> (\<exists>m. ev = ConnectionError m)"
      using connection_handlers(1) [where s = s] by (auto simp: handle_def)
  }
  from ev h c show "connect_widgets_follow s'"
    using connection_handlers(2,4,6,7)
    by (cases "connected s") (auto simp: handle_def same_connection_def)
next
  assume "run env evs (SidepanelInterpreter host port) = (r', s'')"
  from run_follow [OF this constructor_follow] show "connect_widgets_follow s''" .
qed (simp_all add: connection_handlers)

theorem connection_flag_and_widgets_witness:
  "handle succeeding ConnectionCreated (SidepanelInterpreter ''localhost'' ''9090'') =
     (None, on_connectionCreated (SidepanelInterpreter ''localhost'' ''9090'')) \<and>
   connected (on_connectionCreated (SidepanelInterpreter ''localhost'' ''9090'')) \<noteq>
     connected (SidepanelInterpreter ''localhost'' ''9090'') \<and>
   connect_widgets_follow (on_connectionCreated (SidepanelInterpreter ''localhost'' ''9090'')) \<and>
   connected (on_connectionCreated (SidepanelInterpreter ''localhost'' ''9090'')) \<and>
   \<not> connected (on_Connect (on_connectionCreated (SidepanelInterpreter ''localhost'' ''9090''))) \<and>
   connect_widgets_follow
     (on_Connect (on_connectionCreated (SidepanelInterpreter ''localhost'' ''9090''))) \<and>
   connect_widgets_follow
     (snd (run succeeding [Connect, ConnectionCreated, ConnectionError ''closed'']
             (SidepanelInterpreter ''localhost'' ''9090'')))"
proof -
  define s0 where "s0 = SidepanelInterpreter ''localhost'' ''9090''"
  have h: "handle succeeding ConnectionCreated s0 = (None, on_connectionCreated s0)"
    by (simp add: handle_def)
  have c: "connected (on_connectionCreated s0) \<noteq> connected s0"
    by (simp add: s0_def on_connectionCreated_def SidepanelInterpreter_def
          toggleButtonConnect_def toggleButtonAutoExecution_def emit_def)
  note t1 = connection_flag_and_widgets
    [where env = succeeding and ev = ConnectionCreated and s = s0 and r = None
       and s' = "on_connectionCreated s0" and host = "''localhost''" and port = "''9090''"
       and evs = "[Connect, ConnectionCreated, ConnectionError ''closed'']"
       and r' = "fst (run succeeding [Connect, ConnectionCreated, ConnectionError ''closed'']
                        (SidepanelInterpreter ''localhost'' ''9090''))"
       and s'' = "snd (run succeeding [Connect, ConnectionCreated, ConnectionError ''closed'']
                        (SidepanelInterpreter ''localhost'' ''9090''))"]
  note t2 = connection_flag_and_widgets
    [where s = "on_connectionCreated s0"]
  note f = t1 [THEN conjunct1, THEN mp, OF conjI [OF h c], THEN conjunct2, THEN conjunct2]
  note k = t1 [THEN conjunct2, THEN conjunct1]
  note d = t2 [THEN conjunct2, THEN conjunct2, THEN conjunct2, THEN conjunct2, THEN conjunct2,
               THEN conjunct1, THEN mp, OF k]
  note u = t1 [THEN conjunct2, THEN conjunct2, THEN conjunct2, THEN conjunct2, THEN conjunct2,
               THEN conjunct2, THEN mp, OF prod.collapse [symmetric]]
  show ?thesis
    using h c f k d u unfolding s0_def by (intro conjI) simp_all
qed

section \<open>Properties of auto-execution\<close>

lemma same_timer_refl [simp]: "same_timer s s"
  by (simp add: same_timer_def)



















section \<open>Properties of \<open>tickRoot\<close>\<close>

lemma changed_loop_closed:
  "i + length nodes \<le> length prev \<Longrightarrow>
   changed_loop pending prev i nodes acc =
     Inr (acc @ concat (map (\<lambda>(k, node). node_entries pending (int k) (snd (prev ! k)) node)
                          (enumerate i nodes)))"
proof (induction nodes arbitrary: i acc)
  case Nil
  then show ?case by simp
next
  case (Cons node nodes)
  from Cons.prems have a: "\<not> length prev \<le> i" and b: "Suc i + length nodes \<le> length prev"
    by simp_all
  show ?case
    using a Cons.IH [OF b] by (simp add: Let_def node_entries_def)
qed

lemma changed_status_closed:
  "Suc (length nodes) \<le> length prev \<Longrightarrow>
   changed_status pending prev root nodes =
     Inr ((if root \<noteq> snd (prev ! 0) then [(0, root)] else []) @
          concat (map (\<lambda>(k, node). node_entries pending (int k) (snd (prev ! k)) node)
                    (enumerate 1 nodes)))"
  unfolding changed_status_def by (rule changed_loop_closed) simp

lemma fst_node_entries: "e \<in> set (node_entries pending i before node) \<Longrightarrow> fst e = i"
  by (auto simp: node_entries_def split: if_splits)

lemma filter_entries_other:
  "i \<noteq> j \<Longrightarrow> filter (\<lambda>e. fst e = j) (node_entries pending i before node) = []"
  by (auto simp: filter_empty_conv dest: fst_node_entries)

lemma filter_entries_same:
  "filter (\<lambda>e. fst e = i) (node_entries pending i before node) = node_entries pending i before node"
  by (auto simp: filter_id_conv dest: fst_node_entries)

lemma filter_concat_entries:
  "k \<le> j \<Longrightarrow> j < k + length nodes \<Longrightarrow>
   filter (\<lambda>e. fst e = int j)
     (concat (map (\<lambda>(k, node). node_entries pending (int k) (snd (prev ! k)) node)
                (enumerate k nodes)))
   = node_entries pending (int j) (snd (prev ! j)) (nodes ! (j - k))"
proof (induction nodes arbitrary: k)
  case Nil
  then show ?case by simp
next
  case (Cons node nodes)
  show ?case
  proof (cases "j = k")
    case True
    have "filter (\<lambda>e. fst e = int k)
            (concat (map (\<lambda>(k, node). node_entries pending (int k) (snd (prev ! k)) node)
                (enumerate (Suc k) nodes))) = []"
      by (auto simp: filter_empty_conv in_set_enumerate_eq dest!: fst_node_entries)
    with True show ?thesis by (simp add: filter_entries_same)
  next
    case False
    with Cons.prems have "Suc k \<le> j" "j < Suc k + length nodes" by simp_all
    from Cons.IH [OF this] False Cons.prems show ?thesis
      by (simp add: filter_entries_other Suc_diff_le)
  qed
qed

lemma filter_concat_entries_zero:
  "filter (\<lambda>e. fst e = 0)
     (concat (map (\<lambda>(k, node). node_entries pending (int k) (snd (prev ! k)) node)
                (enumerate (Suc k) nodes))) = []"
  by (auto simp: filter_empty_conv in_set_enumerate_eq dest!: fst_node_entries)

lemma sorted_concat_entries:
  "sorted (map fst (concat (map (\<lambda>(k, node). node_entries pending (int k) (snd (prev ! k)) node)
                (enumerate k nodes))))"
proof (induction nodes arbitrary: k)
  case Nil
  then show ?case by simp
next
  case (Cons node nodes)
  have a: "\<forall>x \<in> set (node_entries pending (int k) (snd (prev ! k)) node). fst x = int k"
    by (auto dest: fst_node_entries)
  then have s: "sorted (map fst (node_entries pending (int k) (snd (prev ! k)) node))"
    by (auto simp: sorted_iff_nth_mono_less dest: nth_mem)
  have b: "\<forall>y \<in> set (concat (map (\<lambda>(k, node). node_entries pending (int k) (snd (prev ! k)) node)
                (enumerate (Suc k) nodes))). int k \<le> fst y"
    by (auto simp: in_set_enumerate_eq dest!: fst_node_entries)
  from a b s Cons.IH [of "Suc k"] show ?case
    by (auto simp: sorted_append)
qed

lemma translate_loop_nothing_folded:
  "nothing_folded nodes \<Longrightarrow> last_change_index \<le> int (length nodes) \<Longrightarrow>
   translate_loop tree_index captured i offset last_change_index nodes ns = (None, nodes, ns)"
proof (induction "length nodes - i" arbitrary: i)
  case 0
  then have "\<not> int i < last_change_index" by simp
  then show ?case by (subst translate_loop.simps) simp
next
  case (Suc n)
  show ?case
  proof (cases "int i < last_change_index")
    case False
    then show ?thesis by (subst translate_loop.simps) simp
  next
    case True
    with Suc.prems have i: "\<not> length nodes \<le> i" by simp
    then have "nodes ! i \<in> set nodes" by simp
    with Suc.prems(1) have nf: "\<forall>hidden. subtree (nodes ! i) \<noteq> Some (False, hidden)"
      by (auto simp: nothing_folded_def list_all_iff split: option.splits bool.splits)
    from Suc.hyps(2) have "n = length nodes - Suc i" by simp
    from Suc.hyps(1) [OF this Suc.prems]
    have ih: "translate_loop tree_index captured (Suc i) offset last_change_index nodes ns
                = (None, nodes, ns)" .
    show ?thesis
      using nf True i ih
      by (subst translate_loop.simps) (auto split: option.splits bool.splits)
  qed
qed

lemma translateNodeIndex_nothing_folded:
  assumes "nothing_folded nodes" and "\<forall>e \<in> set ns. fst e \<le> int (length nodes)"
  shows "translateNodeIndex nodes ns tree_index = (None, nodes, ns)"
proof (cases "ns = []")
  case True
  then show ?thesis by (simp add: translateNodeIndex_def)
next
  case False
  have "fold max xs x \<le> b" if "x \<le> b" "\<forall>y \<in> set xs. y \<le> b" for xs and x b :: int
    using that by (induction xs arbitrary: x) auto
  from this [of "fst (hd ns)" "int (length nodes)" "map fst (tl ns)"] assms(2) False
  have "max_element_first ns \<le> int (length nodes)"
    by (cases ns) (auto simp: max_element_first_def)
  with False assms(1) show ?thesis
    by (simp add: translateNodeIndex_def translate_loop_nothing_folded)
qed

lemma previous_status_length: "length (previous_status s) = Suc (length (tree_nodes s))"
  by (simp add: previous_status_def)

lemma previous_status_nth:
  "snd (previous_status s ! 0) = root_status s"
  "1 \<le> i \<Longrightarrow> i \<le> length (tree_nodes s) \<Longrightarrow>
     snd (previous_status s ! i) = status (tree_nodes s ! (i - 1))"
  by (auto simp: previous_status_def nth_Cons nth_enumerate_eq split: nat.splits)

lemma try_tick_frame:
  "try_tick env s = (r, s1) \<Longrightarrow>
     effects s1 = effects s \<and> tree_name s1 = tree_name s \<and> abstract_tree s1 = abstract_tree s"
  by (auto simp: try_tick_def split: prod.splits tick_outcome.splits)

lemma stop_unless_running_frame:
  "effects (stop_unless_running s) = effects s"
  "tree_name (stop_unless_running s) = tree_name s"
  "abstract_tree (stop_unless_running s) = abstract_tree s"
  "tree_nodes (stop_unless_running s) = tree_nodes s"
  "root_status (stop_unless_running s) = root_status s"
  by (simp_all add: stop_unless_running_def)

lemma tickRoot_after_tick:
  assumes "1 < length (tree_nodes s)" and "try_tick env s = (Inr pending, s1)"
    and "length (tree_nodes s1) = length (tree_nodes s)"
    and "changed_status pending (previous_status s) (root_status s1) (tree_nodes s1) = Inr v"
  shows "tickRoot env s = expandAndChangeNodeStyle v False (stop_unless_running s1)"
  using assms by (simp add: tickRoot_def Let_def stop_unless_running_frame)

lemma changed_status_vector:
  assumes len: "length prev = Suc (length nodes)"
  shows "\<exists>v. changed_status pending prev root nodes = Inr v \<and>
             filter (\<lambda>e. fst e = 0) v = (if root \<noteq> snd (prev ! 0) then [(0, root)] else []) \<and>
             (\<forall>j. 1 \<le> j \<and> j \<le> length nodes \<longrightarrow>
                 filter (\<lambda>e. fst e = int j) v =
                   node_entries pending (int j) (snd (prev ! j)) (nodes ! (j - 1))) \<and>
             sorted (map fst v)"
proof -
  define blocks where "blocks = concat (map (\<lambda>(k, node).
      node_entries pending (int k) (snd (prev ! k)) node) (enumerate 1 nodes))"
  define v where "v = (if root \<noteq> snd (prev ! 0) then [(0, root)] else []) @ blocks"
  have c: "changed_status pending prev root nodes = Inr v"
    unfolding v_def blocks_def using len by (intro changed_status_closed) simp
  have z: "filter (\<lambda>e. fst e = 0) blocks = []"
    unfolding blocks_def using filter_concat_entries_zero [of pending prev 0 nodes] by simp
  have f0: "filter (\<lambda>e. fst e = 0) v = (if root \<noteq> snd (prev ! 0) then [(0, root)] else [])"
    by (simp add: v_def z)
  have fj: "filter (\<lambda>e. fst e = int j) v =
              node_entries pending (int j) (snd (prev ! j)) (nodes ! (j - 1))"
    if "1 \<le> j \<and> j \<le> length nodes" for j
    using that filter_concat_entries [of 1 j nodes pending prev]
    by (simp add: v_def blocks_def)
  have pos: "\<forall>y \<in> set blocks. 0 \<le> fst y"
    unfolding blocks_def by (auto simp: in_set_enumerate_eq dest!: fst_node_entries)
  have "sorted (map fst blocks)"
    unfolding blocks_def by (rule sorted_concat_entries)
  with pos have s: "sorted (map fst v)" by (auto simp: v_def)
  from c f0 fj s show ?thesis by blast
qed

lemma mem_fst_filter: "i \<in> fst ` set v \<longleftrightarrow> filter (\<lambda>e. fst e = i) v \<noteq> []"
  by (auto simp: filter_empty_conv)

lemma node_entries_empty:
  "node_entries pending i before node = [] \<longleftrightarrow>
     \<not> (status node \<noteq> before \<or> (status node = RUNNING \<and> node_type node \<noteq> CONDITION))"
  by (simp add: node_entries_def)

lemma expandAndChangeNodeStyle_effects:
  "effects (snd (expandAndChangeNodeStyle [] reset s)) = effects s"
  "v \<noteq> [] \<Longrightarrow> translateNodeIndex (abstract_tree s) v True = (None, nodes, v') \<Longrightarrow>
     effects (snd (expandAndChangeNodeStyle v reset s)) =
       effects s @ [ChangeNodeStyle (tree_name s) v' reset]"
  by (simp_all add: expandAndChangeNodeStyle_def emit_def)

lemma changed_status_bounds:
  assumes "length prev = Suc (length nodes)"
    and "changed_status pending prev root nodes = Inr v"
  shows "\<forall>e \<in> set v. fst e \<le> int (length nodes)"
proof -
  from changed_status_closed [of nodes prev pending root] assms
  have "v = (if root \<noteq> snd (prev ! 0) then [(0, root)] else []) @
          concat (map (\<lambda>(k, node). node_entries pending (int k) (snd (prev ! k)) node)
                    (enumerate 1 nodes))" by simp
  then show ?thesis
    by (auto simp: in_set_enumerate_eq dest!: fst_node_entries split: if_splits)
qed

text \<open>
  C3, as amended. When \<open>tickRoot\<close> has ticked a tree of more than one node and the tick
  has returned or has thrown \<open>ConditionEvaluation\<close>, the vector \<open>node_status\<close> that it builds
  and passes to \<open>expandAndChangeNodeStyle\<close> is sorted by index, contains index 0 exactly
  when the root status has changed, and contains the index \<open>i\<close> of a node exactly when the
  status of the node differs from the one before the tick or is \<open>RUNNING\<close> as before in a
  node that is no condition. Its entries for \<open>i\<close> are: the status before the tick followed
  by \<open>IDLE\<close> when the status has changed to \<open>IDLE\<close>; the new status when it has changed to
  another one; \<open>RUNNING\<close>, followed by \<open>IDLE\<close> when the evaluation of a condition is
  pending, for the forced update. Nothing is emitted for an empty vector; otherwise
  \<open>changeNodeStyle\<close> is emitted once, with the vector whose indices \<open>translateNodeIndex\<close> has
  turned into those of the editor, which is the vector itself where no subtree is folded.
\<close>

theorem tickRoot_changed_status:
  assumes "1 < length (tree_nodes s)" and "try_tick env s = (Inr pending, s1)"
    and "length (tree_nodes s1) = length (tree_nodes s)"
  shows "\<exists>v. changed_status pending (previous_status s) (root_status s1) (tree_nodes s1) = Inr v \<and>
    tickRoot env s = expandAndChangeNodeStyle v False (stop_unless_running s1) \<and>
    (0 \<in> fst ` set v \<longleftrightarrow> root_status s1 \<noteq> root_status s) \<and>
    (\<forall>i. 1 \<le> i \<and> i \<le> length (tree_nodes s1) \<longrightarrow>
       (int i \<in> fst ` set v \<longleftrightarrow>
          status (tree_nodes s1 ! (i - 1)) \<noteq> status (tree_nodes s ! (i - 1)) \<or>
          (status (tree_nodes s1 ! (i - 1)) = RUNNING \<and>
           node_type (tree_nodes s1 ! (i - 1)) \<noteq> CONDITION)) \<and>
       filter (\<lambda>e. fst e = int i) v =
         node_entries pending (int i) (status (tree_nodes s ! (i - 1)))
           (tree_nodes s1 ! (i - 1))) \<and>
    sorted (map fst v) \<and>
    (v = [] \<longrightarrow> effects (snd (tickRoot env s)) = effects s) \<and>
    (\<forall>nodes v'. v \<noteq> [] \<and> translateNodeIndex (abstract_tree s) v True = (None, nodes, v') \<longrightarrow>
        effects (snd (tickRoot env s)) =
          effects s @ [ChangeNodeStyle (tree_name s) v' False]) \<and>
    (v \<noteq> [] \<and> nothing_folded (abstract_tree s) \<and>
     length (tree_nodes s) \<le> length (abstract_tree s) \<longrightarrow>
        effects (snd (tickRoot env s)) =
          effects s @ [ChangeNodeStyle (tree_name s) v False])"
proof -
  define s2 where "s2 = stop_unless_running s1"
  have len: "length (previous_status s) = Suc (length (tree_nodes s1))"
    using assms(3) by (simp add: previous_status_length)
  from changed_status_vector [OF len, of pending "root_status s1"] obtain v where
    c: "changed_status pending (previous_status s) (root_status s1) (tree_nodes s1) = Inr v" and
    f0: "filter (\<lambda>e. fst e = 0) v =
           (if root_status s1 \<noteq> snd (previous_status s ! 0) then [(0, root_status s1)] else [])" and
    fj: "\<forall>j. 1 \<le> j \<and> j \<le> length (tree_nodes s1) \<longrightarrow>
           filter (\<lambda>e. fst e = int j) v =
             node_entries pending (int j) (snd (previous_status s ! j)) (tree_nodes s1 ! (j - 1))" and
    so: "sorted (map fst v)"
    by blast
  have t: "tickRoot env s = expandAndChangeNodeStyle v False s2"
    unfolding s2_def using assms c by (rule tickRoot_after_tick)
  from try_tick_frame [OF assms(2)]
  have fr: "effects s2 = effects s" "tree_name s2 = tree_name s"
    "abstract_tree s2 = abstract_tree s"
    by (simp_all add: s2_def stop_unless_running_frame)
  have r0: "0 \<in> fst ` set v \<longleftrightarrow> root_status s1 \<noteq> root_status s"
    using f0 by (simp add: mem_fst_filter previous_status_nth)
  have rj: "(int i \<in> fst ` set v \<longleftrightarrow>
          status (tree_nodes s1 ! (i - 1)) \<noteq> status (tree_nodes s ! (i - 1)) \<or>
          (status (tree_nodes s1 ! (i - 1)) = RUNNING \<and>
           node_type (tree_nodes s1 ! (i - 1)) \<noteq> CONDITION)) \<and>
       filter (\<lambda>e. fst e = int i) v =
         node_entries pending (int i) (status (tree_nodes s ! (i - 1)))
           (tree_nodes s1 ! (i - 1))"
    if i: "1 \<le> i \<and> i \<le> length (tree_nodes s1)" for i
  proof -
    from i assms(3) have p: "snd (previous_status s ! i) = status (tree_nodes s ! (i - 1))"
      by (simp add: previous_status_nth)
    from fj i p have f: "filter (\<lambda>e. fst e = int i) v =
         node_entries pending (int i) (status (tree_nodes s ! (i - 1)))
           (tree_nodes s1 ! (i - 1))" by simp
    then show ?thesis by (simp add: mem_fst_filter node_entries_empty)
  qed
  have e0: "v = [] \<longrightarrow> effects (snd (tickRoot env s)) = effects s"
    using t fr by (simp add: expandAndChangeNodeStyle_effects)
  have e1: "effects (snd (tickRoot env s)) =
          effects s @ [ChangeNodeStyle (tree_name s) v' False]"
    if "v \<noteq> [] \<and> translateNodeIndex (abstract_tree s) v True = (None, nodes, v')" for nodes v'
    using that t fr expandAndChangeNodeStyle_effects(2) [of v s2 nodes v' False] by simp
  have e2: "v \<noteq> [] \<and> nothing_folded (abstract_tree s) \<and>
     length (tree_nodes s) \<le> length (abstract_tree s) \<longrightarrow>
        effects (snd (tickRoot env s)) =
          effects s @ [ChangeNodeStyle (tree_name s) v False]"
  proof (intro impI, elim conjE)
    assume ne: "v \<noteq> []" and nf: "nothing_folded (abstract_tree s)"
      and le: "length (tree_nodes s) \<le> length (abstract_tree s)"
    from changed_status_bounds [OF len c] le assms(3)
    have "\<forall>e \<in> set v. fst e \<le> int (length (abstract_tree s))" by auto
    from translateNodeIndex_nothing_folded [OF nf this]
    have "translateNodeIndex (abstract_tree s) v True = (None, abstract_tree s, v)" .
    with ne e1 show "effects (snd (tickRoot env s)) =
          effects s @ [ChangeNodeStyle (tree_name s) v False]" by blast
  qed
  from c t r0 rj so e0 e1 e2 show ?thesis
    unfolding s2_def by blast
qed

theorem tickRoot_changed_status_witness:
  "1 < length (tree_nodes small_panel) \<and>
   fst (try_tick running_tick small_panel) = Inr False \<and>
   length (tree_nodes (snd (try_tick running_tick small_panel))) =
     length (tree_nodes small_panel) \<and>
   nothing_folded (abstract_tree small_panel) \<and>
   length (tree_nodes small_panel) \<le> length (abstract_tree small_panel) \<and>
   changed_status False (previous_status small_panel)
     (root_status (snd (try_tick running_tick small_panel)))
     (tree_nodes (snd (try_tick running_tick small_panel))) =
     Inr [(0, RUNNING), (3, RUNNING)] \<and>
   (\<exists>v. changed_status False (previous_status small_panel)
          (root_status (snd (try_tick running_tick small_panel)))
          (tree_nodes (snd (try_tick running_tick small_panel))) = Inr v \<and>
        tickRoot running_tick small_panel =
          expandAndChangeNodeStyle v False
            (stop_unless_running (snd (try_tick running_tick small_panel))) \<and>
        (0 \<in> fst ` set v \<longleftrightarrow>
           root_status (snd (try_tick running_tick small_panel)) \<noteq> root_status small_panel) \<and>
        sorted (map fst v)) \<and>
   effects (snd (tickRoot running_tick small_panel)) =
     effects small_panel @ [ChangeNodeStyle ''BehaviorTree'' [(0, RUNNING), (3, RUNNING)] False]"
proof -
  define s1 where "s1 = snd (try_tick running_tick small_panel)"
  have a: "1 < length (tree_nodes small_panel)" by code_simp
  have b: "fst (try_tick running_tick small_panel) = Inr False" by code_simp
  have c: "length (tree_nodes s1) = length (tree_nodes small_panel)"
    unfolding s1_def by code_simp
  have n: "nothing_folded (abstract_tree small_panel)" by code_simp
  have l: "length (tree_nodes small_panel) \<le> length (abstract_tree small_panel)" by code_simp
  have v: "changed_status False (previous_status small_panel) (root_status s1) (tree_nodes s1) =
             Inr [(0, RUNNING), (3, RUNNING)]"
    unfolding s1_def by code_simp
  have tn: "tree_name small_panel = ''BehaviorTree''" by code_simp
  from b have b': "try_tick running_tick small_panel = (Inr False, s1)"
    unfolding s1_def by (metis prod.collapse)
  from tickRoot_changed_status [OF a b' c] obtain w where
    w: "changed_status False (previous_status small_panel) (root_status s1) (tree_nodes s1) = Inr w"
       "tickRoot running_tick small_panel = expandAndChangeNodeStyle w False (stop_unless_running s1)"
       "0 \<in> fst ` set w \<longleftrightarrow> root_status s1 \<noteq> root_status small_panel"
       "sorted (map fst w)"
       "w \<noteq> [] \<and> nothing_folded (abstract_tree small_panel) \<and>
          length (tree_nodes small_panel) \<le> length (abstract_tree small_panel) \<longrightarrow>
          effects (snd (tickRoot running_tick small_panel)) =
            effects small_panel @ [ChangeNodeStyle (tree_name small_panel) w False]"
    by blast
  from w(1) v have eq: "w = [(0, RUNNING), (3, RUNNING)]" by simp
  with w(5) n l tn
  have e: "effects (snd (tickRoot running_tick small_panel)) =
     effects small_panel @ [ChangeNodeStyle ''BehaviorTree'' [(0, RUNNING), (3, RUNNING)] False]"
    by simp
  from w(1-4) have x: "\<exists>v. changed_status False (previous_status small_panel)
          (root_status s1) (tree_nodes s1) = Inr v \<and>
        tickRoot running_tick small_panel =
          expandAndChangeNodeStyle v False (stop_unless_running s1) \<and>
        (0 \<in> fst ` set v \<longleftrightarrow> root_status s1 \<noteq> root_status small_panel) \<and>
        sorted (map fst v)"
    by (intro exI [of _ w] conjI)
  show ?thesis
    using a b c n l v x e unfolding s1_def by (intro conjI)
qed

text \<open>
  The claim as it was stated fails for the vector that is emitted where a subtree is
  folded: the third node of the execution tree is the only node whose status has changed,
  and the emitted vector has the index 2 of the editor for it, the index of a node of the
  execution tree whose status has not changed and is not \<open>RUNNING\<close>.
\<close>

theorem emitted_indices_counterexample:
  "effects (snd (tickRoot running_tick folded_panel)) =
     effects folded_panel @
       [ChangeNodeStyle ''BehaviorTree'' [(0, RUNNING), (2, RUNNING)] False] \<and>
   status (tree_nodes (snd (tickRoot running_tick folded_panel)) ! (3 - 1)) \<noteq>
     status (tree_nodes folded_panel ! (3 - 1)) \<and>
   3 \<notin> fst ` set [(0 :: int, RUNNING), (2, RUNNING)] \<and>
   status (tree_nodes (snd (tickRoot running_tick folded_panel)) ! (2 - 1)) =
     status (tree_nodes folded_panel ! (2 - 1)) \<and>
   status (tree_nodes (snd (tickRoot running_tick folded_panel)) ! (2 - 1)) \<noteq> RUNNING \<and>
   2 \<in> fst ` set [(0 :: int, RUNNING), (2, RUNNING)]"
  by code_simp

section \<open>Properties of \<open>translateNodeIndex\<close>\<close>


lemma hidden_of_nonneg: "0 \<le> hidden_of node"
  by (simp add: hidden_of_def split: option.splits bool.splits)

lemma hidden_before_root_nonneg: "0 \<le> hidden_before_root nodes position g"
  by (induction nodes arbitrary: position) (simp_all add: hidden_of_nonneg)

lemma hidden_before_root_early: "g \<le> position \<Longrightarrow> hidden_before_root nodes position g = 0"
  by (induction nodes arbitrary: position) simp_all

lemma hidden_before_root_mono:
  "g \<le> g' \<Longrightarrow> hidden_before_root nodes position g \<le> hidden_before_root nodes position g'"
proof (induction nodes arbitrary: position)
  case Nil
  show ?case by simp
next
  case (Cons node nodes)
  from Cons.IH [OF Cons.prems, of "position + 1"] hidden_of_nonneg [of node] Cons.prems
  show ?case by simp
qed

lemma hidden_before_root_append:
  "hidden_before_root (xs @ ys) position g =
     hidden_before_root xs position g + hidden_before_root ys (position + int (length xs)) g"
  by (induction xs arbitrary: position) (simp_all add: add.assoc add.commute)

lemma hidden_before_index_early: "t \<le> position \<Longrightarrow> hidden_before_index nodes position t = 0"
proof (induction nodes arbitrary: position)
  case Nil
  show ?case by simp
next
  case (Cons node nodes)
  from Cons.prems hidden_of_nonneg [of node]
  have "t \<le> position + 1 + hidden_of node" by arith
  from Cons.IH [OF this] Cons.prems hidden_of_nonneg [of node] show ?case by simp
qed

lemma to_tree_index_mono: "g \<le> g' \<Longrightarrow> to_tree_index nodes g \<le> to_tree_index nodes g'"
  using hidden_before_root_mono [of g g' nodes 0] by (simp add: to_tree_index_def)

lemma to_tree_index_strict: "g < g' \<Longrightarrow> to_tree_index nodes g < to_tree_index nodes g'"
  using hidden_before_root_mono [of g g' nodes 0] by (simp add: to_tree_index_def)

text \<open>Walking a list whose first node is shown at \<open>p\<close> and stands at \<open>q\<close> in the tree.\<close>

lemma hidden_before_index_of_root:
  "p \<le> g \<Longrightarrow>
   hidden_before_index nodes q (q + (g - p) + hidden_before_root nodes p g) =
     hidden_before_root nodes p g"
proof (induction nodes arbitrary: p q)
  case Nil
  show ?case by simp
next
  case (Cons node nodes)
  show ?case
  proof (cases "p < g")
    case False
    with Cons.prems have "g = p" by simp
    then show ?thesis
      using hidden_of_nonneg [of node]
      by (simp add: hidden_before_root_early hidden_before_index_early)
  next
    case True
    then have le: "p + 1 \<le> g" by simp
    have shift: "q + (g - p) + (hidden_of node + hidden_before_root nodes (p + 1) g) =
           (q + 1 + hidden_of node) + (g - (p + 1)) + hidden_before_root nodes (p + 1) g"
      by arith
    from True hidden_before_root_nonneg [of nodes "p + 1" g]
    have after: "q + hidden_of node <
           (q + 1 + hidden_of node) + (g - (p + 1)) + hidden_before_root nodes (p + 1) g"
      by arith
    from True show ?thesis
      by (simp only: hidden_before_root.simps hidden_before_index.simps if_True shift after
            Cons.IH [OF le])
  qed
qed

lemma to_gui_of_tree_index: "0 \<le> g \<Longrightarrow> to_gui_index nodes (to_tree_index nodes g) = g"
  using hidden_before_index_of_root [of 0 g nodes 0] by (simp add: to_gui_index_def to_tree_index_def)

lemma tree_size_Cons: "tree_size (node # nodes) = 1 + hidden_of node + tree_size nodes"
  by (simp add: tree_size_def)

lemma shown_position:
  "q \<le> t \<Longrightarrow> t < q + tree_size nodes \<Longrightarrow> \<not> in_hidden_range nodes q t \<Longrightarrow>
   \<exists>g. p \<le> g \<and> g < p + int (length nodes) \<and> t - q = (g - p) + hidden_before_root nodes p g"
proof (induction nodes arbitrary: p q)
  case Nil
  then show ?case by (simp add: tree_size_def)
next
  case (Cons node nodes)
  show ?case
  proof (cases "t = q")
    case True
    then show ?thesis
      by (intro exI [of _ p]) (simp add: hidden_before_root_early)
  next
    case False
    with Cons.prems have later: "q + 1 + hidden_of node \<le> t" by simp
    from Cons.prems have "t < (q + 1 + hidden_of node) + tree_size nodes"
      by (simp add: tree_size_Cons)
    moreover from Cons.prems have "\<not> in_hidden_range nodes (q + 1 + hidden_of node) t" by simp
    ultimately obtain g where g: "p + 1 \<le> g" "g < (p + 1) + int (length nodes)"
      "t - (q + 1 + hidden_of node) = (g - (p + 1)) + hidden_before_root nodes (p + 1) g"
      using Cons.IH [OF later, of "p + 1"] by blast
    then show ?thesis
      by (intro exI [of _ g]) simp
  qed
qed

lemma shown_is_tree_index:
  assumes "shown nodes t"
  shows "\<exists>g. 0 \<le> g \<and> g < int (length nodes) \<and> t = to_tree_index nodes g"
proof -
  from assms have "0 \<le> t" "t < 0 + tree_size nodes" "\<not> in_hidden_range nodes 0 t"
    by (simp_all add: shown_def)
  from shown_position [OF this, of 0] show ?thesis
    by (auto simp add: to_tree_index_def)
qed


lemma max_element_first_Max: "ns \<noteq> [] \<Longrightarrow> max_element_first ns = Max (fst ` set ns)"
proof -
  assume "ns \<noteq> []"
  then obtain a as where ns: "ns = a # as" by (cases ns) auto
  have "fold max (map fst as) (fst a) = Max (set (fst a # map fst as))"
    by (rule Max.set_eq_fold [symmetric])
  with ns show ?thesis by (simp add: max_element_first_def)
qed

lemma max_element_first_in: "ns \<noteq> [] \<Longrightarrow> max_element_first ns \<in> fst ` set ns"
  using Max_in [of "fst ` set ns"] by (simp add: max_element_first_Max)

lemma max_element_first_ge: "ns \<noteq> [] \<Longrightarrow> e \<in> set ns \<Longrightarrow> fst e \<le> max_element_first ns"
  using Max_ge [of "fst ` set ns" "fst e"] by (simp add: max_element_first_Max)

lemma update_range_nothing: "update_range tree_index mn 0 ns = ns"
  by (simp add: update_range_def update_entry_def map_idI)

lemma translate_loop_step:
  assumes "int i < last_change_index" and "i < length nodes"
    and "tree_index \<longrightarrow> \<not> check_range captured (int i) (hidden_of (nodes ! i))"
  shows "translate_loop tree_index captured i offset last_change_index nodes ns =
         translate_loop tree_index captured (Suc i)
           (if tree_index then offset else offset + hidden_of (nodes ! i))
           (if tree_index then last_change_index - hidden_of (nodes ! i) else last_change_index)
           nodes (update_range tree_index (int i + offset) (hidden_of (nodes ! i)) ns)"
proof (cases "subtree (nodes ! i)")
  case None
  with assms(1,2) show ?thesis
    by (subst translate_loop.simps) (simp add: hidden_of_def update_range_nothing)
next
  case (Some flag)
  obtain expanded hidden where flag: "flag = (expanded, hidden)" by (cases flag)
  show ?thesis
  proof (cases expanded)
    case True
    with Some flag assms(1,2) show ?thesis
      by (subst translate_loop.simps) (simp add: hidden_of_def update_range_nothing)
  next
    case False
    with Some flag have h: "hidden_of (nodes ! i) = int hidden" by (simp add: hidden_of_def)
    from False Some flag assms show ?thesis
      by (subst translate_loop.simps) (simp add: h Let_def)
  qed
qed


lemma hidden_before_root_drop:
  "i < length nodes \<Longrightarrow>
   hidden_before_root (drop i nodes) (int i) g =
     (if int i < g then hidden_of (nodes ! i) else 0) +
     hidden_before_root (drop (Suc i) nodes) (int (Suc i)) g"
  by (simp add: Cons_nth_drop_Suc [symmetric] add.commute)

lemma update_range_to_gui:
  assumes "i < length nodes"
  shows "update_range True (int i) (hidden_of (nodes ! i))
           (map (\<lambda>e. (fst e + hidden_before_root (drop i nodes) (int i) (fst e), snd e)) gs) =
         map (\<lambda>e. (fst e + hidden_before_root (drop (Suc i) nodes) (int (Suc i)) (fst e), snd e)) gs"
proof -
  have "update_entry True (int i) (hidden_of (nodes ! i))
          (g + hidden_before_root (drop i nodes) (int i) g, s) =
        (g + hidden_before_root (drop (Suc i) nodes) (int (Suc i)) g, s)" for g s
  proof (cases "int i < g")
    case True
    with hidden_before_root_nonneg [of "drop (Suc i) nodes" "int (Suc i)" g] show ?thesis
      by (simp add: update_entry_def hidden_before_root_drop [OF assms])
  next
    case False
    then have "g \<le> int i" "g \<le> int (Suc i)" by simp_all
    with hidden_of_nonneg [of "nodes ! i"] show ?thesis
      by (simp add: update_entry_def hidden_before_root_early)
  qed
  then show ?thesis by (simp add: update_range_def)
qed

lemma translate_loop_to_gui:
  assumes "gmax < length nodes" and "i \<le> gmax" and "\<forall>e \<in> set gs. fst e \<le> int gmax"
    and "\<forall>j. i \<le> j \<and> j < gmax \<longrightarrow> \<not> check_range captured (int j) (hidden_of (nodes ! j))"
  shows "translate_loop True captured i 0
           (int gmax + hidden_before_root (drop i nodes) (int i) (int gmax)) nodes
           (map (\<lambda>e. (fst e + hidden_before_root (drop i nodes) (int i) (fst e), snd e)) gs) =
         (None, nodes, gs)"
  using assms(2,4)
proof (induction "gmax - i" arbitrary: i)
  case 0
  then have i: "i = gmax" by simp
  have "map (\<lambda>e. (fst e + hidden_before_root (drop i nodes) (int i) (fst e), snd e)) gs = gs"
    using assms(3) by (intro map_idI) (simp add: i hidden_before_root_early)
  then show ?case
    by (subst translate_loop.simps) (simp add: i hidden_before_root_early)
next
  case (Suc n)
  then have lt: "i < gmax" by simp
  with assms(1) have len: "i < length nodes" by simp
  from lt hidden_before_root_nonneg [of "drop i nodes" "int i" "int gmax"]
  have run: "int i < int gmax + hidden_before_root (drop i nodes) (int i) (int gmax)" by simp
  from Suc.prems(2) lt have quiet: "\<not> check_range captured (int i) (hidden_of (nodes ! i))"
    by simp
  from lt have last: "int gmax + hidden_before_root (drop i nodes) (int i) (int gmax)
                        - hidden_of (nodes ! i) =
                      int gmax + hidden_before_root (drop (Suc i) nodes) (int (Suc i)) (int gmax)"
    by (simp add: hidden_before_root_drop [OF len])
  from Suc.hyps(2) have n: "n = gmax - Suc i" by simp
  from lt have "Suc i \<le> gmax" by simp
  moreover from Suc.prems(2)
  have "\<forall>j. Suc i \<le> j \<and> j < gmax \<longrightarrow> \<not> check_range captured (int j) (hidden_of (nodes ! j))"
    by simp
  ultimately have ih: "translate_loop True captured (Suc i) 0
           (int gmax + hidden_before_root (drop (Suc i) nodes) (int (Suc i)) (int gmax)) nodes
           (map (\<lambda>e. (fst e + hidden_before_root (drop (Suc i) nodes) (int (Suc i)) (fst e), snd e)) gs) =
         (None, nodes, gs)"
    by (rule Suc.hyps(1) [OF n])
  have "translate_loop True captured i 0
           (int gmax + hidden_before_root (drop i nodes) (int i) (int gmax)) nodes
           (map (\<lambda>e. (fst e + hidden_before_root (drop i nodes) (int i) (fst e), snd e)) gs) =
        translate_loop True captured (Suc i) 0
           (int gmax + hidden_before_root (drop i nodes) (int i) (int gmax) - hidden_of (nodes ! i)) nodes
           (update_range True (int i + 0) (hidden_of (nodes ! i))
              (map (\<lambda>e. (fst e + hidden_before_root (drop i nodes) (int i) (fst e), snd e)) gs))"
    using translate_loop_step [OF run len, of True captured 0] quiet by simp
  also have "\<dots> = (None, nodes, gs)"
    using ih by (simp only: last add_0_right update_range_to_gui [OF len])
  finally show ?case .
qed


lemma translateNodeIndex_to_gui:
  assumes "ns \<noteq> []" and "\<forall>e \<in> set ns. shown nodes (fst e)" and "no_range_hit nodes ns"
  shows "translateNodeIndex nodes ns True =
           (None, nodes, map (\<lambda>e. (to_gui_index nodes (fst e), snd e)) ns)"
proof -
  let ?m = "max_element_first ns"
  let ?gs = "map (\<lambda>e. (to_gui_index nodes (fst e), snd e)) ns"
  from max_element_first_in [OF assms(1)] assms(2) have "shown nodes ?m" by auto
  then obtain gm where gm: "0 \<le> gm" "gm < int (length nodes)" "?m = to_tree_index nodes gm"
    using shown_is_tree_index by blast
  then have gui_m: "to_gui_index nodes ?m = gm" by (simp add: to_gui_of_tree_index)
  have restored: "to_tree_index nodes (to_gui_index nodes (fst e)) = fst e"
    and below: "to_gui_index nodes (fst e) \<le> gm" if "e \<in> set ns" for e
  proof -
    from that assms(2) have "shown nodes (fst e)" by simp
    then obtain g where g: "0 \<le> g" "fst e = to_tree_index nodes g"
      using shown_is_tree_index by blast
    then have gui: "to_gui_index nodes (fst e) = g" by (simp add: to_gui_of_tree_index)
    with g show "to_tree_index nodes (to_gui_index nodes (fst e)) = fst e" by simp
    from max_element_first_ge [OF assms(1) that] g gm
    have "to_tree_index nodes g \<le> to_tree_index nodes gm" by simp
    with to_tree_index_strict [of gm g nodes] have "g \<le> gm" by (cases "gm < g") simp_all
    with gui show "to_gui_index nodes (fst e) \<le> gm" by simp
  qed
  have len: "nat gm < length nodes" using gm by simp
  have bound: "\<forall>e \<in> set ?gs. fst e \<le> int (nat gm)" using below gm(1) by auto
  have quiet: "\<forall>j. 0 \<le> j \<and> j < nat gm \<longrightarrow> \<not> check_range ns (int j) (hidden_of (nodes ! j))"
    using assms(3) by (simp add: no_range_hit_def gui_m list_all_iff)
  have start: "map (\<lambda>e. (fst e + hidden_before_root (drop 0 nodes) (int 0) (fst e), snd e)) ?gs = ns"
    unfolding map_map comp_def fst_conv snd_conv
    using restored by (intro map_idI) (simp add: to_tree_index_def prod_eq_iff)
  have last: "int (nat gm) + hidden_before_root (drop 0 nodes) (int 0) (int (nat gm)) = ?m"
    using gm by (simp add: to_tree_index_def)
  from translate_loop_to_gui [where i = 0, OF len le0 bound quiet]
  have "translate_loop True ns 0 0 ?m nodes ns = (None, nodes, ?gs)"
    by (simp only: start last)
  with assms(1) show ?thesis by (simp add: translateNodeIndex_def)
qed

lemma hidden_before_root_all:
  "position + int (length nodes) \<le> g \<Longrightarrow>
   hidden_before_root nodes position g = sum_list (map hidden_of nodes)"
  by (induction nodes arbitrary: position) simp_all

lemma hidden_before_root_le_all:
  "hidden_before_root nodes position g \<le> sum_list (map hidden_of nodes)"
proof (induction nodes arbitrary: position)
  case Nil
  show ?case by simp
next
  case (Cons node nodes)
  from Cons.IH [of "position + 1"] hidden_of_nonneg [of node] show ?case by simp
qed

lemma hidden_before_root_take:
  "i < length nodes \<Longrightarrow>
   hidden_before_root (take (Suc i) nodes) 0 g =
     hidden_before_root (take i nodes) 0 g + (if int i < g then hidden_of (nodes ! i) else 0)"
  by (simp add: take_Suc_conv_app_nth hidden_before_root_append min_def)

lemma update_range_to_tree:
  assumes "i < length nodes"
  shows "update_range False (int i + sum_list (map hidden_of (take i nodes))) (hidden_of (nodes ! i))
           (map (\<lambda>e. (fst e + hidden_before_root (take i nodes) 0 (fst e), snd e)) gs) =
         map (\<lambda>e. (fst e + hidden_before_root (take (Suc i) nodes) 0 (fst e), snd e)) gs"
proof -
  have "update_entry False (int i + sum_list (map hidden_of (take i nodes))) (hidden_of (nodes ! i))
          (g + hidden_before_root (take i nodes) 0 g, s) =
        (g + hidden_before_root (take (Suc i) nodes) 0 g, s)" for g s
  proof (cases "int i < g")
    case True
    with assms have "0 + int (length (take i nodes)) \<le> g" by simp
    from hidden_before_root_all [OF this] True show ?thesis
      by (simp add: update_entry_def hidden_before_root_take [OF assms])
  next
    case False
    with hidden_before_root_le_all [of "take i nodes" 0 g] show ?thesis
      by (simp add: update_entry_def hidden_before_root_take [OF assms])
  qed
  then show ?thesis by (simp add: update_range_def)
qed

lemma translate_loop_to_tree:
  assumes "L \<le> int (length nodes)" and "int i \<le> L" and "\<forall>e \<in> set gs. fst e \<le> L"
  shows "translate_loop False captured i (sum_list (map hidden_of (take i nodes))) L nodes
           (map (\<lambda>e. (fst e + hidden_before_root (take i nodes) 0 (fst e), snd e)) gs) =
         (None, nodes, map (\<lambda>e. (to_tree_index nodes (fst e), snd e)) gs)"
  using assms(2)
proof (induction "nat L - i" arbitrary: i)
  case 0
  then have i: "int i = L" by simp
  with assms(1) have len: "i \<le> length nodes" by simp
  have "hidden_before_root (take i nodes) 0 g = hidden_before_root nodes 0 g" if "g \<le> L" for g
  proof -
    have "hidden_before_root (take i nodes @ drop i nodes) 0 g =
            hidden_before_root (take i nodes) 0 g"
      using that i len by (simp only: hidden_before_root_append)
        (simp add: hidden_before_root_early min_def)
    then show ?thesis by simp
  qed
  with assms(3)
  have "map (\<lambda>e. (fst e + hidden_before_root (take i nodes) 0 (fst e), snd e)) gs =
        map (\<lambda>e. (to_tree_index nodes (fst e), snd e)) gs"
    by (simp add: to_tree_index_def)
  with i show ?case by (subst translate_loop.simps) simp
next
  case (Suc n)
  then have run: "int i < L" by simp
  with assms(1) have len: "i < length nodes" by simp
  from Suc.hyps(2) have n: "n = nat L - Suc i" by simp
  from run have "int (Suc i) \<le> L" by simp
  from Suc.hyps(1) [OF n this]
  have ih: "translate_loop False captured (Suc i) (sum_list (map hidden_of (take (Suc i) nodes))) L
              nodes (map (\<lambda>e. (fst e + hidden_before_root (take (Suc i) nodes) 0 (fst e), snd e)) gs) =
            (None, nodes, map (\<lambda>e. (to_tree_index nodes (fst e), snd e)) gs)" .
  have sum: "sum_list (map hidden_of (take i nodes)) + hidden_of (nodes ! i) =
             sum_list (map hidden_of (take (Suc i) nodes))"
    using len by (simp add: take_Suc_conv_app_nth)
  have "translate_loop False captured i (sum_list (map hidden_of (take i nodes))) L nodes
           (map (\<lambda>e. (fst e + hidden_before_root (take i nodes) 0 (fst e), snd e)) gs) =
        translate_loop False captured (Suc i)
           (sum_list (map hidden_of (take i nodes)) + hidden_of (nodes ! i)) L nodes
           (update_range False (int i + sum_list (map hidden_of (take i nodes))) (hidden_of (nodes ! i))
              (map (\<lambda>e. (fst e + hidden_before_root (take i nodes) 0 (fst e), snd e)) gs))"
    using translate_loop_step [OF run len, of False captured] by simp
  also have "\<dots> = (None, nodes, map (\<lambda>e. (to_tree_index nodes (fst e), snd e)) gs)"
    using ih by (simp only: sum update_range_to_tree [OF len])
  finally show ?case .
qed

lemma translateNodeIndex_to_tree:
  assumes "ns \<noteq> []" and "\<forall>e \<in> set ns. fst e \<le> int (length nodes)"
  shows "translateNodeIndex nodes ns False =
           (None, nodes, map (\<lambda>e. (to_tree_index nodes (fst e), snd e)) ns)"
proof (cases "0 \<le> max_element_first ns")
  case True
  from max_element_first_in [OF assms(1)] assms(2)
  have "max_element_first ns \<le> int (length nodes)" by auto
  moreover from True have "int 0 \<le> max_element_first ns" by simp
  moreover have "\<forall>e \<in> set ns. fst e \<le> max_element_first ns"
    using max_element_first_ge [OF assms(1)] by simp
  ultimately have "translate_loop False ns 0 (sum_list (map hidden_of (take 0 nodes)))
           (max_element_first ns) nodes
           (map (\<lambda>e. (fst e + hidden_before_root (take 0 nodes) 0 (fst e), snd e)) ns) =
         (None, nodes, map (\<lambda>e. (to_tree_index nodes (fst e), snd e)) ns)"
    by (rule translate_loop_to_tree)
  with assms(1) show ?thesis by (simp add: translateNodeIndex_def)
next
  case False
  then have stop: "\<not> int 0 < max_element_first ns" by simp
  have "to_tree_index nodes (fst e) = fst e" if "e \<in> set ns" for e
    using max_element_first_ge [OF assms(1) that] False
    by (simp add: to_tree_index_def hidden_before_root_early)
  then have "map (\<lambda>e. (to_tree_index nodes (fst e), snd e)) ns = ns"
    by (intro map_idI) simp
  with assms(1) stop show ?thesis
    by (simp add: translateNodeIndex_def) (subst translate_loop.simps, simp)
qed


text \<open>
  C1, as amended. For every non-empty vector \<open>node_status\<close>: where every index is the
  index in the execution tree of a node that the editor shows (none of them falls inside
  the hidden range of a folded subtree) and \<open>check_range\<close> finds no index for a node
  before the one of the largest index, \<open>translateNodeIndex\<close> with \<open>tree_index = true\<close> folds
  every subtree back, throws nothing and decreases every index by the size of every folded
  subtree that it lies strictly after; where no index is larger than the number of nodes
  of the editor, \<open>translateNodeIndex\<close> with \<open>tree_index = false\<close> folds every subtree back,
  throws nothing and increases every index by the size of every folded subtree whose root
  it lies strictly after.
\<close>

theorem translateNodeIndex_translates:
  assumes "node_status \<noteq> []"
  shows "(list_all (\<lambda>it. shown nodes (fst it)) node_status \<and> no_range_hit nodes node_status \<longrightarrow>
            translateNodeIndex nodes node_status True =
              (None, nodes, map (\<lambda>it. (to_gui_index nodes (fst it), snd it)) node_status)) \<and>
         (list_all (\<lambda>it. fst it \<le> int (length nodes)) node_status \<longrightarrow>
            translateNodeIndex nodes node_status False =
              (None, nodes, map (\<lambda>it. (to_tree_index nodes (fst it), snd it)) node_status))"
proof (intro conjI impI)
  assume "list_all (\<lambda>it. shown nodes (fst it)) node_status \<and> no_range_hit nodes node_status"
  then have "\<forall>e \<in> set node_status. shown nodes (fst e)" and "no_range_hit nodes node_status"
    by (simp_all add: list_all_iff)
  with assms show "translateNodeIndex nodes node_status True =
      (None, nodes, map (\<lambda>it. (to_gui_index nodes (fst it), snd it)) node_status)"
    by (rule translateNodeIndex_to_gui)
next
  assume "list_all (\<lambda>it. fst it \<le> int (length nodes)) node_status"
  then have "\<forall>e \<in> set node_status. fst e \<le> int (length nodes)"
    by (simp add: list_all_iff)
  with assms show "translateNodeIndex nodes node_status False =
      (None, nodes, map (\<lambda>it. (to_tree_index nodes (fst it), snd it)) node_status)"
    by (rule translateNodeIndex_to_tree)
qed

theorem translateNodeIndex_translates_witness:
  "[(5, RUNNING), (7, SUCCESS)] \<noteq> ([] :: node_status) \<and>
   list_all (\<lambda>it. shown two_subtrees (fst it)) [(5, RUNNING), (7, SUCCESS)] \<and>
   no_range_hit two_subtrees [(5, RUNNING), (7, SUCCESS)] \<and>
   translateNodeIndex two_subtrees [(5, RUNNING), (7, SUCCESS)] True =
     (None, two_subtrees, [(3, RUNNING), (4, SUCCESS)]) \<and>
   list_all (\<lambda>it. fst it \<le> int (length two_subtrees)) [(3, RUNNING), (4, SUCCESS)] \<and>
   translateNodeIndex two_subtrees [(3, RUNNING), (4, SUCCESS)] False =
     (None, two_subtrees, [(5, RUNNING), (7, SUCCESS)])"
proof -
  have a: "[(5, RUNNING), (7, SUCCESS)] \<noteq> ([] :: node_status)" by simp
  have b: "list_all (\<lambda>it. shown two_subtrees (fst it)) [(5, RUNNING), (7, SUCCESS)]"
    by code_simp
  have c: "no_range_hit two_subtrees [(5, RUNNING), (7, SUCCESS)]" by code_simp
  have d: "map (\<lambda>it. (to_gui_index two_subtrees (fst it), snd it)) [(5, RUNNING), (7, SUCCESS)] =
             [(3, RUNNING), (4, SUCCESS)]"
    by code_simp
  have e: "[(3, RUNNING), (4, SUCCESS)] \<noteq> ([] :: node_status)" by simp
  have f: "list_all (\<lambda>it. fst it \<le> int (length two_subtrees)) [(3, RUNNING), (4, SUCCESS)]"
    by code_simp
  have g: "map (\<lambda>it. (to_tree_index two_subtrees (fst it), snd it)) [(3, RUNNING), (4, SUCCESS)] =
             [(5, RUNNING), (7, SUCCESS)]"
    by code_simp
  from translateNodeIndex_translates [OF a, of two_subtrees, THEN conjunct1, THEN mp,
      OF conjI [OF b c]]
  have h: "translateNodeIndex two_subtrees [(5, RUNNING), (7, SUCCESS)] True =
             (None, two_subtrees, [(3, RUNNING), (4, SUCCESS)])"
    by (simp only: d)
  from translateNodeIndex_translates [OF e, of two_subtrees, THEN conjunct2, THEN mp, OF f]
  have i: "translateNodeIndex two_subtrees [(3, RUNNING), (4, SUCCESS)] False =
             (None, two_subtrees, [(5, RUNNING), (7, SUCCESS)])"
    by (simp only: g)
  show ?thesis using a b c h f i by (intro conjI)
qed

text \<open>
  The claim as it was stated fails where an index falls inside the hidden range of a
  folded subtree: the subtree of the second node hides the nodes 2 and 3 of the execution
  tree, index 2 is one of them, so the subtree is left expanded and index 4, which lies
  strictly after the subtree, is not decreased by its size. It fails as well where an
  index of the editor is larger than the number of its nodes: \<open>at(i)\<close> throws.
\<close>

theorem hidden_index_counterexample:
  "translateNodeIndex one_subtree [(2, RUNNING), (4, SUCCESS)] True =
     (None, [plain, unfolded 2, plain, plain, plain], [(2, RUNNING), (4, SUCCESS)]) \<and>
   to_gui_index one_subtree 4 = 2 \<and>
   snd (snd (translateNodeIndex one_subtree [(2, RUNNING), (4, SUCCESS)] True)) \<noteq>
     map (\<lambda>it. (to_gui_index one_subtree (fst it), snd it)) [(2, RUNNING), (4, SUCCESS)] \<and>
   translateNodeIndex [plain] [(5, RUNNING)] False = (Some OutOfRange, [plain], [(5, RUNNING)])"
  by code_simp

end
